(* ===== verification/Pgx_Prelude.thy ===== *)
theory Pgx_Prelude
  imports Main "HOL-Library.Word" "HOL-Library.Sublist" "HOL-Library.AList"
begin

text \<open>
  Shared vocabulary of the development: bytes, the machine integers of Go, results that
  are either an error or a value, runtime panics as an error value, Go's slicing and
  indexing with their range checks, the counted loop, and the generic lemmas the
  components use.
\<close>

section \<open>Types\<close>

text \<open>
  A Go \<open>byte\<close> is an 8-bit word; a \<open>[]byte\<close> and a \<open>string\<close> are lists of bytes. Signed and
  unsigned integers of the same width are the same word type: the signed reading is
  \<open>sint\<close>, the unsigned one \<open>unat\<close> or \<open>uint\<close>. A \<open>[]byte\<close> for which the code tells \<open>nil\<close>
  from an empty slice is a \<open>bytes option\<close>.
\<close>

type_synonym byte = "8 word"
type_synonym bytes = "byte list"
type_synonym u16 = "16 word"
type_synonym u32 = "32 word"
type_synonym u64 = "64 word"

text \<open>String and character literals of the source as bytes.\<close>

definition str :: "string \<Rightarrow> bytes" where
  "str s = map of_char s"

abbreviation chr :: "char \<Rightarrow> byte" where
  "chr c \<equiv> of_char c"

named_theorems go_defs "definitions of Go primitives"
named_theorems safe_intros "introduction rules for results that are not a panic"

lemma str_Nil [simp]: "str [] = []"
  by (simp add: str_def)

lemma str_Cons [simp]: "str (c # cs) = of_char c # str cs"
  by (simp add: str_def)

lemma length_str [simp]: "length (str s) = length s"
  by (simp add: str_def)

lemma str_append: "str (s @ t) = str s @ str t"
  by (simp add: str_def)

section \<open>Results\<close>

text \<open>
  The errors that the modelled code returns. \<open>GoPanic\<close> is not an error value of the
  program: it stands for a run-time panic (an index or a slice bound out of range), so that
  the absence of panics can be stated and proved.
\<close>

datatype goerr =
    GoPanic
  | EOF
  | ErrUnexpectedEOF
  | IOErr string
  | ErrorsNew string
  | Errorf string int
  | InvalidMessageLenErr string nat nat
  | InvalidMessageFormatErr string string
  | ExceededMaxBodyLenErr int int
  | WriteError goerr bool

type_synonym 'a result = "goerr + 'a"

fun bindE :: "'e + 'a \<Rightarrow> ('a \<Rightarrow> 'e + 'b) \<Rightarrow> 'e + 'b" where
  "bindE (Inl e) f = Inl e"
| "bindE (Inr x) f = f x"

lemma bindE_Inr_iff: "bindE m f = Inr y \<longleftrightarrow> (\<exists>x. m = Inr x \<and> f x = Inr y)"
  by (cases m) auto

lemma bindE_Inl_iff: "bindE m f = Inl e \<longleftrightarrow> m = Inl e \<or> (\<exists>x. m = Inr x \<and> f x = Inl e)"
  by (cases m) auto

lemma bindE_cong [fundef_cong]:
  "m = m' \<Longrightarrow> (\<And>x. m' = Inr x \<Longrightarrow> f x = f' x) \<Longrightarrow> bindE m f = bindE m' f'"
  by (cases m') auto

text \<open>A result is safe when it is not a panic.\<close>

definition safe :: "'a result \<Rightarrow> bool" where
  "safe r \<longleftrightarrow> r \<noteq> Inl GoPanic"

lemma safe_Inr [simp, safe_intros]: "safe (Inr x)"
  by (simp add: safe_def)

lemma safe_Inl [simp]: "safe (Inl e) \<longleftrightarrow> e \<noteq> GoPanic"
  by (simp add: safe_def)

lemma safe_bindE [safe_intros]:
  "safe m \<Longrightarrow> (\<And>x. m = Inr x \<Longrightarrow> safe (f x)) \<Longrightarrow> safe (bindE m f)"
  by (cases m) auto

lemma safe_if [safe_intros]:
  "(b \<Longrightarrow> safe x) \<Longrightarrow> (\<not> b \<Longrightarrow> safe y) \<Longrightarrow> safe (if b then x else y)"
  by simp

section \<open>Slices\<close>

text \<open>
  \<open>slice_from k s\<close> is \<open>s[k:]\<close> and \<open>slice_to k s\<close> is \<open>s[:k]\<close>; \<open>index s k\<close> is \<open>s[k]\<close>. Each
  panics out of range. Go bounds \<open>s[:k]\<close> by the capacity of a byte slice; the model bounds
  it by the length, so a proof that the model does not panic covers Go's weaker check.
  Where the source keeps a read position \<open>rp\<close> and reads \<open>src[rp:]\<close>, the model keeps the
  remaining slice, and \<open>rp += k\<close> is \<open>slice_from k\<close>.
\<close>

definition slice_from :: "nat \<Rightarrow> 'a list \<Rightarrow> 'a list result" where
  [go_defs]: "slice_from k s = (if k \<le> length s then Inr (drop k s) else Inl GoPanic)"

definition slice_to :: "nat \<Rightarrow> 'a list \<Rightarrow> 'a list result" where
  [go_defs]: "slice_to k s = (if k \<le> length s then Inr (take k s) else Inl GoPanic)"

definition index :: "'a list \<Rightarrow> nat \<Rightarrow> 'a result" where
  [go_defs]: "index s k = (if k < length s then Inr (s ! k) else Inl GoPanic)"

lemma slice_from_ok [simp]: "k \<le> length s \<Longrightarrow> slice_from k s = Inr (drop k s)"
  by (simp add: slice_from_def)

lemma slice_to_ok [simp]: "k \<le> length s \<Longrightarrow> slice_to k s = Inr (take k s)"
  by (simp add: slice_to_def)

lemma index_ok [simp]: "k < length s \<Longrightarrow> index s k = Inr (s ! k)"
  by (simp add: index_def)

lemma slice_safe [safe_intros]:
  "k \<le> length s \<Longrightarrow> safe (slice_from k s)" "k \<le> length s \<Longrightarrow> safe (slice_to k s)"
  "k < length s \<Longrightarrow> safe (index s k)"
  by simp_all

lemma slice_from_Inr: "slice_from k s = Inr r \<longleftrightarrow> k \<le> length s \<and> r = drop k s"
  by (auto simp: slice_from_def)

lemma slice_to_Inr: "slice_to k s = Inr r \<longleftrightarrow> k \<le> length s \<and> r = take k s"
  by (auto simp: slice_to_def)

section \<open>bytes.IndexByte\<close>

text \<open>
  \<open>IndexByte s b\<close> is the index of the first \<open>b\<close> in \<open>s\<close>, or \<open>None\<close> where Go returns -1.
\<close>

fun IndexByte :: "bytes \<Rightarrow> byte \<Rightarrow> nat option" where
  "IndexByte [] b = None"
| "IndexByte (x # xs) b = (if x = b then Some 0 else map_option Suc (IndexByte xs b))"

lemma IndexByte_None_iff: "IndexByte s b = None \<longleftrightarrow> b \<notin> set s"
  by (induction s) auto

lemma IndexByte_SomeD:
  "IndexByte s b = Some i \<Longrightarrow> i < length s \<and> s ! i = b \<and> b \<notin> set (take i s)"
  by (induction s arbitrary: i) (auto split: if_splits)

lemma IndexByte_less: "IndexByte s b = Some i \<Longrightarrow> i < length s"
  by (simp add: IndexByte_SomeD)

lemma IndexByte_append [simp]: "b \<notin> set s \<Longrightarrow> IndexByte (s @ b # r) b = Some (length s)"
  by (induction s) auto

lemma IndexByte_absent [simp]: "b \<notin> set s \<Longrightarrow> IndexByte s b = None"
  by (simp add: IndexByte_None_iff)

section \<open>The counted loop\<close>

text \<open>
  \<open>repeatE n step s\<close> is the loop \<open>for range n\<close> whose body reads one item and advances the
  state, stopping at the first error.
\<close>

fun repeatE :: "nat \<Rightarrow> ('s \<Rightarrow> 'e + ('a \<times> 's)) \<Rightarrow> 's \<Rightarrow> 'e + ('a list \<times> 's)" where
  "repeatE 0 step s = Inr ([], s)"
| "repeatE (Suc n) step s =
     bindE (step s) (\<lambda>(x, s'). bindE (repeatE n step s') (\<lambda>(xs, s''). Inr (x # xs, s'')))"

lemma repeatE_length: "repeatE n step s = Inr (xs, s') \<Longrightarrow> length xs = n"
  by (induction n arbitrary: s xs) (auto simp: bindE_Inr_iff split: prod.splits)

text \<open>A loop is safe when an invariant indexed by the iterations left keeps its body safe.\<close>

lemma repeatE_safe:
  assumes inv: "P n s"
    and body: "\<And>m s. P (Suc m) s \<Longrightarrow> safe (step s)"
    and keep: "\<And>m s x s'. P (Suc m) s \<Longrightarrow> step s = Inr (x, s') \<Longrightarrow> P m s'"
  shows "safe (repeatE n step s)"
  using inv
proof (induction n arbitrary: s)
  case 0
  then show ?case by simp
next
  case (Suc n)
  have "safe (repeatE n step s')" if "step s = Inr (x, s')" for x s'
    using Suc.IH keep [OF Suc.prems that] by blast
  then show ?case
    using body [OF Suc.prems] by (auto intro!: safe_bindE split: prod.splits)
qed

section \<open>Self-delimiting items\<close>

text \<open>
  The contract between an item writer \<open>put\<close> and the reader \<open>step\<close> of one loop iteration:
  reading back what was written returns the item and the rest of the input. A sequence of
  items then reads back by the counted loop.
\<close>

locale item_codec =
  fixes put :: "'a \<Rightarrow> bytes"
    and step :: "bytes \<Rightarrow> ('a \<times> bytes) result"
    and wf :: "'a \<Rightarrow> bool"
  assumes step_put: "wf x \<Longrightarrow> step (put x @ r) = Inr (x, r)"
begin

lemma repeat_put:
  "\<forall>x\<in>set xs. wf x \<Longrightarrow> n = length xs \<Longrightarrow>
   repeatE n step (concat (map put xs) @ r) = Inr (xs, r)"
  by (induction xs arbitrary: n) (simp_all add: step_put)

lemma repeat_put_all:
  "\<forall>x\<in>set xs. wf x \<Longrightarrow> n = length xs \<Longrightarrow>
   repeatE n step (concat (map put xs)) = Inr (xs, [])"
  using repeat_put [of xs n "[]"] by simp

lemma put_inj: "wf x \<Longrightarrow> wf y \<Longrightarrow> put x @ r = put y @ r' \<Longrightarrow> x = y \<and> r = r'"
  by (metis step_put Inr_inject prod.inject)

end

section \<open>Lists\<close>

lemma take_append_exact [simp]: "n = length xs \<Longrightarrow> take n (xs @ ys) = xs"
  by simp

lemma drop_append_exact [simp]: "n = length xs \<Longrightarrow> drop n (xs @ ys) = ys"
  by simp

lemma update_fresh: "k \<notin> fst ` set al \<Longrightarrow> AList.update k v al = al @ [(k, v)]"
  by (induction al) auto

lemma length_concat_map_const:
  "(\<And>x. x \<in> set xs \<Longrightarrow> length (f x) = k) \<Longrightarrow> length (concat (map f xs)) = k * length xs"
  by (induction xs) auto

end
