(* ===== verification/Pgio.thy ===== *)
theory Pgio
  imports Pgx_Prelude
begin

text \<open>
  Big-endian integers on the wire: \<open>internal/pgio/write.go\<close> (the Append functions and
  \<open>SetInt32\<close>), the readers \<open>binary.BigEndian.Uint16/32/64\<close> of the standard library that
  the decoders call, and the fixed-width contract between them.
\<close>

unbundle bit_operations_syntax

section \<open>Writers\<close>

definition AppendUint16 :: "bytes \<Rightarrow> u16 \<Rightarrow> bytes" where
  "AppendUint16 buf n = buf @ [ucast (drop_bit 8 n), ucast n]"

definition AppendUint32 :: "bytes \<Rightarrow> u32 \<Rightarrow> bytes" where
  "AppendUint32 buf n =
     buf @ [ucast (drop_bit 24 n), ucast (drop_bit 16 n), ucast (drop_bit 8 n), ucast n]"

definition AppendUint64 :: "bytes \<Rightarrow> u64 \<Rightarrow> bytes" where
  "AppendUint64 buf n =
     buf @ [ucast (drop_bit 56 n), ucast (drop_bit 48 n), ucast (drop_bit 40 n),
            ucast (drop_bit 32 n), ucast (drop_bit 24 n), ucast (drop_bit 16 n),
            ucast (drop_bit 8 n), ucast n]"

definition AppendInt16 :: "bytes \<Rightarrow> u16 \<Rightarrow> bytes" where
  "AppendInt16 buf n = AppendUint16 buf n"

definition AppendInt32 :: "bytes \<Rightarrow> u32 \<Rightarrow> bytes" where
  "AppendInt32 buf n = AppendUint32 buf n"

definition AppendInt64 :: "bytes \<Rightarrow> u64 \<Rightarrow> bytes" where
  "AppendInt64 buf n = AppendUint64 buf n"

text \<open>
  \<open>SetInt32(buf[sp:], n)\<close> overwrites the four bytes at \<open>sp\<close>; the conversion of the slice to
  an array of four bytes panics on a shorter slice. The shifts of the signed \<open>n\<close> are
  arithmetic, of which only the low byte is kept.
\<close>

definition SetInt32 :: "bytes \<Rightarrow> u32 \<Rightarrow> bytes result" where
  "SetInt32 buf n =
     (if length buf < 4 then Inl GoPanic
      else Inr ([ucast (signed_drop_bit 24 n), ucast (signed_drop_bit 16 n),
                 ucast (signed_drop_bit 8 n), ucast n] @ drop 4 buf))"

section \<open>Readers\<close>

fun Uint16 :: "bytes \<Rightarrow> u16 result" where
  "Uint16 (b0 # b1 # _) = Inr (ucast b1 OR push_bit 8 (ucast b0))"
| "Uint16 _ = Inl GoPanic"

fun Uint32 :: "bytes \<Rightarrow> u32 result" where
  "Uint32 (b0 # b1 # b2 # b3 # _) =
     Inr (ucast b3 OR push_bit 8 (ucast b2) OR push_bit 16 (ucast b1) OR push_bit 24 (ucast b0))"
| "Uint32 _ = Inl GoPanic"

fun Uint64 :: "bytes \<Rightarrow> u64 result" where
  "Uint64 (b0 # b1 # b2 # b3 # b4 # b5 # b6 # b7 # _) =
     Inr (ucast b7 OR push_bit 8 (ucast b6) OR push_bit 16 (ucast b5) OR push_bit 24 (ucast b4) OR
          push_bit 32 (ucast b3) OR push_bit 40 (ucast b2) OR push_bit 48 (ucast b1) OR
          push_bit 56 (ucast b0))"
| "Uint64 _ = Inl GoPanic"

text \<open>
  Reading an integer at the read position and stepping over it, the idiom
  \<open>x = binary.BigEndian.UintW(src[rp:]); rp += w/8\<close> of the decoders.
\<close>

definition read_int :: "nat \<Rightarrow> (bytes \<Rightarrow> 'w result) \<Rightarrow> bytes \<Rightarrow> ('w \<times> bytes) result" where
  "read_int w get b = bindE (get b) (\<lambda>x. bindE (slice_from w b) (\<lambda>b'. Inr (x, b')))"

section \<open>The fixed-width contract\<close>

text \<open>The bytes an integer occupies, without the buffer they are appended to.\<close>

abbreviation be16 :: "u16 \<Rightarrow> bytes" where "be16 n \<equiv> AppendUint16 [] n"
abbreviation be32 :: "u32 \<Rightarrow> bytes" where "be32 n \<equiv> AppendUint32 [] n"
abbreviation be64 :: "u64 \<Rightarrow> bytes" where "be64 n \<equiv> AppendUint64 [] n"

lemma AppendUint16_eq: "AppendUint16 buf n = buf @ be16 n"
  by (simp add: AppendUint16_def)

lemma AppendUint32_eq: "AppendUint32 buf n = buf @ be32 n"
  by (simp add: AppendUint32_def)

lemma AppendUint64_eq: "AppendUint64 buf n = buf @ be64 n"
  by (simp add: AppendUint64_def)

text \<open>The same as simp rules that do not apply to their own right-hand sides.\<close>

lemma Append_normal:
  "NO_MATCH [] buf \<Longrightarrow> AppendUint16 buf n = buf @ be16 n"
  "NO_MATCH [] buf \<Longrightarrow> AppendUint32 buf m = buf @ be32 m"
  "NO_MATCH [] buf \<Longrightarrow> AppendUint64 buf k = buf @ be64 k"
  by (simp_all add: AppendUint16_def AppendUint32_def AppendUint64_def)

lemmas Append_eqs = AppendInt16_def AppendInt32_def AppendInt64_def

text \<open>
  A fixed-width integer codec: \<open>put\<close> writes exactly \<open>w\<close> bytes, \<open>get\<close> reads them back from
  the front of any slice, and panics exactly on a slice shorter than \<open>w\<close>.
\<close>

locale fixed_int =
  fixes put :: "'w \<Rightarrow> bytes"
    and get :: "bytes \<Rightarrow> 'w result"
    and w :: nat
  assumes length_put: "length (put x) = w"
    and get_put: "get (put x @ r) = Inr x"
    and put_get: "get b = Inr x \<Longrightarrow> take w b = put x"
    and get_panics: "get b = Inl e \<longleftrightarrow> length b < w \<and> e = GoPanic"
begin

lemma get_ok: "w \<le> length b \<Longrightarrow> \<exists>x. get b = Inr x"
  using get_panics [of b] by (cases "get b") auto

lemma get_safe: "w \<le> length b \<Longrightarrow> safe (get b)"
  using get_ok by fastforce

lemma get_exact: "get (put x) = Inr x"
  using get_put [of x "[]"] by simp

lemma get_InrD: "get b = Inr x \<Longrightarrow> w \<le> length b"
  using get_panics [of b GoPanic] by (cases "length b < w") auto

abbreviation next_item :: "bytes \<Rightarrow> ('w \<times> bytes) result" where
  "next_item \<equiv> read_int w get"

lemma next_item_put: "next_item (put x @ r) = Inr (x, r)"
  by (simp add: read_int_def get_put length_put)

lemma next_item_exact: "next_item (put x) = Inr (x, [])"
  using next_item_put [of x "[]"] by simp

lemma next_item_safe: "w \<le> length b \<Longrightarrow> safe (next_item b)"
  by (auto simp: read_int_def intro!: safe_bindE get_safe)

lemma next_item_InrD: "next_item b = Inr (x, b') \<Longrightarrow> w \<le> length b \<and> b' = drop w b \<and> get b = Inr x"
  by (auto simp: read_int_def bindE_Inr_iff slice_from_Inr dest: get_InrD)

lemma repeat_next_item_safe: "n * w \<le> length b \<Longrightarrow> safe (repeatE n next_item b)"
  by (rule repeatE_safe [where P = "\<lambda>m s. m * w \<le> length s"])
    (auto intro: next_item_safe dest!: next_item_InrD)

end

sublocale fixed_int \<subseteq> item: item_codec put next_item "\<lambda>_. True"
  by unfold_locales (rule next_item_put)

section \<open>Interpretation for the three widths\<close>

lemma byte_bit_high [simp]: "\<not> bit (b :: byte) (numeral k + n)" if "8 \<le> (numeral k :: nat)"
proof
  assume "bit b (numeral k + n)"
  then have "numeral k + n < (8 :: nat)"
    by (auto dest: bit_imp_le_length)
  with that show False
    by linarith
qed

lemma byte_position:
  fixes n :: nat
  obtains q m where "n = 8 * q + m" and "m < 8"
  by (rule that [of "n div 8" "n mod 8"]) simp_all

lemma Uint16_be16: "Uint16 (be16 n @ r) = Inr n"
  by (auto simp: AppendUint16_def intro!: bit_word_eqI simp: bit_simps less_diff_conv2 not_less
    dest: bit_imp_le_length)

lemma Uint32_be32: "Uint32 (be32 n @ r) = Inr n"
proof -
  have "bit (projr (Uint32 (be32 n @ r))) i = bit n i" if i: "i < 32" for i
  proof -
    obtain q m where im: "i = 8 * q + m" "m < 8"
      by (rule byte_position)
    with i have "q = 0 \<or> q = 1 \<or> q = 2 \<or> q = 3"
      by linarith
    with im show ?thesis
      by (elim disjE) (simp_all add: AppendUint32_def bit_simps)
  qed
  then have "projr (Uint32 (be32 n @ r)) = n"
    by (intro bit_word_eqI) simp
  then show ?thesis
    by (simp add: AppendUint32_def)
qed

lemma Uint64_be64: "Uint64 (be64 n @ r) = Inr n"
proof -
  have "bit (projr (Uint64 (be64 n @ r))) i = bit n i" if i: "i < 64" for i
  proof -
    obtain q m where im: "i = 8 * q + m" "m < 8"
      by (rule byte_position)
    with i have "q = 0 \<or> q = 1 \<or> q = 2 \<or> q = 3 \<or> q = 4 \<or> q = 5 \<or> q = 6 \<or> q = 7"
      by linarith
    with im show ?thesis
      by (elim disjE) (simp_all add: AppendUint64_def bit_simps)
  qed
  then have "projr (Uint64 (be64 n @ r)) = n"
    by (intro bit_word_eqI) simp
  then show ?thesis
    by (simp add: AppendUint64_def)
qed

lemma be16_Uint16: "Uint16 b = Inr x \<Longrightarrow> take 2 b = be16 x"
  by (cases b rule: Uint16.cases)
    (auto simp: AppendUint16_def intro!: bit_word_eqI simp: bit_simps)

lemma be32_Uint32: "Uint32 b = Inr x \<Longrightarrow> take 4 b = be32 x"
  by (cases b rule: Uint32.cases)
    (auto simp: AppendUint32_def intro!: bit_word_eqI simp: bit_simps)

lemma be64_Uint64: "Uint64 b = Inr x \<Longrightarrow> take 8 b = be64 x"
  by (cases b rule: Uint64.cases)
    (auto simp: AppendUint64_def intro!: bit_word_eqI simp: bit_simps)

interpretation i16: fixed_int be16 Uint16 2
  by unfold_locales (simp add: AppendUint16_def, rule Uint16_be16, erule be16_Uint16,
    rename_tac b e, case_tac b rule: Uint16.cases, auto)

interpretation i32: fixed_int be32 Uint32 4
  by unfold_locales (simp add: AppendUint32_def, rule Uint32_be32, erule be32_Uint32,
    rename_tac b e, case_tac b rule: Uint32.cases, auto)

interpretation i64: fixed_int be64 Uint64 8
  by unfold_locales (simp add: AppendUint64_def, rule Uint64_be64, erule be64_Uint64,
    rename_tac b e, case_tac b rule: Uint64.cases, auto)

lemmas length_be [simp] = i16.length_put i32.length_put i64.length_put
lemmas get_be [simp] = i16.get_put i32.get_put i64.get_put i16.get_exact i32.get_exact i64.get_exact
lemmas read_be [simp] = i16.next_item_put i32.next_item_put i64.next_item_put
  i16.next_item_exact i32.next_item_exact i64.next_item_exact

text \<open>\<open>SetInt32\<close> writes the same four bytes as \<open>AppendInt32\<close>.\<close>

lemma SetInt32_eq: "4 \<le> length buf \<Longrightarrow> SetInt32 buf n = Inr (be32 n @ drop 4 buf)"
  by (auto simp: SetInt32_def AppendUint32_def intro!: bit_word_eqI simp: bit_simps)

end
