(* ===== verification/Go_Strconv.thy ===== *)
theory Go_Strconv
  imports Pgx_Prelude
begin

text \<open>
  The parts of Go's \<open>strconv\<close> that the sources use: \<open>Itoa\<close>/\<open>FormatInt\<close> in base 10 and
  \<open>ParseUint\<close>/\<open>ParseInt\<close> in base 10 with a bit size, including the values they return
  beside an error (zero on a syntax error, the nearest bound on a range error).
\<close>

section \<open>Formatting\<close>

definition digit :: "nat \<Rightarrow> byte" where
  "digit d = 48 + of_nat d"

fun format_nat :: "nat \<Rightarrow> bytes" where
  "format_nat n = (if n < 10 then [digit n] else format_nat (n div 10) @ [digit (n mod 10)])"

declare format_nat.simps [simp del]

definition Itoa :: "int \<Rightarrow> bytes" where
  "Itoa i = (if i < 0 then chr CHR ''-'' # format_nat (nat (- i)) else format_nat (nat i))"

section \<open>Parsing\<close>

datatype num_err = ErrSyntax | ErrRange

definition is_digit :: "byte \<Rightarrow> bool" where
  "is_digit c \<longleftrightarrow> 48 \<le> c \<and> c \<le> 57"

definition digit_val :: "byte \<Rightarrow> nat" where
  "digit_val c = unat c - 48"

fun parse_digits :: "nat \<Rightarrow> nat \<Rightarrow> bytes \<Rightarrow> nat \<times> num_err option" where
  "parse_digits maxVal n [] = (n, None)"
| "parse_digits maxVal n (c # cs) =
     (if \<not> is_digit c then (0, Some ErrSyntax)
      else let n1 = n * 10 + digit_val c in
        if n1 > maxVal then (maxVal, Some ErrRange) else parse_digits maxVal n1 cs)"

definition ParseUint :: "bytes \<Rightarrow> nat \<Rightarrow> nat \<times> num_err option" where
  "ParseUint s bits =
     (if s = [] then (0, Some ErrSyntax) else parse_digits (2 ^ bits - 1) 0 s)"

definition ParseInt :: "bytes \<Rightarrow> nat \<Rightarrow> int \<times> num_err option" where
  "ParseInt s bits =
     (if s = [] then (0, Some ErrSyntax)
      else
        let neg = (hd s = chr CHR ''-'');
            s' = (if neg \<or> hd s = chr CHR ''+'' then tl s else s);
            (un, err) = ParseUint s' bits;
            cutoff = 2 ^ (bits - 1)
        in if err = Some ErrSyntax then (0, Some ErrSyntax)
           else if \<not> neg \<and> un \<ge> cutoff then (int (cutoff - 1), Some ErrRange)
           else if neg \<and> un > cutoff then (- int cutoff, Some ErrRange)
           else (if neg then - int un else int un, None))"

section \<open>Printing and parsing are inverse\<close>

lemma unat_digit: "d < 10 \<Longrightarrow> unat (digit d) = 48 + d"
  by (simp add: digit_def unat_word_ariths unat_of_nat)

lemma is_digit_iff: "is_digit c \<longleftrightarrow> 48 \<le> unat c \<and> unat c \<le> 57"
  by (simp add: is_digit_def word_le_nat_alt)

lemma is_digit_digit [simp]: "d < 10 \<Longrightarrow> is_digit (digit d)"
  by (simp add: is_digit_iff unat_digit)

lemma digit_val_digit [simp]: "d < 10 \<Longrightarrow> digit_val (digit d) = d"
  by (simp add: digit_val_def unat_digit)

lemma format_nat_digits: "c \<in> set (format_nat n) \<Longrightarrow> is_digit c"
  by (induction n rule: format_nat.induct) (subst (asm) format_nat.simps, auto split: if_splits)

lemma format_nat_not_Nil [simp]: "format_nat n \<noteq> []"
  by (subst format_nat.simps) simp

lemma parse_digits_append:
  "parse_digits m a xs = (n, None) \<Longrightarrow> parse_digits m a (xs @ ys) = parse_digits m n ys"
  by (induction m a xs rule: parse_digits.induct) (auto simp: Let_def split: if_splits)

lemma parse_format_nat: "n \<le> m \<Longrightarrow> parse_digits m 0 (format_nat n) = (n, None)"
proof (induction n rule: format_nat.induct)
  case (1 n)
  show ?case
  proof (cases "n < 10")
    case True
    with "1.prems" show ?thesis
      by (simp add: format_nat.simps [of n])
  next
    case False
    with "1" have "parse_digits m 0 (format_nat (n div 10)) = (n div 10, None)"
      by simp
    from parse_digits_append [OF this, of "[digit (n mod 10)]"] False "1.prems"
    show ?thesis
      by (simp add: format_nat.simps [of n])
  qed
qed

lemma ParseUint_format_nat: "n < 2 ^ bits \<Longrightarrow> ParseUint (format_nat n) bits = (n, None)"
  by (simp add: ParseUint_def parse_format_nat Suc_leI)

lemma hd_format_nat: "is_digit (hd (format_nat n))"
  using format_nat_digits hd_in_set [OF format_nat_not_Nil] by blast

lemma hd_format_nat_not_sign: "hd (format_nat n) \<noteq> 45" "hd (format_nat n) \<noteq> 43"
  using hd_format_nat [of n] by (auto simp: is_digit_iff)

text \<open>Every integer of the given width reads back as itself.\<close>

lemma ParseInt_Itoa:
  assumes "0 < bits" and "- (2 ^ (bits - 1)) \<le> i" and "i < 2 ^ (bits - 1)"
  shows "ParseInt (Itoa i) bits = (i, None)"
proof -
  have two: "(2::int) ^ bits = 2 * 2 ^ (bits - 1)" "(2::nat) ^ bits = 2 * 2 ^ (bits - 1)"
    using assms(1) by (simp_all flip: power_Suc)
  have cut: "int (2 ^ (bits - 1)) = 2 ^ (bits - 1)"
    by simp
  show ?thesis
  proof (cases "i < 0")
    case True
    then have "nat (- i) \<le> 2 ^ (bits - 1)"
      using assms(2) cut by linarith
    moreover from this have "nat (- i) < 2 ^ bits"
      using two(2) zero_less_power [of "2::nat" "bits - 1"] by linarith
    ultimately show ?thesis
      using True by (simp add: ParseInt_def Itoa_def ParseUint_format_nat Let_def)
  next
    case False
    then have "nat i < 2 ^ (bits - 1)"
      using assms(3) cut by linarith
    moreover from this have "nat i < 2 ^ bits"
      using two(2) by linarith
    ultimately show ?thesis
      using False
      by (simp add: ParseInt_def Itoa_def ParseUint_format_nat Let_def hd_format_nat_not_sign)
  qed
qed

lemma parse_digits_no_error_range: "parse_digits m a s = (n, None) \<Longrightarrow> a \<le> m \<Longrightarrow> n \<le> m"
  by (induction m a s rule: parse_digits.induct) (auto simp: Let_def split: if_splits)

lemma parse_digits_le: "a \<le> m \<Longrightarrow> fst (parse_digits m a s) \<le> m"
  by (induction m a s rule: parse_digits.induct) (auto simp: Let_def)

lemma format_nat_inj: "format_nat m = format_nat n \<Longrightarrow> m = n"
  by (metis parse_format_nat max.cobounded1 max.cobounded2 prod.inject)

lemma Itoa_not_Nil [simp]: "Itoa i \<noteq> []"
  by (simp add: Itoa_def)

lemma format_nat_not_neg [simp]: "format_nat n \<noteq> 45 # xs" "45 # xs \<noteq> format_nat n"
  using hd_format_nat_not_sign(1) [of n] by (metis list.sel(1))+

lemma Itoa_inj: "Itoa i = Itoa j \<Longrightarrow> i = j"
  by (auto simp: Itoa_def split: if_splits dest!: format_nat_inj)

text \<open>The bytes of a decimal number are digits or the sign, never a NUL or a quote.\<close>

lemma Itoa_bytes: "c \<in> set (Itoa i) \<Longrightarrow> is_digit c \<or> c = chr CHR ''-''"
  by (auto simp: Itoa_def dest: format_nat_digits split: if_splits)

lemma Itoa_no_NUL: "0 \<notin> set (Itoa i)"
  using Itoa_bytes [of 0 i] by (auto simp: is_digit_iff)

end
