(* ===== verification/Proto_Frame.thy ===== *)
theory Proto_Frame
  imports Pgio Go_Strconv
begin

text \<open>
  Message framing of \<open>pgproto3/pgproto3.go\<close> (\<open>beginMessage\<close>, \<open>finishMessage\<close>), the field
  readers the \<open>Decode\<close> methods are built from, and the contract every message satisfies:
  \<open>Encode\<close> appends one frame, \<open>Decode\<close> inverts its body, and \<open>Decode\<close> never panics.
\<close>

section \<open>Frames\<close>

definition maxMessageBodyLen :: nat where
  "maxMessageBodyLen = 0x3fffffff - 1"

definition beginMessage :: "bytes \<Rightarrow> byte \<Rightarrow> bytes \<times> nat" where
  "beginMessage dst t =
     (let dst = dst @ [t];
          sp = length dst;
          dst = AppendInt32 dst (-1)
      in (dst, sp))"

definition finishMessage :: "bytes \<Rightarrow> nat \<Rightarrow> bytes result" where
  "finishMessage dst sp =
     bindE (slice_from sp dst) (\<lambda>rest.
       let messageBodyLen = length rest in
       if messageBodyLen > maxMessageBodyLen then Inl (ErrorsNew ''message body too large'')
       else bindE (SetInt32 rest (of_nat messageBodyLen)) (\<lambda>rest'. Inr (take sp dst @ rest')))"

text \<open>The frame of a body, as one equation; \<open>hdr\<close> is the type byte, or nothing at start-up.\<close>

definition frame :: "bytes \<Rightarrow> bytes \<Rightarrow> bytes \<Rightarrow> bytes result" where
  "frame dst hdr body =
     (if length body + 4 > maxMessageBodyLen then Inl (ErrorsNew ''message body too large'')
      else Inr (dst @ hdr @ be32 (of_nat (length body + 4)) @ body))"

lemma finishMessage_frame:
  "finishMessage (dst @ hdr @ be32 x @ body) (length dst + length hdr) = frame dst hdr body"
  by (simp add: finishMessage_def frame_def SetInt32_eq Let_def add.commute)

lemma finishMessage_frame1:
  "finishMessage (dst @ t # be32 x @ body) (Suc (length dst)) = frame dst [t] body"
  using finishMessage_frame [of dst "[t]" x body] by simp

lemma beginMessage_eq: "beginMessage dst t = (dst @ [t] @ be32 (-1), length dst + 1)"
  by (simp add: beginMessage_def Append_eqs Append_normal Let_def)

text \<open>
  What an \<open>Encode\<close> method has appended is normalised to one list, to which
  \<open>finishMessage_frame1\<close> applies.
\<close>

lemma foldl_append: "(\<And>d x. f d x = d @ g x) \<Longrightarrow> foldl f dst xs = dst @ concat (map g xs)"
  by (induction xs arbitrary: dst) simp_all

lemma foldl_AppendUint16: "foldl AppendUint16 dst xs = dst @ concat (map be16 xs)"
  by (rule foldl_append) (rule AppendUint16_eq)

lemma foldl_AppendUint32: "foldl AppendUint32 dst xs = dst @ concat (map be32 xs)"
  by (rule foldl_append) (rule AppendUint32_eq)

lemma AppendInt16_fun: "AppendInt16 = AppendUint16"
  by (intro ext) (rule AppendInt16_def)

lemma AppendInt32_fun: "AppendInt32 = AppendUint32"
  by (intro ext) (rule AppendInt32_def)

lemmas encode_eqs = foldl_AppendUint16 foldl_AppendUint32 AppendInt16_fun AppendInt32_fun
  beginMessage_eq Append_normal finishMessage_frame1 Let_def

section \<open>Field readers\<close>

text \<open>
  \<open>bytes.Buffer\<close>: the unread portion is a list. \<open>Next n\<close> returns at most \<open>n\<close> bytes;
  \<open>ReadBytes 0\<close> reads through the delimiter or fails with \<open>io.EOF\<close>.
\<close>

definition Buffer_Next :: "nat \<Rightarrow> bytes \<Rightarrow> bytes \<times> bytes" where
  "Buffer_Next n buf = (take n buf, drop n buf)"

definition Buffer_ReadBytes :: "byte \<Rightarrow> bytes \<Rightarrow> (bytes \<times> bytes) result" where
  "Buffer_ReadBytes d buf =
     (case IndexByte buf d of
        None \<Rightarrow> Inl EOF
      | Some i \<Rightarrow> Inr (take (i + 1) buf, drop (i + 1) buf))"

text \<open>\<open>binary.BigEndian.UintW(buf.Next(w))\<close>: an integer read through the buffer.\<close>

definition buf_int :: "nat \<Rightarrow> (bytes \<Rightarrow> 'w result) \<Rightarrow> bytes \<Rightarrow> ('w \<times> bytes) result" where
  "buf_int w get buf = (let (b, buf) = Buffer_Next w buf in bindE (get b) (\<lambda>x. Inr (x, buf)))"

text \<open>\<open>b, err := buf.ReadBytes(0); if err != nil return err; s = string(b[:len(b)-1])\<close>\<close>

definition read_string :: "bytes \<Rightarrow> (bytes \<times> bytes) result" where
  "read_string buf =
     bindE (Buffer_ReadBytes 0 buf) (\<lambda>(b, buf).
       bindE (slice_to (length b - 1) b) (\<lambda>s. Inr (s, buf)))"

text \<open>
  \<open>idx := bytes.IndexByte(src[rp:], 0); if idx < 0 return err;
  s = src[rp : rp+idx]; rp += idx + 1\<close>
\<close>

definition cut_string :: "goerr \<Rightarrow> bytes \<Rightarrow> (bytes \<times> bytes) result" where
  "cut_string err src =
     (case IndexByte src 0 of
        None \<Rightarrow> Inl err
      | Some idx \<Rightarrow>
          bindE (slice_to idx src) (\<lambda>s.
            bindE (slice_from (idx + 1) src) (\<lambda>src'. Inr (s, src'))))"

text \<open>
  A nullable value with a 32-bit length: -1 is NULL, any other negative length or a length
  beyond the remaining input is rejected. The loops of \<open>DataRow\<close>, \<open>Bind\<close> and
  \<open>FunctionCall\<close> read their values this way.
\<close>

definition read_value :: "goerr \<Rightarrow> bytes \<Rightarrow> (bytes option \<times> bytes) result" where
  "read_value err src =
     (if length src < 4 then Inl err
      else bindE (read_int 4 Uint32 src) (\<lambda>(n, src).
        let valueLen = sint n in
        if valueLen = -1 then Inr (None, src)
        else if int (length src) < valueLen \<or> valueLen < 0 then Inl err
        else bindE (slice_to (nat valueLen) src) (\<lambda>v.
          bindE (slice_from (nat valueLen) src) (\<lambda>src'. Inr (Some v, src')))))"

definition put_value :: "bytes option \<Rightarrow> bytes" where
  "put_value v = (case v of None \<Rightarrow> be32 (-1) | Some p \<Rightarrow> be32 (of_nat (length p)) @ p)"

text \<open>The matching writer, one iteration of the loops in the \<open>Encode\<close> methods.\<close>

definition AppendValue :: "bytes \<Rightarrow> bytes option \<Rightarrow> bytes" where
  "AppendValue dst v =
     (case v of
        None \<Rightarrow> AppendInt32 dst (-1)
      | Some p \<Rightarrow> AppendInt32 dst (of_nat (length p)) @ p)"

lemma AppendValue_eq: "AppendValue dst v = dst @ put_value v"
  by (auto simp: AppendValue_def put_value_def Append_eqs AppendUint32_eq [of dst]
      split: option.splits)

lemma foldl_AppendValue: "foldl AppendValue dst vs = dst @ concat (map put_value vs)"
  by (rule foldl_append) (rule AppendValue_eq)

definition put_string :: "bytes \<Rightarrow> bytes" where
  "put_string s = s @ [0]"

text \<open>Well-formed fields: strings without a NUL, values whose length fits in an \<open>int32\<close>.\<close>

definition no_nul :: "bytes \<Rightarrow> bool" where
  "no_nul s \<longleftrightarrow> 0 \<notin> set s"

definition wf_value :: "bytes option \<Rightarrow> bool" where
  "wf_value v \<longleftrightarrow> (case v of None \<Rightarrow> True | Some p \<Rightarrow> length p < 2 ^ 31)"

lemma length_put_string [simp]: "length (put_string s) = Suc (length s)"
  by (simp add: put_string_def)

lemma IndexByte_nul [simp]: "no_nul s \<Longrightarrow> IndexByte (s @ 0 # r) 0 = Some (length s)"
  by (simp add: no_nul_def)

lemma read_string_put [simp]: "no_nul s \<Longrightarrow> read_string (s @ 0 # r) = Inr (s, r)"
  by (simp add: read_string_def Buffer_ReadBytes_def)

lemma cut_string_put [simp]: "no_nul s \<Longrightarrow> cut_string err (s @ 0 # r) = Inr (s, r)"
  by (simp add: cut_string_def)

lemma buf_int_put [simp]:
  "buf_int 2 Uint16 (be16 x @ r) = Inr (x, r)" "buf_int 4 Uint32 (be32 y @ r) = Inr (y, r)"
  by (simp_all add: buf_int_def Buffer_Next_def)

lemma buf_int_safe [safe_intros]:
  "2 \<le> length b \<Longrightarrow> safe (buf_int 2 Uint16 b)" "4 \<le> length b \<Longrightarrow> safe (buf_int 4 Uint32 b)"
  by (auto simp: buf_int_def Buffer_Next_def intro!: safe_bindE i16.get_safe i32.get_safe)

lemma buf_int_InrD: "buf_int w get b = Inr (x, b') \<Longrightarrow> b' = drop w b"
  by (auto simp: buf_int_def Buffer_Next_def bindE_Inr_iff)

lemma repeat_buf_int_safe [safe_intros]:
  "n * 2 \<le> length b \<Longrightarrow> safe (repeatE n (buf_int 2 Uint16) b)"
  "n * 4 \<le> length b \<Longrightarrow> safe (repeatE n (buf_int 4 Uint32) b)"
  by (rule repeatE_safe [where P = "\<lambda>m s. m * 2 \<le> length s"], auto intro: buf_int_safe dest!: buf_int_InrD)
    (rule repeatE_safe [where P = "\<lambda>m s. m * 4 \<le> length s"], auto intro: buf_int_safe dest!: buf_int_InrD)

interpretation b16: item_codec be16 "buf_int 2 Uint16" "\<lambda>_. True"
  by unfold_locales simp

interpretation b32: item_codec be32 "buf_int 4 Uint32" "\<lambda>_. True"
  by unfold_locales simp

lemma read_string_safe [safe_intros]: "safe (read_string src)"
  by (auto simp: read_string_def Buffer_ReadBytes_def intro!: safe_bindE split: option.splits)

lemma cut_string_safe [safe_intros]: "err \<noteq> GoPanic \<Longrightarrow> safe (cut_string err src)"
  by (auto simp: cut_string_def Suc_le_eq intro!: safe_bindE split: option.splits
      dest: IndexByte_less)

lemma sint_of_nat_len: "n < 2 ^ 31 \<Longrightarrow> sint (of_nat n :: u32) = int n"
  by (simp add: signed_of_nat signed_take_bit_int_eq_self)

lemma sint_minus_one_32 [simp]: "sint (-1 :: u32) = -1"
  by simp

lemma read_value_put: "wf_value v \<Longrightarrow> read_value err (put_value v @ r) = Inr (v, r)"
  by (cases v) (simp_all add: read_value_def put_value_def wf_value_def sint_of_nat_len)

lemma read_value_safe [safe_intros]: "err \<noteq> GoPanic \<Longrightarrow> safe (read_value err src)"
  by (auto simp: read_value_def Let_def intro!: safe_bindE i32.next_item_safe)

text \<open>A null-terminated string and a nullable value are self-delimiting items.\<close>

interpretation strs: item_codec put_string "cut_string err" no_nul for err
  by unfold_locales (simp add: put_string_def)

interpretation vals: item_codec put_value "read_value err" wf_value for err
  by unfold_locales (rule read_value_put)

section \<open>The message contract\<close>

text \<open>
  \<open>Encode m dst\<close> appends the frame of \<open>body m\<close> with header \<open>hdr\<close>, \<open>Decode\<close> reads a body
  back, and \<open>Decode\<close> is safe on every input, also one no peer should send.
\<close>

locale message_codec =
  fixes Encode :: "'m \<Rightarrow> bytes \<Rightarrow> bytes result"
    and Decode :: "bytes \<Rightarrow> 'm result"
    and hdr :: bytes
    and body :: "'m \<Rightarrow> bytes"
    and wf :: "'m \<Rightarrow> bool"
  assumes encode: "wf m \<Longrightarrow> Encode m dst = frame dst hdr (body m)"
    and decode: "wf m \<Longrightarrow> Decode (body m) = Inr m"
    and decode_safe: "safe (Decode src)"
begin

lemma encode_appends: "wf m \<Longrightarrow> Encode m dst = Inr out \<Longrightarrow> \<exists>s. out = dst @ s \<and> Encode m [] = Inr s"
  by (auto simp: encode frame_def split: if_splits)

lemma encode_decode:
  "wf m \<Longrightarrow> Encode m [] = Inr out \<Longrightarrow> Decode (drop (length hdr + 4) out) = Inr m"
  by (auto simp: encode frame_def decode split: if_splits)

lemma encode_length:
  "wf m \<Longrightarrow> Encode m [] = Inr out \<Longrightarrow>
   Uint32 (drop (length hdr) out) = Inr (of_nat (length out - length hdr))"
  by (auto simp: encode frame_def split: if_splits)

lemma encode_framed:
  "wf m \<Longrightarrow> Encode m dst = Inr out \<Longrightarrow>
     out = dst @ hdr @ be32 (of_nat (length (body m) + 4)) @ body m \<and>
     length (body m) + 4 \<le> maxMessageBodyLen"
  by (auto simp: encode frame_def split: if_splits)

lemma body_inj: "wf m \<Longrightarrow> wf m' \<Longrightarrow> body m = body m' \<Longrightarrow> m = m'"
  by (metis decode Inr_inject)

end

end
