(* ===== verification/Iobufpool.thy ===== *)
theory Iobufpool
  imports Pgx_Prelude
begin

text \<open>
  The segregated buffer pool of \<open>internal/iobufpool/iobufpool.go\<close>: 18 pools, pool \<open>i\<close> for
  buffers of capacity \<open>2 ^ (8 + i)\<close>. A buffer is an array (its length is the capacity)
  and the length of the slice over it; a buffer that comes out of a pool keeps whatever
  bytes its last user left in it.
\<close>

unbundle bit_operations_syntax

section \<open>The buffers and the pools\<close>

record gobuf =
  buf_arr :: bytes
  buf_len :: nat

type_synonym pools = "bytes list list"

definition minPoolExpOf2 :: nat where
  "minPoolExpOf2 = 8"

definition init_pools :: pools where
  "init_pools = replicate 18 []"

text \<open>\<open>bits.Len\<close> and \<open>bits.TrailingZeros\<close> of \<open>math/bits\<close> on a 64-bit \<open>uint\<close>.\<close>

fun bits_Len :: "nat \<Rightarrow> nat" where
  "bits_Len n = (if n = 0 then 0 else Suc (bits_Len (n div 2)))"

declare bits_Len.simps [simp del]

fun trailing_zeros :: "nat \<Rightarrow> nat" where
  "trailing_zeros n = (if n = 0 then 64 else if odd n then 0 else Suc (trailing_zeros (n div 2)))"

declare trailing_zeros.simps [simp del]

definition getPoolIdx :: "nat \<Rightarrow> nat" where
  "getPoolIdx sz =
     (if sz < 2 then 0
      else
        let idx = int (bits_Len (sz - 1)) - int minPoolExpOf2 in
        if idx < 0 then 0 else nat idx)"

definition putPoolIdx :: "nat \<Rightarrow> int" where
  "putPoolIdx sz =
     (if int sz AND (int sz - 1) \<noteq> 0 then -1
      else
        let exp = trailing_zeros sz;
            idx = int exp - int minPoolExpOf2
        in if idx < 0 \<or> idx \<ge> 18 then -1 else idx)"

text \<open>
  \<open>Get\<close> takes a buffer of the right pool, or makes one when the pool is empty (\<open>New\<close>) or the
  sz is beyond the largest pool; reslicing beyond the capacity would panic. A \<open>sync.Pool\<close>
  may lose buffers at any time, which is a pool with fewer entries.
\<close>

definition iobufpool_Get :: "nat \<Rightarrow> pools \<Rightarrow> gobuf result \<times> pools" where
  "iobufpool_Get sz ps =
     (let i = getPoolIdx sz in
      if i \<ge> length ps then (Inr \<lparr>buf_arr = replicate sz 0, buf_len = sz\<rparr>, ps)
      else
        let (arr, ps') =
              (case ps ! i of
                 [] \<Rightarrow> (replicate (2 ^ (minPoolExpOf2 + i)) 0, ps)
               | b # bs \<Rightarrow> (b, ps[i := bs]))
        in if sz \<le> length arr then (Inr \<lparr>buf_arr = arr, buf_len = sz\<rparr>, ps')
           else (Inl GoPanic, ps'))"

definition iobufpool_Put :: "gobuf \<Rightarrow> pools \<Rightarrow> pools" where
  "iobufpool_Put b ps =
     (let i = putPoolIdx (length (buf_arr b)) in
      if i < 0 then ps else ps[nat i := buf_arr b # ps ! nat i])"

section \<open>Index arithmetic\<close>

lemma bits_Len_bound: "n < 2 ^ bits_Len n"
proof (induction n rule: bits_Len.induct)
  case (1 n)
  show ?case
  proof (cases "n = 0")
    case False
    with "1" have "n div 2 < 2 ^ bits_Len (n div 2)" by simp
    then have "n < 2 * 2 ^ bits_Len (n div 2)" by linarith
    with False show ?thesis by (simp add: bits_Len.simps [of n])
  qed (simp add: bits_Len.simps [of 0])
qed

lemma bits_Len_tight: "0 < n \<Longrightarrow> 2 ^ (bits_Len n - 1) \<le> n"
proof (induction n rule: bits_Len.induct)
  case (1 n)
  show ?case
  proof (cases "n div 2 = 0")
    case True
    with "1.prems" show ?thesis
      by (simp add: bits_Len.simps [of n] bits_Len.simps [of 0])
  next
    case False
    with "1" have "2 ^ (bits_Len (n div 2) - 1) \<le> n div 2" by simp
    moreover have "0 < bits_Len (n div 2)"
      using False by (simp add: bits_Len.simps [of "n div 2"])
    then have "(2::nat) * 2 ^ (bits_Len (n div 2) - 1) = 2 ^ bits_Len (n div 2)"
      by (simp flip: power_Suc)
    ultimately show ?thesis
      using "1.prems" by (simp add: bits_Len.simps [of n])
  qed
qed

lemma getPoolIdx_fits: "sz \<le> 2 ^ (minPoolExpOf2 + getPoolIdx sz)"
proof (cases "sz < 2")
  case True
  then show ?thesis
    by (simp add: getPoolIdx_def minPoolExpOf2_def)
next
  case False
  have "sz - 1 < 2 ^ bits_Len (sz - 1)"
    by (rule bits_Len_bound)
  moreover have "(2::nat) ^ bits_Len (sz - 1) \<le> 2 ^ (minPoolExpOf2 + getPoolIdx sz)"
    using False by (intro power_increasing) (auto simp: getPoolIdx_def Let_def)
  ultimately show ?thesis by linarith
qed

text \<open>Above half of the smallest pool, a pooled buffer wastes less than half of its capacity.\<close>

lemma getPoolIdx_tight:
  assumes "128 < sz"
  shows "2 ^ (minPoolExpOf2 + getPoolIdx sz) < 2 * sz"
proof -
  let ?L = "bits_Len (sz - 1)"
  have tight: "2 ^ (?L - 1) \<le> sz - 1"
    using assms by (intro bits_Len_tight) simp
  have "(128::nat) < 2 ^ ?L"
    using assms bits_Len_bound [of "sz - 1"] by linarith
  then have "(2::nat) ^ 7 < 2 ^ ?L" by simp
  then have "7 < ?L"
    by (rule power_less_imp_less_exp [rotated]) simp
  then have "minPoolExpOf2 + getPoolIdx sz = Suc (?L - 1)"
    using assms by (simp add: getPoolIdx_def minPoolExpOf2_def Let_def)
  with tight assms show ?thesis by simp
qed

lemma power_of_two_if_and_pred:
  "n AND (n - 1) = 0 \<Longrightarrow> 0 < n \<Longrightarrow> \<exists>k. n = 2 ^ k" for n :: nat
proof (induction n rule: less_induct)
  case (less n)
  show ?case
  proof (cases "even n")
    case True
    then obtain m where m: "n = 2 * m" by (elim evenE)
    with less.prems have "0 < m" by simp
    then have pred: "(n - 1) div 2 = m - 1" and "odd (n - 1)"
      using m by presburger+
    then have "n AND (n - 1) = 2 * (m AND (m - 1))"
      using m by (subst and_nat_rec) simp
    with less.prems have "m AND (m - 1) = 0" by simp
    with less.IH [of m] \<open>0 < m\<close> m obtain k where "m = 2 ^ k" by auto
    with m have "n = 2 ^ Suc k" by simp
    then show ?thesis by blast
  next
    case False
    then obtain m where m: "n = 2 * m + 1" by (elim oddE)
    then have "n AND (n - 1) = 2 * (m AND m)"
      by (subst and_nat_rec) simp
    with less.prems m have "n = 2 ^ 0" by simp
    then show ?thesis by blast
  qed
qed

lemma trailing_zeros_power: "trailing_zeros (2 ^ k) = k"
proof (induction k)
  case 0
  show ?case by (simp add: trailing_zeros.simps [of "Suc 0"])
next
  case (Suc k)
  then show ?case by (simp add: trailing_zeros.simps [of "2 * 2 ^ k"])
qed

text \<open>Only a capacity that is exactly that of a pool is taken back.\<close>

lemma putPoolIdx_exact:
  assumes "putPoolIdx sz = i" and "0 \<le> i"
  shows "sz = 2 ^ (minPoolExpOf2 + nat i) \<and> i < 18"
proof -
  from assms have a: "int sz AND (int sz - 1) = 0"
    and idx: "i = int (trailing_zeros sz) - int minPoolExpOf2" "i < 18"
    by (auto simp: putPoolIdx_def Let_def split: if_splits)
  have "sz \<noteq> 0"
    using idx trailing_zeros.simps [of 0] by (intro notI) (simp add: minPoolExpOf2_def)
  then have "int sz - 1 = int (sz - 1)" by simp
  with a have "int (sz AND (sz - 1)) = 0"
    by (metis of_nat_and_eq)
  then have "sz AND (sz - 1) = 0"
    by (simp only: of_nat_eq_0_iff)
  with \<open>sz \<noteq> 0\<close> obtain k where k: "sz = 2 ^ k"
    using power_of_two_if_and_pred [of sz] by blast
  with idx assms(2) have "minPoolExpOf2 + nat i = k"
    by (simp add: trailing_zeros_power)
  with k idx show ?thesis by simp
qed

section \<open>The pool invariant\<close>

definition wf_pools :: "pools \<Rightarrow> bool" where
  "wf_pools ps \<longleftrightarrow>
     length ps = 18 \<and> (\<forall>i<18. \<forall>arr\<in>set (ps ! i). length arr = 2 ^ (minPoolExpOf2 + i))"

lemma wf_init_pools: "wf_pools init_pools"
  by (simp add: wf_pools_def init_pools_def)

lemma wf_pools_update:
  assumes "wf_pools ps" and "set bs \<subseteq> set (ps ! i)"
  shows "wf_pools (ps[i := bs])"
proof -
  have "set (ps[i := bs] ! j) \<subseteq> set (ps ! j)" if "j < length ps" for j
    using assms(2) that by (cases "i = j") simp_all
  with assms(1) show ?thesis
    unfolding wf_pools_def by fastforce
qed

lemma wf_Put:
  assumes "wf_pools ps"
  shows "wf_pools (iobufpool_Put b ps)"
proof (cases "putPoolIdx (length (buf_arr b)) < 0")
  case True
  with assms show ?thesis by (simp add: iobufpool_Put_def)
next
  case False
  define i where "i = nat (putPoolIdx (length (buf_arr b)))"
  have "length (buf_arr b) = 2 ^ (minPoolExpOf2 + i)" and "i < 18"
    using putPoolIdx_exact [of "length (buf_arr b)", OF refl] False unfolding i_def by linarith+
  then have "wf_pools (ps[i := buf_arr b # ps ! i])"
    using assms unfolding wf_pools_def by (auto simp: nth_list_update split: if_splits)
  with False show ?thesis
    by (simp add: iobufpool_Put_def Let_def i_def)
qed

text \<open>
  \<open>Get\<close> never panics on well-formed pools; it returns a slice of the length asked for within
  its capacity and keeps the invariant.
\<close>

lemma Get_spec:
  assumes "wf_pools ps"
  obtains b ps' where "iobufpool_Get sz ps = (Inr b, ps')" and "wf_pools ps'"
    and "buf_len b = sz" and "sz \<le> length (buf_arr b)"
    and "getPoolIdx sz < 18 \<Longrightarrow> length (buf_arr b) = 2 ^ (minPoolExpOf2 + getPoolIdx sz)"
    and "18 \<le> getPoolIdx sz \<Longrightarrow> length (buf_arr b) = sz"
proof (cases "18 \<le> getPoolIdx sz")
  case True
  with assms show ?thesis
    by (intro that [of "\<lparr>buf_arr = replicate sz 0, buf_len = sz\<rparr>" ps])
      (auto simp: iobufpool_Get_def wf_pools_def)
next
  case False
  let ?i = "getPoolIdx sz"
  show ?thesis
  proof (cases "ps ! ?i")
    case Nil
    with False assms getPoolIdx_fits [of sz] show ?thesis
      by (intro that [of "\<lparr>buf_arr = replicate (2 ^ (minPoolExpOf2 + ?i)) 0, buf_len = sz\<rparr>" ps])
        (auto simp: iobufpool_Get_def wf_pools_def)
  next
    case (Cons b bs)
    then have len: "length b = 2 ^ (minPoolExpOf2 + ?i)"
      using assms False unfolding wf_pools_def by (metis list.set_intros(1) not_less)
    have "wf_pools (ps[?i := bs])"
      using assms by (rule wf_pools_update) (auto simp: Cons)
    moreover have fits: "sz \<le> length b"
      unfolding len by (rule getPoolIdx_fits)
    moreover have "length ps = 18"
      using assms by (simp add: wf_pools_def)
    then have "iobufpool_Get sz ps = (Inr \<lparr>buf_arr = b, buf_len = sz\<rparr>, ps[?i := bs])"
      using Cons False fits by (simp add: iobufpool_Get_def)
    ultimately show ?thesis
      using False len by (intro that) auto
  qed
qed

end
