(* ===== verification/Chunk_Reader.thy ===== *)
theory Chunk_Reader
  imports Iobufpool
begin

text \<open>
  The buffered reader of \<open>pgproto3/chunkreader.go\<close> over an arbitrary \<open>io.Reader\<close>. The reader
  underneath is the sequence of what its successive \<open>Read\<close> calls deliver: chunks of bytes of any
  size, each with the error it comes with, if any; \<open>EOF\<close> after the last. The interface
  \<open>byte_source\<close> states what the message readers rely on: a read takes exactly the bytes asked
  for from the front of the stream, and a failed read loses none of them.
\<close>

section \<open>The \<open>io.Reader\<close> underneath\<close>

type_synonym reader = "(bytes \<times> goerr option) list"

definition reader_bytes :: "reader \<Rightarrow> bytes" where
  "reader_bytes rd = concat (map fst rd)"

text \<open>\<open>Read(p)\<close> with \<open>len(p) = k\<close>: the bytes read, the error and the reader left.\<close>

fun reader_Read :: "nat \<Rightarrow> reader \<Rightarrow> bytes \<times> goerr option \<times> reader" where
  "reader_Read k [] = ([], Some EOF, [])"
| "reader_Read k ((d, e) # rd) =
     (if length d \<le> k then (d, e, rd) else (take k d, None, (drop k d, e) # rd))"

definition reader_size :: "reader \<Rightarrow> nat" where
  "reader_size rd = sum_list (map (\<lambda>(d, e). Suc (length d)) rd)"

lemma reader_Read_bytes:
  "reader_Read k rd = (d, e, rd') \<Longrightarrow> reader_bytes rd = d @ reader_bytes rd' \<and> length d \<le> k"
  by (cases "(k, rd)" rule: reader_Read.cases) (auto simp: reader_bytes_def split: if_splits)

lemma reader_Read_size:
  "reader_Read k rd = (d, None, rd') \<Longrightarrow> 0 < k \<Longrightarrow> reader_size rd' < reader_size rd"
  by (cases "(k, rd)" rule: reader_Read.cases) (auto simp: reader_size_def split: if_splits)

text \<open>
  \<open>io.ReadAtLeast\<close> with \<open>len(buf) = k\<close>: it reads until \<open>min\<close> bytes are there or an error comes;
  the error is dropped when enough was read, and \<open>EOF\<close> after some bytes is \<open>ErrUnexpectedEOF\<close>.
\<close>

function ReadAtLeast_loop ::
  "nat \<Rightarrow> nat \<Rightarrow> bytes \<Rightarrow> reader \<Rightarrow> bytes \<times> goerr option \<times> reader" where
  "ReadAtLeast_loop k m got rd =
     (if length got < m \<and> length got < k then
        (case reader_Read (k - length got) rd of
           (d, None, rd') \<Rightarrow> ReadAtLeast_loop k m (got @ d) rd'
         | (d, Some e, rd') \<Rightarrow> (got @ d, Some e, rd'))
      else (got, None, rd))"
  by auto
termination
  by (relation "measure (\<lambda>(k, m, got, rd). reader_size rd)")
    (auto dest!: reader_Read_size [OF sym])

declare ReadAtLeast_loop.simps [simp del]

definition ReadAtLeast :: "nat \<Rightarrow> nat \<Rightarrow> reader \<Rightarrow> bytes \<times> goerr option \<times> reader" where
  "ReadAtLeast k m rd =
     (if k < m then ([], Some (ErrorsNew ''short buffer''), rd)
      else
        let (got, err, rd') = ReadAtLeast_loop k m [] rd in
        if length got \<ge> m then (got, None, rd')
        else if length got > 0 \<and> err = Some EOF then (got, Some ErrUnexpectedEOF, rd')
        else (got, err, rd'))"

text \<open>A reader that delivers its bytes without an error in between, and never a panic.\<close>

definition reliable_reader :: "reader \<Rightarrow> bool" where
  "reliable_reader rd \<longleftrightarrow> (\<forall>(d, e) \<in> set rd. e = None)"

definition proper_reader :: "reader \<Rightarrow> bool" where
  "proper_reader rd \<longleftrightarrow> (\<forall>(d, e) \<in> set rd. e \<noteq> Some GoPanic)"

text \<open>The reads still to come that end in an error: a reader is reliable when there are none.\<close>

definition reader_faults :: "reader \<Rightarrow> nat" where
  "reader_faults rd = length (filter (\<lambda>(d, e). e \<noteq> None) rd)"

lemma reliable_faults: "reliable_reader rd \<longleftrightarrow> reader_faults rd = 0"
  by (auto simp: reliable_reader_def reader_faults_def filter_empty_conv)

lemma reliable_proper: "reliable_reader rd \<Longrightarrow> proper_reader rd"
  by (auto simp: reliable_reader_def proper_reader_def)

lemma reader_Read_keeps:
  assumes "reader_Read k rd = (d, e, rd')"
  shows "reader_faults rd' \<le> reader_faults rd"
    and "proper_reader rd \<Longrightarrow> proper_reader rd' \<and> e \<noteq> Some GoPanic"
    and "e = None \<or> rd = [] \<or> reader_faults rd' < reader_faults rd"
  using assms
  by (cases "(k, rd)" rule: reader_Read.cases;
      auto simp: reader_faults_def proper_reader_def split: if_splits)+

lemma ReadAtLeast_loop_spec:
  "ReadAtLeast_loop k m got rd = (b, e, rd') \<Longrightarrow> length got \<le> k \<Longrightarrow>
     got @ reader_bytes rd = b @ reader_bytes rd' \<and> length b \<le> k
   \<and> reader_faults rd' \<le> reader_faults rd
   \<and> (proper_reader rd \<longrightarrow> proper_reader rd' \<and> e \<noteq> Some GoPanic)
   \<and> (e = None \<longrightarrow> m \<le> k \<longrightarrow> m \<le> length b)
   \<and> (m \<le> k \<longrightarrow> m \<le> length (got @ reader_bytes rd) \<longrightarrow>
        m \<le> length b \<or> reader_faults rd' < reader_faults rd)"
proof (induction k m got rd rule: ReadAtLeast_loop.induct)
  case (1 k m got rd)
  show ?case
  proof (cases "length got < m \<and> length got < k")
    case False
    with "1.prems" show ?thesis
      by (auto simp: ReadAtLeast_loop.simps [of k m got rd])
  next
    case True
    obtain d e1 rd1 where read: "reader_Read (k - length got) rd = (d, e1, rd1)"
      by (cases "reader_Read (k - length got) rd") auto
    note bytes = reader_Read_bytes [OF read] and keeps = reader_Read_keeps [OF read]
    show ?thesis
    proof (cases e1)
      case None
      with True read "1.prems" have "ReadAtLeast_loop k m (got @ d) rd1 = (b, e, rd')"
        by (simp add: ReadAtLeast_loop.simps [of k m got rd])
      moreover have "length (got @ d) \<le> k"
        using bytes True by auto
      ultimately have ih: "(got @ d) @ reader_bytes rd1 = b @ reader_bytes rd' \<and> length b \<le> k
          \<and> reader_faults rd' \<le> reader_faults rd1
          \<and> (proper_reader rd1 \<longrightarrow> proper_reader rd' \<and> e \<noteq> Some GoPanic)
          \<and> (e = None \<longrightarrow> m \<le> k \<longrightarrow> m \<le> length b)
          \<and> (m \<le> k \<longrightarrow> m \<le> length ((got @ d) @ reader_bytes rd1) \<longrightarrow>
               m \<le> length b \<or> reader_faults rd' < reader_faults rd1)"
        using "1.IH" [OF True read [symmetric] refl None] by blast
      have "got @ reader_bytes rd = (got @ d) @ reader_bytes rd1"
        using bytes by simp
      with ih keeps(1,2) show ?thesis by (metis le_trans less_le_trans)
    next
      case (Some x)
      with True read "1.prems" have "b = got @ d" "e = Some x" "rd' = rd1"
        by (simp_all add: ReadAtLeast_loop.simps [of k m got rd])
      moreover have "length (reader_bytes rd) = 0 \<or> reader_faults rd1 < reader_faults rd"
        using keeps(3) Some by (auto simp: reader_bytes_def)
      ultimately show ?thesis
        using True Some bytes keeps(1,2) by auto
    qed
  qed
qed

lemma ReadAtLeast_spec:
  assumes "ReadAtLeast k m rd = (b, e, rd')" and "m \<le> k"
  shows "reader_bytes rd = b @ reader_bytes rd'" and "length b \<le> k"
    and "reader_faults rd' \<le> reader_faults rd"
    and "proper_reader rd \<Longrightarrow> proper_reader rd' \<and> e \<noteq> Some GoPanic"
    and "e = None \<longleftrightarrow> m \<le> length b"
    and "m \<le> length (reader_bytes rd) \<Longrightarrow> e = None \<or> reader_faults rd' < reader_faults rd"
proof -
  obtain got err rd1 where loop: "ReadAtLeast_loop k m [] rd = (got, err, rd1)"
    by (cases "ReadAtLeast_loop k m [] rd") auto
  have res: "b = got" "rd' = rd1"
    "e = (if length got \<ge> m then None
          else if length got > 0 \<and> err = Some EOF then Some ErrUnexpectedEOF else err)"
    using assms loop by (auto simp: ReadAtLeast_def split: if_splits)
  note spec = ReadAtLeast_loop_spec [OF loop]
  show "reader_bytes rd = b @ reader_bytes rd'" "length b \<le> k"
    "reader_faults rd' \<le> reader_faults rd"
    "proper_reader rd \<Longrightarrow> proper_reader rd' \<and> e \<noteq> Some GoPanic"
    "e = None \<longleftrightarrow> m \<le> length b"
    "m \<le> length (reader_bytes rd) \<Longrightarrow> e = None \<or> reader_faults rd' < reader_faults rd"
    using spec assms(2) unfolding res by auto
qed

section \<open>The chunk reader\<close>

record chunkReader =
  cr_r :: reader
  cr_buf :: gobuf
  cr_rp :: nat
  cr_wp :: nat
  cr_minBufSize :: nat
  cr_pools :: pools

abbreviation default_minBufSize :: nat where
  "default_minBufSize \<equiv> 8192"

definition newChunkReader :: "reader \<Rightarrow> int \<Rightarrow> pools \<Rightarrow> chunkReader result" where
  "newChunkReader rd minBufSize ps =
     (let sz = (if minBufSize \<le> 0 then default_minBufSize else nat minBufSize) in
      case iobufpool_Get sz ps of
        (Inl e, _) \<Rightarrow> Inl e
      | (Inr b, ps') \<Rightarrow>
          Inr \<lparr>cr_r = rd, cr_buf = b, cr_rp = 0, cr_wp = 0, cr_minBufSize = sz, cr_pools = ps'\<rparr>)"

text \<open>\<open>copy(dst, src)\<close>: the start of \<open>dst\<close> is overwritten, and the count of bytes copied returned.\<close>

definition copy_bytes :: "gobuf \<Rightarrow> bytes \<Rightarrow> gobuf \<times> nat" where
  "copy_bytes dst src =
     (let k = min (buf_len dst) (length src) in
      (dst\<lparr>buf_arr := take k src @ drop k (buf_arr dst)\<rparr>, k))"

definition cr_filled :: "chunkReader \<Rightarrow> bytes" where
  "cr_filled r = take (cr_wp r - cr_rp r) (drop (cr_rp r) (buf_arr (cr_buf r)))"

text \<open>Lines 46--54: an empty buffer is reset, and goes back to the pool if it had been enlarged.\<close>

definition Next_reset :: "chunkReader \<Rightarrow> chunkReader result" where
  "Next_reset r =
     (if cr_rp r = cr_wp r then
        if buf_len (cr_buf r) \<noteq> cr_minBufSize r then
          case iobufpool_Get (cr_minBufSize r) (iobufpool_Put (cr_buf r) (cr_pools r)) of
            (Inl e, _) \<Rightarrow> Inl e
          | (Inr b, ps) \<Rightarrow> Inr (r\<lparr>cr_buf := b, cr_pools := ps, cr_rp := 0, cr_wp := 0\<rparr>)
        else Inr (r\<lparr>cr_rp := 0, cr_wp := 0\<rparr>)
      else Inr r)"

text \<open>Lines 63--70: the buffer is replaced by a larger one when \<open>n\<close> bytes cannot fit.\<close>

definition Next_grow :: "nat \<Rightarrow> chunkReader \<Rightarrow> chunkReader result" where
  "Next_grow n r =
     (if buf_len (cr_buf r) < n then
        case iobufpool_Get n (cr_pools r) of
          (Inl e, _) \<Rightarrow> Inl e
        | (Inr bigBuf, ps) \<Rightarrow>
            (let (bigBuf', wp) = copy_bytes bigBuf (cr_filled r) in
             Inr (r\<lparr>cr_buf := bigBuf', cr_wp := wp, cr_rp := 0,
                    cr_pools := iobufpool_Put (cr_buf r) ps\<rparr>))
      else Inr r)"

text \<open>Lines 72--77: the filled area is moved to the start when the space behind it is too small.\<close>

definition Next_shift :: "nat \<Rightarrow> chunkReader \<Rightarrow> chunkReader" where
  "Next_shift n r =
     (let minReadCount = n - (cr_wp r - cr_rp r) in
      if buf_len (cr_buf r) - cr_wp r < minReadCount then
        let (b, wp) = copy_bytes (cr_buf r) (cr_filled r) in
        r\<lparr>cr_buf := b, cr_wp := wp, cr_rp := 0\<rparr>
      else r)"

definition Next_take :: "nat \<Rightarrow> chunkReader \<Rightarrow> bytes result \<times> chunkReader" where
  "Next_take n r =
     (if cr_rp r + n \<le> length (buf_arr (cr_buf r))
      then (Inr (take n (drop (cr_rp r) (buf_arr (cr_buf r)))), r\<lparr>cr_rp := cr_rp r + n\<rparr>)
      else (Inl GoPanic, r))"

text \<open>Lines 79--89: the missing bytes are read behind the filled area.\<close>

definition Next_read :: "nat \<Rightarrow> chunkReader \<Rightarrow> bytes result \<times> chunkReader" where
  "Next_read n r =
     (let minReadCount = n - (cr_wp r - cr_rp r);
          (got, err, rd) = ReadAtLeast (buf_len (cr_buf r) - cr_wp r) minReadCount (cr_r r);
          arr = buf_arr (cr_buf r);
          wp = cr_wp r;
          r' = r\<lparr>cr_r := rd,
                 cr_buf := (cr_buf r)\<lparr>buf_arr := take wp arr @ got @ drop (wp + length got) arr\<rparr>,
                 cr_wp := wp + length got\<rparr>
      in case err of
           Some e \<Rightarrow> (Inl e, r')
         | None \<Rightarrow> Next_take n r')"

definition chunkReader_Next :: "nat \<Rightarrow> chunkReader \<Rightarrow> bytes result \<times> chunkReader" where
  "chunkReader_Next n r0 =
     (case Next_reset r0 of
        Inl e \<Rightarrow> (Inl e, r0)
      | Inr r \<Rightarrow>
          if cr_wp r - cr_rp r \<ge> n then Next_take n r
          else
            (case Next_grow n r of
               Inl e \<Rightarrow> (Inl e, r)
             | Inr r1 \<Rightarrow> Next_read n (Next_shift n r1)))"

section \<open>The invariant and the stream\<close>

definition wf_chunkReader :: "chunkReader \<Rightarrow> bool" where
  "wf_chunkReader r \<longleftrightarrow>
     cr_rp r \<le> cr_wp r \<and> cr_wp r \<le> buf_len (cr_buf r)
   \<and> buf_len (cr_buf r) \<le> length (buf_arr (cr_buf r))
   \<and> wf_pools (cr_pools r) \<and> proper_reader (cr_r r)"

text \<open>What the reader has still to deliver: its filled area, then the bytes not read yet.\<close>

definition cr_stream :: "chunkReader \<Rightarrow> bytes" where
  "cr_stream r = cr_filled r @ reader_bytes (cr_r r)"

lemma length_cr_filled: "wf_chunkReader r \<Longrightarrow> length (cr_filled r) = cr_wp r - cr_rp r"
  by (auto simp: cr_filled_def wf_chunkReader_def)

lemma cr_filled_start:
  "cr_rp r = 0 \<Longrightarrow> cr_wp r = length f \<Longrightarrow> buf_arr (cr_buf r) = f @ rest \<Longrightarrow> cr_filled r = f"
  by (simp add: cr_filled_def)

lemma newChunkReader_ok:
  assumes "wf_pools ps" and "proper_reader rd"
  obtains r where "newChunkReader rd n ps = Inr r" and "wf_chunkReader r"
    and "cr_stream r = reader_bytes rd" and "cr_r r = rd"
proof -
  define sz where "sz = (if n \<le> 0 then default_minBufSize else nat n)"
  obtain b ps' where "iobufpool_Get sz ps = (Inr b, ps')" "wf_pools ps'"
    "buf_len b = sz" "sz \<le> length (buf_arr b)"
    using assms(1) by (rule Get_spec)
  then show ?thesis
    using assms(2) by (intro that) (auto simp: newChunkReader_def sz_def wf_chunkReader_def
      cr_stream_def cr_filled_def)
qed

lemma Next_reset_ok:
  assumes "wf_chunkReader r"
  obtains r' where "Next_reset r = Inr r'" and "wf_chunkReader r'"
    and "cr_stream r' = cr_stream r" and "cr_r r' = cr_r r"
proof (cases "cr_rp r = cr_wp r \<and> buf_len (cr_buf r) \<noteq> cr_minBufSize r")
  case True
  have "wf_pools (iobufpool_Put (cr_buf r) (cr_pools r))"
    using assms by (simp add: wf_chunkReader_def wf_Put)
  then obtain b ps where get:
    "iobufpool_Get (cr_minBufSize r) (iobufpool_Put (cr_buf r) (cr_pools r)) = (Inr b, ps)"
    "wf_pools ps" "buf_len b = cr_minBufSize r" "cr_minBufSize r \<le> length (buf_arr b)"
    by (rule Get_spec)
  with True have "Next_reset r = Inr (r\<lparr>cr_buf := b, cr_pools := ps, cr_rp := 0, cr_wp := 0\<rparr>)"
    by (simp add: Next_reset_def)
  then show ?thesis
    by (rule that) (use True assms get in
      \<open>auto simp: wf_chunkReader_def cr_stream_def cr_filled_def\<close>)
next
  case False
  then have "Next_reset r = Inr (if cr_rp r = cr_wp r then r\<lparr>cr_rp := 0, cr_wp := 0\<rparr> else r)"
    by (simp add: Next_reset_def)
  then show ?thesis
    by (rule that) (use assms in \<open>auto simp: wf_chunkReader_def cr_stream_def cr_filled_def\<close>)
qed

lemma Next_grow_ok:
  assumes "wf_chunkReader r" and "cr_wp r - cr_rp r < n"
  obtains r' where "Next_grow n r = Inr r'" and "wf_chunkReader r'"
    and "cr_filled r' = cr_filled r" and "cr_r r' = cr_r r" and "n \<le> buf_len (cr_buf r')"
    and "cr_wp r' - cr_rp r' = cr_wp r - cr_rp r"
proof (cases "buf_len (cr_buf r) < n")
  case True
  obtain b ps where get: "iobufpool_Get n (cr_pools r) = (Inr b, ps)"
    "wf_pools ps" "buf_len b = n" "n \<le> length (buf_arr b)"
    using assms(1) Get_spec unfolding wf_chunkReader_def by metis
  note len = length_cr_filled [OF assms(1)]
  define b' where "b' = b\<lparr>buf_arr := cr_filled r @ drop (cr_wp r - cr_rp r) (buf_arr b)\<rparr>"
  have "copy_bytes b (cr_filled r) = (b', cr_wp r - cr_rp r)"
    using get assms(2) by (simp add: copy_bytes_def len b'_def Let_def)
  with True get have "Next_grow n r =
      Inr (r\<lparr>cr_buf := b', cr_wp := cr_wp r - cr_rp r, cr_rp := 0,
             cr_pools := iobufpool_Put (cr_buf r) ps\<rparr>)"
    by (simp add: Next_grow_def)
  then show ?thesis
    by (rule that) (use get assms len in
      \<open>auto simp: b'_def wf_Put wf_chunkReader_def intro!: cr_filled_start\<close>)
next
  case False
  with assms show ?thesis
    by (intro that [of r]) (auto simp: Next_grow_def)
qed

lemma Next_shift_ok:
  assumes "wf_chunkReader r" and "n \<le> buf_len (cr_buf r)" and "cr_wp r - cr_rp r < n"
  shows "wf_chunkReader (Next_shift n r)" and "cr_filled (Next_shift n r) = cr_filled r"
    and "cr_r (Next_shift n r) = cr_r r"
    and "cr_wp (Next_shift n r) - cr_rp (Next_shift n r) = cr_wp r - cr_rp r"
    and "n - (cr_wp r - cr_rp r) \<le> buf_len (cr_buf (Next_shift n r)) - cr_wp (Next_shift n r)"
proof -
  let ?s = "Next_shift n r"
  note len = length_cr_filled [OF assms(1)]
  define b where "b = (cr_buf r)\<lparr>buf_arr := cr_filled r @ drop (cr_wp r - cr_rp r) (buf_arr (cr_buf r))\<rparr>"
  have "copy_bytes (cr_buf r) (cr_filled r) = (b, cr_wp r - cr_rp r)"
    using assms by (auto simp: copy_bytes_def len b_def Let_def)
  then have s: "?s = (if buf_len (cr_buf r) - cr_wp r < n - (cr_wp r - cr_rp r)
      then r\<lparr>cr_buf := b, cr_wp := cr_wp r - cr_rp r, cr_rp := 0\<rparr> else r)"
    by (simp add: Next_shift_def)
  show "cr_filled ?s = cr_filled r"
    unfolding s by (auto simp: b_def len intro: cr_filled_start)
  show "wf_chunkReader ?s"
    using assms len unfolding s by (auto simp: wf_chunkReader_def b_def)
  show "cr_r ?s = cr_r r" "cr_wp ?s - cr_rp ?s = cr_wp r - cr_rp r"
    "n - (cr_wp r - cr_rp r) \<le> buf_len (cr_buf ?s) - cr_wp ?s"
    using assms unfolding s by (auto simp: b_def)
qed


text \<open>
  What a call of \<open>Next(n)\<close> promises: the invariant is kept, a success takes exactly \<open>n\<close> bytes from
  the front of the stream, and an error loses no byte, is not a panic, and uses up a failure of
  the reader underneath unless the stream is too short.
\<close>

definition next_contract :: "nat \<Rightarrow> chunkReader \<Rightarrow> bytes result \<times> chunkReader \<Rightarrow> bool" where
  "next_contract n r = (\<lambda>(res, r').
     wf_chunkReader r' \<and> reader_faults (cr_r r') \<le> reader_faults (cr_r r)
   \<and> (case res of
        Inr b \<Rightarrow> length b = n \<and> cr_stream r = b @ cr_stream r'
      | Inl e \<Rightarrow> cr_stream r' = cr_stream r \<and> e \<noteq> GoPanic
                \<and> (n \<le> length (cr_stream r) \<longrightarrow> reader_faults (cr_r r') < reader_faults (cr_r r))))"

lemma next_contract_cong:
  assumes "cr_stream r = cr_stream s" and "cr_r r = cr_r s"
  shows "next_contract n r = next_contract n s"
  unfolding next_contract_def assms by (rule refl)

lemma Next_take_ok:
  assumes "wf_chunkReader r" and "n \<le> cr_wp r - cr_rp r"
  shows "next_contract n r (Next_take n r)"
proof -
  let ?arr = "buf_arr (cr_buf r)"
  have "cr_rp r + n \<le> length ?arr" and "wf_chunkReader (r\<lparr>cr_rp := cr_rp r + n\<rparr>)"
    using assms by (auto simp: wf_chunkReader_def)
  moreover have split:
    "take n (drop (cr_rp r) ?arr) @ cr_filled (r\<lparr>cr_rp := cr_rp r + n\<rparr>) = cr_filled r"
    using take_add [of n "cr_wp r - cr_rp r - n" "drop (cr_rp r) ?arr"]
    unfolding le_add_diff_inverse [OF assms(2)] by (simp add: cr_filled_def add.commute [of n])
  then have "cr_stream r = take n (drop (cr_rp r) ?arr) @ cr_stream (r\<lparr>cr_rp := cr_rp r + n\<rparr>)"
    by (simp add: cr_stream_def flip: split)
  ultimately show ?thesis
    by (simp add: next_contract_def Next_take_def)
qed

lemma Next_read_ok:
  assumes wf: "wf_chunkReader r"
    and room: "n - (cr_wp r - cr_rp r) \<le> buf_len (cr_buf r) - cr_wp r"
  shows "next_contract n r (Next_read n r)"
proof -
  let ?k = "buf_len (cr_buf r) - cr_wp r" and ?m = "n - (cr_wp r - cr_rp r)"
  obtain got err rd where ral: "ReadAtLeast ?k ?m (cr_r r) = (got, err, rd)"
    by (cases "ReadAtLeast ?k ?m (cr_r r)") auto
  note spec = ReadAtLeast_spec [OF ral room]
  define r1 where "r1 = r\<lparr>cr_r := rd,
      cr_buf := (cr_buf r)\<lparr>buf_arr := take (cr_wp r) (buf_arr (cr_buf r)) @ got
         @ drop (cr_wp r + length got) (buf_arr (cr_buf r))\<rparr>,
      cr_wp := cr_wp r + length got\<rparr>"
  have nxt: "Next_read n r = (case err of Some e \<Rightarrow> (Inl e, r1) | None \<Rightarrow> Next_take n r1)"
    by (cases err) (simp_all add: Next_read_def ral r1_def Let_def)
  have wf1: "wf_chunkReader r1"
    using wf spec(2,4) by (auto simp: wf_chunkReader_def r1_def)
  have "cr_filled r1 = cr_filled r @ got"
    using wf spec(2) by (auto simp: cr_filled_def r1_def wf_chunkReader_def drop_take)
  then have stream: "cr_stream r1 = cr_stream r"
    using spec(1) by (simp add: cr_stream_def r1_def)
  have r1_r: "cr_r r1 = rd" by (simp add: r1_def)
  show ?thesis
  proof (cases err)
    case (Some e)
    then have "n \<le> length (cr_stream r) \<longrightarrow> reader_faults rd < reader_faults (cr_r r)"
      using spec(6) length_cr_filled [OF wf]
      by (auto simp: cr_stream_def le_diff_conv add.commute)
    moreover have "e \<noteq> GoPanic"
      using Some wf spec(4) by (simp add: wf_chunkReader_def)
    ultimately show ?thesis
      using nxt Some wf1 stream spec(3) r1_r by (simp add: next_contract_def)
  next
    case None
    with spec(5) wf have "n \<le> cr_wp r1 - cr_rp r1"
      by (auto simp: r1_def wf_chunkReader_def)
    with wf1 have "next_contract n r1 (Next_take n r1)"
      by (rule Next_take_ok)
    then show ?thesis
      using nxt None stream spec(3) r1_r by (auto simp: next_contract_def split: sum.splits)
  qed
qed

lemma chunkReader_Next_ok:
  assumes "wf_chunkReader r0"
  shows "next_contract n r0 (chunkReader_Next n r0)"
proof -
  obtain r where r: "Next_reset r0 = Inr r" "wf_chunkReader r" "cr_stream r = cr_stream r0"
    "cr_r r = cr_r r0"
    using assms by (rule Next_reset_ok)
  have "next_contract n r (chunkReader_Next n r0)"
  proof (cases "n \<le> cr_wp r - cr_rp r")
    case True
    with r show ?thesis
      by (simp add: chunkReader_Next_def Next_take_ok)
  next
    case False
    then obtain r1 where r1: "Next_grow n r = Inr r1" "wf_chunkReader r1"
      "cr_filled r1 = cr_filled r" "cr_r r1 = cr_r r" "n \<le> buf_len (cr_buf r1)"
      "cr_wp r1 - cr_rp r1 = cr_wp r - cr_rp r"
      using r(2) by (rule_tac Next_grow_ok [of r n]) auto
    note shift = Next_shift_ok [OF r1(2,5)]
    have "next_contract n (Next_shift n r1) (Next_read n (Next_shift n r1))"
      using False r1(6) shift by (intro Next_read_ok) auto
    moreover have "next_contract n (Next_shift n r1) = next_contract n r"
      using False r1 shift by (intro next_contract_cong) (simp_all add: cr_stream_def)
    ultimately show ?thesis
      using False r r1 by (simp add: chunkReader_Next_def)
  qed
  moreover have "next_contract n r = next_contract n r0"
    using r by (intro next_contract_cong)
  ultimately show ?thesis by simp
qed

section \<open>The interface of a byte source\<close>

text \<open>
  What the message readers need of the reader below them. \<open>pending\<close> is the stream still to be
  delivered; \<open>faults\<close> counts the failures still to come before its end.
\<close>

locale byte_source =
  fixes nxt :: "nat \<Rightarrow> 'r \<Rightarrow> bytes result \<times> 'r"
    and pending :: "'r \<Rightarrow> bytes"
    and ok :: "'r \<Rightarrow> bool"
    and faults :: "'r \<Rightarrow> nat"
  assumes next_Inr:
    "ok r \<Longrightarrow> nxt n r = (Inr b, r') \<Longrightarrow> ok r' \<and> length b = n \<and> pending r = b @ pending r'"
    and next_Inl:
    "ok r \<Longrightarrow> nxt n r = (Inl e, r') \<Longrightarrow> ok r' \<and> pending r' = pending r \<and> e \<noteq> GoPanic"
    and next_faults: "ok r \<Longrightarrow> nxt n r = (res, r') \<Longrightarrow> faults r' \<le> faults r"
    and next_fails:
    "ok r \<Longrightarrow> n \<le> length (pending r) \<Longrightarrow> nxt n r = (Inl e, r') \<Longrightarrow> faults r' < faults r"
begin

lemma next_live:
  assumes "ok r" and "faults r = 0" and "n \<le> length (pending r)"
  shows "\<exists>b r'. nxt n r = (Inr b, r')"
proof -
  obtain res r' where res: "nxt n r = (res, r')"
    by fastforce
  with next_fails [OF assms(1,3)] assms(2) show ?thesis
    by (cases res) fastforce+
qed

lemma next_append:
  assumes "ok r" and "faults r = 0" and "pending r = b @ rest" and "n = length b"
  obtains r' where "nxt n r = (Inr b, r')" and "ok r'" and "faults r' = 0" and "pending r' = rest"
proof -
  obtain c r' where c: "nxt n r = (Inr c, r')"
    using next_live [of r n] assms by auto
  have props: "ok r'" "length c = n" "b @ rest = c @ pending r'"
    using next_Inr [OF assms(1) c] assms(3) by simp_all
  then have "c = b" and "pending r' = rest"
    using assms(4) by (metis append_eq_append_conv)+
  moreover have "faults r' = 0"
    using next_faults [OF assms(1) c] assms(2) by simp
  ultimately show ?thesis
    using c props(1) by (metis that)
qed

lemma next_short:
  assumes "ok r" and "length (pending r) < n"
  obtains e r' where "nxt n r = (Inl e, r')" and "ok r'" and "pending r' = pending r"
    and "e \<noteq> GoPanic"
proof -
  obtain res r' where res: "nxt n r = (res, r')"
    by fastforce
  show ?thesis
  proof (cases res)
    case (Inl e)
    with res next_Inl [OF assms(1)] show ?thesis by (auto intro: that)
  next
    case (Inr b)
    with res next_Inr [OF assms(1)] assms(2) show ?thesis by fastforce
  qed
qed

end

interpretation chunks: byte_source chunkReader_Next cr_stream wf_chunkReader "\<lambda>r. reader_faults (cr_r r)"
proof
  fix n r and b and r'
  assume "wf_chunkReader r" "chunkReader_Next n r = (Inr b, r')"
  with chunkReader_Next_ok [of r n]
  show "wf_chunkReader r' \<and> length b = n \<and> cr_stream r = b @ cr_stream r'"
    by (simp add: next_contract_def)
next
  fix n r and e and r'
  assume "wf_chunkReader r" "chunkReader_Next n r = (Inl e, r')"
  with chunkReader_Next_ok [of r n]
  show "wf_chunkReader r' \<and> cr_stream r' = cr_stream r \<and> e \<noteq> GoPanic"
    by (simp add: next_contract_def)
next
  fix n r res r'
  assume "wf_chunkReader r" "chunkReader_Next n r = (res, r')"
  with chunkReader_Next_ok [of r n] show "reader_faults (cr_r r') \<le> reader_faults (cr_r r)"
    by (simp add: next_contract_def)
next
  fix n r e r'
  assume "wf_chunkReader r" "n \<le> length (cr_stream r)" "chunkReader_Next n r = (Inl e, r')"
  with chunkReader_Next_ok [of r n] show "reader_faults (cr_r r') < reader_faults (cr_r r)"
    by (simp add: next_contract_def)
qed

end
