(* ===== verification/Proto_Endpoint.thy ===== *)
theory Proto_Endpoint
  imports Proto_Frame Chunk_Reader
begin

text \<open>
  What \<open>Frontend\<close> and \<open>Backend\<close> of \<open>pgproto3\<close> have in common: the buffered writer (\<open>Send\<close>,
  \<open>Flush\<close>) and the reader of message headers, with the state that lets an interrupted
  \<open>Receive\<close> be resumed. The two ends are records that extend \<open>endpoint\<close>.
\<close>

section \<open>The \<open>io.Writer\<close> underneath\<close>

text \<open>
  A writer takes bytes into its output. Each \<open>Write\<close> follows the next entry of its script: all
  bytes are written, or some number of them and an error; after the script all writes succeed.
\<close>

record writer =
  w_out :: bytes
  w_script :: "(nat \<times> goerr) option list"

definition writer_Write :: "bytes \<Rightarrow> writer \<Rightarrow> (nat \<times> goerr option) \<times> writer" where
  "writer_Write p w =
     (case w_script w of
        [] \<Rightarrow> ((length p, None), w\<lparr>w_out := w_out w @ p\<rparr>)
      | None # s \<Rightarrow> ((length p, None), \<lparr>w_out = w_out w @ p, w_script = s\<rparr>)
      | Some (n, e) # s \<Rightarrow>
          ((min n (length p), Some e), \<lparr>w_out = w_out w @ take n p, w_script = s\<rparr>))"

section \<open>State\<close>

record 'r endpoint =
  ep_cr :: 'r
  ep_w :: writer
  ep_wbuf :: bytes
  ep_encodeError :: "goerr option"
  ep_bodyLen :: nat
  ep_maxBodyLen :: int
  ep_msgType :: byte
  ep_partialMsg :: bool
  ep_authType :: u32

section \<open>Sending\<close>

definition endpoint_Send ::
  "(bytes \<Rightarrow> bytes result) \<Rightarrow> ('r, 'z) endpoint_scheme \<Rightarrow> ('r, 'z) endpoint_scheme" where
  "endpoint_Send enc s =
     (if ep_encodeError s \<noteq> None then s
      else case enc (ep_wbuf s) of
        Inl err \<Rightarrow> s\<lparr>ep_encodeError := Some err\<rparr>
      | Inr newBuf \<Rightarrow> s\<lparr>ep_wbuf := newBuf\<rparr>)"

definition endpoint_write ::
  "bytes \<Rightarrow> ('r, 'z) endpoint_scheme \<Rightarrow> goerr option \<times> ('r, 'z) endpoint_scheme" where
  "endpoint_write p s =
     (case writer_Write p (ep_w s) of
        ((n, Some err), w) \<Rightarrow> (Some (WriteError err (n = 0)), s\<lparr>ep_w := w\<rparr>)
      | ((n, None), w) \<Rightarrow> (None, s\<lparr>ep_w := w\<rparr>))"

definition Frontend_Flush :: "('r, 'z) endpoint_scheme \<Rightarrow> goerr option \<times> ('r, 'z) endpoint_scheme" where
  "Frontend_Flush s =
     (case ep_encodeError s of
        Some err \<Rightarrow> (Some (WriteError err True), s\<lparr>ep_encodeError := None, ep_wbuf := []\<rparr>)
      | None \<Rightarrow>
          if length (ep_wbuf s) = 0 then (None, s)
          else (let (err, s') = endpoint_write (ep_wbuf s) s in (err, s'\<lparr>ep_wbuf := []\<rparr>)))"

definition Backend_Flush :: "('r, 'z) endpoint_scheme \<Rightarrow> goerr option \<times> ('r, 'z) endpoint_scheme" where
  "Backend_Flush s =
     (case ep_encodeError s of
        Some err \<Rightarrow> (Some (WriteError err True), s\<lparr>ep_encodeError := None, ep_wbuf := []\<rparr>)
      | None \<Rightarrow> (let (err, s') = endpoint_write (ep_wbuf s) s in (err, s'\<lparr>ep_wbuf := []\<rparr>)))"

definition SendUnbufferedEncodedCopyData ::
  "bytes \<Rightarrow> ('r, 'z) endpoint_scheme \<Rightarrow> goerr option \<times> ('r, 'z) endpoint_scheme" where
  "SendUnbufferedEncodedCopyData msg s =
     (case Frontend_Flush s of
        (Some err, s') \<Rightarrow> (Some err, s')
      | (None, s') \<Rightarrow> endpoint_write msg s')"

section \<open>Receiving a header\<close>

definition translateEOFtoErrUnexpectedEOF :: "goerr \<Rightarrow> goerr" where
  "translateEOFtoErrUnexpectedEOF err = (if err = EOF then ErrUnexpectedEOF else err)"

text \<open>
  The first part of both \<open>Receive\<close> methods: unless the header of a message is already there, read
  it, check the length and record that the message is partially read.
\<close>

definition receive_header ::
  "(nat \<Rightarrow> 'r \<Rightarrow> bytes result \<times> 'r) \<Rightarrow> ('r, 'z) endpoint_scheme \<Rightarrow>
     goerr option \<times> ('r, 'z) endpoint_scheme" where
  "receive_header nxt s =
     (if ep_partialMsg s then (None, s)
      else case nxt 5 (ep_cr s) of
        (Inl err, cr) \<Rightarrow> (Some (translateEOFtoErrUnexpectedEOF err), s\<lparr>ep_cr := cr\<rparr>)
      | (Inr header, cr) \<Rightarrow>
          (let s = s\<lparr>ep_cr := cr\<rparr> in
           case index header 0 of
             Inl err \<Rightarrow> (Some err, s)
           | Inr t \<Rightarrow>
               (let s = s\<lparr>ep_msgType := t\<rparr> in
                case bindE (slice_from 1 header) Uint32 of
                  Inl err \<Rightarrow> (Some err, s)
                | Inr w \<Rightarrow>
                    (let msgLength = sint w in
                     if msgLength < 4 then (Some (Errorf ''invalid message length: %d'' msgLength), s)
                     else
                       let s = s\<lparr>ep_bodyLen := nat (msgLength - 4)\<rparr> in
                       if ep_maxBodyLen s > 0 \<and> int (ep_bodyLen s) > ep_maxBodyLen s
                       then (Some (ExceededMaxBodyLenErr (ep_maxBodyLen s) (int (ep_bodyLen s))), s)
                       else (None, s\<lparr>ep_partialMsg := True\<rparr>)))))"

text \<open>The second part reads the body; only then is the message no longer partial.\<close>

definition receive_body ::
  "(nat \<Rightarrow> 'r \<Rightarrow> bytes result \<times> 'r) \<Rightarrow> ('r, 'z) endpoint_scheme \<Rightarrow>
     bytes result \<times> ('r, 'z) endpoint_scheme" where
  "receive_body nxt s =
     (case nxt (ep_bodyLen s) (ep_cr s) of
        (Inl err, cr) \<Rightarrow> (Inl (translateEOFtoErrUnexpectedEOF err), s\<lparr>ep_cr := cr\<rparr>)
      | (Inr msgBody, cr) \<Rightarrow> (Inr msgBody, s\<lparr>ep_cr := cr, ep_partialMsg := False\<rparr>))"

section \<open>What sending promises\<close>

lemma endpoint_write_spec:
  assumes "endpoint_write p s = (err, s')"
  shows "s' = s\<lparr>ep_w := ep_w s'\<rparr>"
    and "err = None \<Longrightarrow> w_out (ep_w s') = w_out (ep_w s) @ p"
    and "err = Some (WriteError e True) \<Longrightarrow> w_out (ep_w s') = w_out (ep_w s)"
    and "\<exists>q. prefix q p \<and> w_out (ep_w s') = w_out (ep_w s) @ q"
  using assms
  by (auto simp: endpoint_write_def writer_Write_def take_is_prefix min_def
      split: prod.splits option.splits list.splits if_splits)

lemma Flush_empties:
  assumes "Frontend_Flush s = (err, s')"
  shows "ep_wbuf s' = [] \<and> ep_encodeError s' = None"
  using assms
  by (auto simp: Frontend_Flush_def endpoint_write_def split: option.splits if_splits prod.splits)

lemma Backend_Flush_empties:
  assumes "Backend_Flush s = (err, s')"
  shows "ep_wbuf s' = [] \<and> ep_encodeError s' = None"
  using assms
  by (auto simp: Backend_Flush_def endpoint_write_def split: option.splits if_splits prod.splits)

text \<open>An error that says it is safe to retry means that nothing was written by this call.\<close>

lemma Flush_safe_to_retry:
  assumes "Frontend_Flush s = (Some (WriteError e True), s')"
  shows "w_out (ep_w s') = w_out (ep_w s)"
  using assms endpoint_write_spec(3) [of "ep_wbuf s" s]
  by (auto simp: Frontend_Flush_def split: option.splits if_splits prod.splits)

lemma Flush_writes:
  assumes "Frontend_Flush s = (None, s')"
  shows "w_out (ep_w s') = w_out (ep_w s) @ ep_wbuf s"
  using assms endpoint_write_spec(2) [of "ep_wbuf s" s]
  by (auto simp: Frontend_Flush_def split: option.splits if_splits prod.splits)

lemma Backend_Flush_writes:
  assumes "Backend_Flush s = (None, s')"
  shows "w_out (ep_w s') = w_out (ep_w s) @ ep_wbuf s"
  using assms endpoint_write_spec(2) [of "ep_wbuf s" s]
  by (auto simp: Backend_Flush_def split: option.splits if_splits prod.splits)

section \<open>Receiving over any byte source\<close>

lemma translateEOF_panic [simp]: "translateEOFtoErrUnexpectedEOF e = GoPanic \<longleftrightarrow> e = GoPanic"
  by (simp add: translateEOFtoErrUnexpectedEOF_def)

lemma header_parts:
  assumes "length header = 5"
  obtains t w where "index header 0 = Inr t" and "bindE (slice_from 1 header) Uint32 = Inr w"
    and "header = t # be32 w"
proof -
  obtain t h where h: "header = t # h" "length h = 4"
    using assms by (cases header) auto
  then obtain w where "Uint32 h = Inr w"
    using i32.get_ok [of h] by auto
  with h be32_Uint32 [of h w] show ?thesis
    by (intro that) auto
qed

lemma sint_frame_length:
  "n \<le> maxMessageBodyLen \<Longrightarrow> sint (of_nat n :: u32) = int n"
  by (simp add: sint_of_nat_len maxMessageBodyLen_def)


text \<open>
  The stream of a peer that sends well-formed messages is a concatenation of frames;
  \<open>stream_inv\<close> says which frames are still to come, also when the header of the first one
  has already been consumed.
\<close>

definition wire :: "byte \<Rightarrow> bytes \<Rightarrow> bytes" where
  "wire t b = t # be32 (of_nat (length b + 4)) @ b"

definition wires :: "(byte \<times> bytes) list \<Rightarrow> bytes" where
  "wires fs = concat (map (\<lambda>(t, b). wire t b) fs)"

lemma wires_simps [simp]: "wires [] = []" "wires ((t, b) # fs) = wire t b @ wires fs"
  "wires (fs @ fs') = wires fs @ wires fs'"
  by (simp_all add: wires_def)

definition frame_ok :: "int \<Rightarrow> bytes \<Rightarrow> bool" where
  "frame_ok mx b \<longleftrightarrow> length b + 4 \<le> maxMessageBodyLen \<and> (mx \<le> 0 \<or> int (length b) \<le> mx)"

definition stream_inv ::
  "('r \<Rightarrow> bytes) \<Rightarrow> ('r, 'z) endpoint_scheme \<Rightarrow> (byte \<times> bytes) list \<Rightarrow> bool" where
  "stream_inv pending s fs \<longleftrightarrow>
     (if ep_partialMsg s
      then \<exists>b fs'. fs = (ep_msgType s, b) # fs' \<and> ep_bodyLen s = length b
             \<and> pending (ep_cr s) = b @ wires fs'
      else pending (ep_cr s) = wires fs)
   \<and> (\<forall>(t, b) \<in> set fs. frame_ok (ep_maxBodyLen s) b)"

definition same_but_reading ::
  "('r, 'z) endpoint_scheme \<Rightarrow> ('r, 'z) endpoint_scheme \<Rightarrow> bool" where
  "same_but_reading s s' \<longleftrightarrow>
     s' = s\<lparr>ep_cr := ep_cr s', ep_bodyLen := ep_bodyLen s', ep_msgType := ep_msgType s',
           ep_partialMsg := ep_partialMsg s'\<rparr>"

lemma same_but_reading_fields:
  assumes "same_but_reading s s'"
  shows "ep_maxBodyLen s' = ep_maxBodyLen s" and "ep_authType s' = ep_authType s"
    and "endpoint.more s' = endpoint.more s" and "ep_w s' = ep_w s" and "ep_wbuf s' = ep_wbuf s"
    and "ep_encodeError s' = ep_encodeError s"
  using arg_cong [OF assms [unfolded same_but_reading_def], of ep_maxBodyLen]
    arg_cong [OF assms [unfolded same_but_reading_def], of ep_authType]
    arg_cong [OF assms [unfolded same_but_reading_def], of endpoint.more]
    arg_cong [OF assms [unfolded same_but_reading_def], of ep_w]
    arg_cong [OF assms [unfolded same_but_reading_def], of ep_wbuf]
    arg_cong [OF assms [unfolded same_but_reading_def], of ep_encodeError]
  by simp_all

context byte_source
begin

lemma header_safe:
  assumes "ok (ep_cr s)" and "receive_header nxt s = (e, s')"
  shows "ok (ep_cr s')" and "e \<noteq> Some GoPanic" and "same_but_reading s s'"
    and "e = None \<Longrightarrow> ep_partialMsg s'"
proof -
  obtain res cr where nxt: "nxt 5 (ep_cr s) = (res, cr)"
    by fastforce
  have "ok (ep_cr s') \<and> e \<noteq> Some GoPanic \<and> same_but_reading s s' \<and> (e = None \<longrightarrow> ep_partialMsg s')"
  proof (cases "ep_partialMsg s \<or> isl res")
    case True
    then show ?thesis
      using assms nxt next_Inl [OF assms(1)]
      by (auto simp: receive_header_def same_but_reading_def split: if_splits sum.splits)
  next
    case False
    then obtain header where h: "res = Inr header"
      by (cases res) auto
    with nxt next_Inr [OF assms(1)] have "length header = 5" and "ok cr"
      by auto
    then show ?thesis
      using assms(2) nxt h False
      by (elim header_parts)
        (auto simp: receive_header_def same_but_reading_def Let_def split: if_splits)
  qed
  then show "ok (ep_cr s')" "e \<noteq> Some GoPanic" "same_but_reading s s'" "e = None \<Longrightarrow> ep_partialMsg s'"
    by blast+
qed

lemma header_stream:
  assumes "ok (ep_cr s)" and "stream_inv pending s fs" and "receive_header nxt s = (e, s')"
  shows "stream_inv pending s' fs" and "faults (ep_cr s') \<le> faults (ep_cr s)"
    and "fs \<noteq> [] \<Longrightarrow> e \<noteq> None \<Longrightarrow> faults (ep_cr s') < faults (ep_cr s)"
proof -
  obtain res cr where nxt: "nxt 5 (ep_cr s) = (res, cr)"
    by fastforce
  have "stream_inv pending s' fs \<and> faults (ep_cr s') \<le> faults (ep_cr s)
    \<and> (fs \<noteq> [] \<and> e \<noteq> None \<longrightarrow> faults (ep_cr s') < faults (ep_cr s))"
  proof (cases "ep_partialMsg s")
    case True
    with assms show ?thesis by (simp add: receive_header_def)
  next
    case fresh: False
    then have p: "pending (ep_cr s) = wires fs"
      using assms(2) by (simp add: stream_inv_def)
    show ?thesis
    proof (cases res)
      case (Inl err)
      have "5 \<le> length (wires fs) \<longrightarrow> faults cr < faults (ep_cr s)"
        using next_fails [OF assms(1), of 5] nxt Inl p by auto
      moreover have "5 \<le> length (wires fs)" if "fs \<noteq> []"
        using that by (cases fs) (auto simp: wire_def)
      ultimately show ?thesis
        using assms nxt Inl fresh p next_Inl [OF assms(1)] next_faults [OF assms(1) nxt]
        by (auto simp: receive_header_def stream_inv_def)
    next
      case (Inr header)
      with nxt next_Inr [OF assms(1)] p
      have hd: "length header = 5" "wires fs = header @ pending cr"
        by auto
      then obtain t b fs' where fs: "fs = (t, b) # fs'"
        by (cases fs) auto
      with hd have "header @ pending cr = (t # be32 (of_nat (length b + 4))) @ b @ wires fs'"
        by (simp add: wire_def)
      then have header: "header = t # be32 (of_nat (length b + 4))" and rest: "pending cr = b @ wires fs'"
        using hd(1) append_eq_append_conv [of header "t # be32 (of_nat (length b + 4))"] by auto
      have okb: "frame_ok (ep_maxBodyLen s) b"
        using assms(2) fs by (simp add: stream_inv_def)
      then have "sint (of_nat (length b + 4) :: u32) = int (length b + 4)"
        unfolding frame_ok_def by (blast intro: sint_frame_length)
      then have "receive_header nxt s = (None, s\<lparr>ep_cr := cr, ep_msgType := t,
          ep_bodyLen := length b, ep_partialMsg := True\<rparr>)"
        using fresh nxt Inr header okb by (auto simp: receive_header_def frame_ok_def Let_def)
      then show ?thesis
        using assms(2,3) fs rest fresh next_faults [OF assms(1) nxt]
        by (auto simp: stream_inv_def)
    qed
  qed
  then show "stream_inv pending s' fs" "faults (ep_cr s') \<le> faults (ep_cr s)"
    "fs \<noteq> [] \<Longrightarrow> e \<noteq> None \<Longrightarrow> faults (ep_cr s') < faults (ep_cr s)"
    by blast+
qed

lemma body_safe:
  assumes "ok (ep_cr s)" and "receive_body nxt s = (res, s')"
  shows "ok (ep_cr s')" and "safe res" and "same_but_reading s s'"
    and "faults (ep_cr s') \<le> faults (ep_cr s)"
    and "ep_msgType s' = ep_msgType s" and "res = Inr b \<Longrightarrow> length b = ep_bodyLen s"
  using assms next_Inl [OF assms(1)] next_Inr [OF assms(1)] next_faults [OF assms(1)]
  by (auto simp: receive_body_def same_but_reading_def split: prod.splits sum.splits)

lemma body_stream:
  assumes "ok (ep_cr s)" and "stream_inv pending s fs" and "ep_partialMsg s"
    and "receive_body nxt s = (res, s')"
  shows "res = Inr b \<Longrightarrow> \<exists>fs'. fs = (ep_msgType s, b) # fs' \<and> stream_inv pending s' fs'"
    and "res = Inl e \<Longrightarrow> stream_inv pending s' fs"
    and "res = Inl e \<Longrightarrow> faults (ep_cr s') < faults (ep_cr s)"
proof -
  obtain b0 fs' where fs: "fs = (ep_msgType s, b0) # fs'" "ep_bodyLen s = length b0"
    "pending (ep_cr s) = b0 @ wires fs'"
    using assms(2,3) by (auto simp: stream_inv_def)
  show "faults (ep_cr s') < faults (ep_cr s)" if "res = Inl e"
    using that next_fails [OF assms(1), of "length b0"] assms(4) fs
    by (auto simp: receive_body_def split: prod.splits sum.splits)
  show "stream_inv pending s' fs" if "res = Inl e"
    using that assms fs next_Inl [OF assms(1)]
    by (auto simp: receive_body_def stream_inv_def split: prod.splits sum.splits)
  show "\<exists>fs'. fs = (ep_msgType s, b) # fs' \<and> stream_inv pending s' fs'" if "res = Inr b"
  proof -
    from that assms(4) obtain cr where cr: "nxt (ep_bodyLen s) (ep_cr s) = (Inr b, cr)"
      "s' = s\<lparr>ep_cr := cr, ep_partialMsg := False\<rparr>"
      by (auto simp: receive_body_def split: prod.splits sum.splits)
    with next_Inr [OF assms(1) cr(1)] fs have "b = b0" "pending cr = wires fs'"
      by (metis append_eq_append_conv)+
    with fs cr(2) assms(2) show ?thesis
      by (auto simp: stream_inv_def)
  qed
qed

end


section \<open>Streams of messages\<close>

text \<open>
  A sequence of \<open>Receive\<close> calls, and the messages among its results. The contract
  \<open>message_stream\<close> is what both ends promise: as long as the messages \<open>ms\<close> are what is
  still to come, a success yields the first of them and an error none, so that calls can be
  repeated after transient read errors without losing or repeating a message.
\<close>

primrec receive_n :: "('s \<Rightarrow> 'm result \<times> 's) \<Rightarrow> nat \<Rightarrow> 's \<Rightarrow> 'm result list \<times> 's" where
  "receive_n receive 0 s = ([], s)"
| "receive_n receive (Suc n) s =
     (let (r, s1) = receive s; (rs, s2) = receive_n receive n s1 in (r # rs, s2))"

fun received :: "'m result list \<Rightarrow> 'm list" where
  "received [] = []"
| "received (Inr m # rs) = m # received rs"
| "received (Inl e # rs) = received rs"

locale message_stream =
  fixes receive :: "'s \<Rightarrow> 'm result \<times> 's"
    and inv :: "'s \<Rightarrow> 'm list \<Rightarrow> bool"
    and failures :: "'s \<Rightarrow> nat"
  assumes recv_Inr: "inv s ms \<Longrightarrow> receive s = (Inr m, s') \<Longrightarrow> \<exists>ms'. ms = m # ms' \<and> inv s' ms'"
    and recv_Inl: "inv s ms \<Longrightarrow> receive s = (Inl e, s') \<Longrightarrow> inv s' ms \<and> e \<noteq> GoPanic"
    and recv_failures: "inv s ms \<Longrightarrow> receive s = (r, s') \<Longrightarrow> failures s' \<le> failures s"
    and recv_fails: "inv s ms \<Longrightarrow> ms \<noteq> [] \<Longrightarrow> receive s = (Inl e, s') \<Longrightarrow> failures s' < failures s"
begin

lemma run_prefix:
  "inv s ms \<Longrightarrow> receive_n receive k s = (rs, s') \<Longrightarrow>
     \<exists>ms'. ms = received rs @ ms' \<and> inv s' ms' \<and> Inl GoPanic \<notin> set rs"
proof (induction k arbitrary: s ms rs)
  case 0
  then show ?case by simp
next
  case (Suc k)
  then obtain r s1 rs1 where r: "receive s = (r, s1)" "receive_n receive k s1 = (rs1, s')" "rs = r # rs1"
    by (auto split: prod.splits)
  show ?case
  proof (cases r)
    case (Inl e)
    with r recv_Inl [OF Suc.prems(1)] have "inv s1 ms" "e \<noteq> GoPanic"
      by auto
    with Suc.IH [OF _ r(2)] Inl r(3) show ?thesis by fastforce
  next
    case (Inr m)
    with r recv_Inr [OF Suc.prems(1)] obtain ms1 where "ms = m # ms1" "inv s1 ms1"
      by blast
    with Suc.IH [OF _ r(2)] Inr r(3) show ?thesis by fastforce
  qed
qed

lemma recv_live:
  assumes "inv s ms" and "failures s = 0" and "ms \<noteq> []"
  shows "\<exists>m s'. receive s = (Inr m, s') \<and> failures s' = 0"
proof -
  obtain r s' where r: "receive s = (r, s')" by fastforce
  with recv_fails [OF assms(1,3)] recv_failures [OF assms(1) r] assms(2) show ?thesis
    by (cases r) fastforce+
qed

text \<open>As many calls as messages and failures to come deliver every message.\<close>

lemma run_delivers:
  "inv s ms \<Longrightarrow> receive_n receive k s = (rs, s') \<Longrightarrow> length ms + failures s \<le> k \<Longrightarrow> received rs = ms"
proof (induction k arbitrary: s ms rs)
  case 0
  then show ?case by simp
next
  case (Suc k)
  then obtain r s1 rs1 where r: "receive s = (r, s1)" "receive_n receive k s1 = (rs1, s')" "rs = r # rs1"
    by (auto split: prod.splits)
  note less = recv_failures [OF Suc.prems(1) r(1)]
  show ?case
  proof (cases "ms = []")
    case True
    with run_prefix [OF Suc.prems(1,2)] show ?thesis by simp
  next
    case more: False
    show ?thesis
    proof (cases r)
      case (Inl e)
      with r(1) recv_Inl [OF Suc.prems(1)] recv_fails [OF Suc.prems(1) more]
      have "inv s1 ms" "failures s1 < failures s" by auto
      with Suc.IH [OF _ r(2)] Suc.prems(3) Inl r(3) show ?thesis by simp
    next
      case (Inr m)
      with r recv_Inr [OF Suc.prems(1)] obtain ms1 where "ms = m # ms1" "inv s1 ms1"
        by blast
      with Suc.IH [OF _ r(2)] Suc.prems(3) less Inr r(3) show ?thesis by simp
    qed
  qed
qed

lemma run_all:
  "inv s ms \<Longrightarrow> failures s = 0 \<Longrightarrow>
     \<exists>s'. receive_n receive (length ms) s = (map Inr ms, s') \<and> inv s' []"
proof (induction ms arbitrary: s)
  case Nil
  then show ?case by auto
next
  case (Cons m ms)
  obtain m' s1 where r: "receive s = (Inr m', s1)" "failures s1 = 0"
    using recv_live [OF Cons.prems] by auto
  with recv_Inr [OF Cons.prems(1)] have "m' = m" "inv s1 ms" by auto
  with Cons.IH [of s1] r show ?case by auto
qed

end

end
