(* ===== verification/Proto_Backend_Msgs.thy ===== *)
theory Proto_Backend_Msgs
  imports Proto_Frame
begin

text \<open>
  The messages a PostgreSQL server sends: one record per struct of \<open>pgproto3\<close> with fields,
  its \<open>Decode\<close> and \<open>Encode\<close> methods, and an interpretation of the message contract for
  each. A \<open>Decode\<close> method takes the body of the frame; it returns the decoded struct.
\<close>

section \<open>Messages without a body\<close>

text \<open>
  The empty messages share one shape: \<open>Decode\<close> wants an empty body and \<open>Encode\<close>
  appends five fixed bytes.
\<close>

definition empty_Decode :: "string \<Rightarrow> bytes \<Rightarrow> unit result" where
  "empty_Decode messageType src =
     (if length src \<noteq> 0 then Inl (InvalidMessageLenErr messageType 0 (length src)) else Inr ())"

definition ParseComplete_Decode :: "bytes \<Rightarrow> unit result" where
  "ParseComplete_Decode = empty_Decode ''ParseComplete''"
definition ParseComplete_Encode :: "unit \<Rightarrow> bytes \<Rightarrow> bytes result" where
  "ParseComplete_Encode u dst = Inr (dst @ [chr CHR ''1'', 0, 0, 0, 4])"

definition BindComplete_Decode :: "bytes \<Rightarrow> unit result" where
  "BindComplete_Decode = empty_Decode ''BindComplete''"
definition BindComplete_Encode :: "unit \<Rightarrow> bytes \<Rightarrow> bytes result" where
  "BindComplete_Encode u dst = Inr (dst @ [chr CHR ''2'', 0, 0, 0, 4])"

definition CloseComplete_Decode :: "bytes \<Rightarrow> unit result" where
  "CloseComplete_Decode = empty_Decode ''CloseComplete''"
definition CloseComplete_Encode :: "unit \<Rightarrow> bytes \<Rightarrow> bytes result" where
  "CloseComplete_Encode u dst = Inr (dst @ [chr CHR ''3'', 0, 0, 0, 4])"

definition EmptyQueryResponse_Decode :: "bytes \<Rightarrow> unit result" where
  "EmptyQueryResponse_Decode = empty_Decode ''EmptyQueryResponse''"
definition EmptyQueryResponse_Encode :: "unit \<Rightarrow> bytes \<Rightarrow> bytes result" where
  "EmptyQueryResponse_Encode u dst = Inr (dst @ [chr CHR ''I'', 0, 0, 0, 4])"

definition NoData_Decode :: "bytes \<Rightarrow> unit result" where
  "NoData_Decode = empty_Decode ''NoData''"
definition NoData_Encode :: "unit \<Rightarrow> bytes \<Rightarrow> bytes result" where
  "NoData_Encode u dst = Inr (dst @ [chr CHR ''n'', 0, 0, 0, 4])"

definition PortalSuspended_Decode :: "bytes \<Rightarrow> unit result" where
  "PortalSuspended_Decode = empty_Decode ''PortalSuspended''"
definition PortalSuspended_Encode :: "unit \<Rightarrow> bytes \<Rightarrow> bytes result" where
  "PortalSuspended_Encode u dst = Inr (dst @ [chr CHR ''s'', 0, 0, 0, 4])"

definition CopyDone_Decode :: "bytes \<Rightarrow> unit result" where
  "CopyDone_Decode = empty_Decode ''CopyDone''"
definition CopyDone_Encode :: "unit \<Rightarrow> bytes \<Rightarrow> bytes result" where
  "CopyDone_Encode u dst = Inr (dst @ [chr CHR ''c'', 0, 0, 0, 4])"

lemma empty_frame: "frame dst [t] [] = Inr (dst @ [t, 0, 0, 0, 4])"
  by (simp add: frame_def maxMessageBodyLen_def AppendUint32_def)

lemma empty_Decode_Nil [simp]: "empty_Decode n [] = Inr ()"
  by (simp add: empty_Decode_def)

lemma empty_Decode_safe [simp]: "safe (empty_Decode n src)"
  by (simp add: empty_Decode_def)

lemmas empty_backend_defs =
  ParseComplete_Decode_def ParseComplete_Encode_def BindComplete_Decode_def BindComplete_Encode_def
  CloseComplete_Decode_def CloseComplete_Encode_def EmptyQueryResponse_Decode_def
  EmptyQueryResponse_Encode_def NoData_Decode_def NoData_Encode_def PortalSuspended_Decode_def
  PortalSuspended_Encode_def CopyDone_Decode_def CopyDone_Encode_def

interpretation parseComplete: message_codec ParseComplete_Encode ParseComplete_Decode
    "[chr CHR ''1'']" "\<lambda>_. []" "\<lambda>_. True"
  by unfold_locales (simp_all add: empty_backend_defs empty_frame)

interpretation bindComplete: message_codec BindComplete_Encode BindComplete_Decode
    "[chr CHR ''2'']" "\<lambda>_. []" "\<lambda>_. True"
  by unfold_locales (simp_all add: empty_backend_defs empty_frame)

interpretation closeComplete: message_codec CloseComplete_Encode CloseComplete_Decode
    "[chr CHR ''3'']" "\<lambda>_. []" "\<lambda>_. True"
  by unfold_locales (simp_all add: empty_backend_defs empty_frame)

interpretation emptyQueryResponse: message_codec EmptyQueryResponse_Encode EmptyQueryResponse_Decode
    "[chr CHR ''I'']" "\<lambda>_. []" "\<lambda>_. True"
  by unfold_locales (simp_all add: empty_backend_defs empty_frame)

interpretation noData: message_codec NoData_Encode NoData_Decode
    "[chr CHR ''n'']" "\<lambda>_. []" "\<lambda>_. True"
  by unfold_locales (simp_all add: empty_backend_defs empty_frame)

interpretation portalSuspended: message_codec PortalSuspended_Encode PortalSuspended_Decode
    "[chr CHR ''s'']" "\<lambda>_. []" "\<lambda>_. True"
  by unfold_locales (simp_all add: empty_backend_defs empty_frame)

interpretation copyDone: message_codec CopyDone_Encode CopyDone_Decode
    "[chr CHR ''c'']" "\<lambda>_. []" "\<lambda>_. True"
  by unfold_locales (simp_all add: empty_backend_defs empty_frame)

section \<open>Authentication requests\<close>

text \<open>The authentication codes of \<open>frontend.go\<close>.\<close>

definition AuthTypeOk :: u32 where "AuthTypeOk = 0"
definition AuthTypeCleartextPassword :: u32 where "AuthTypeCleartextPassword = 3"
definition AuthTypeMD5Password :: u32 where "AuthTypeMD5Password = 5"
definition AuthTypeSCMCreds :: u32 where "AuthTypeSCMCreds = 6"
definition AuthTypeGSS :: u32 where "AuthTypeGSS = 7"
definition AuthTypeGSSCont :: u32 where "AuthTypeGSSCont = 8"
definition AuthTypeSSPI :: u32 where "AuthTypeSSPI = 9"
definition AuthTypeSASL :: u32 where "AuthTypeSASL = 10"
definition AuthTypeSASLContinue :: u32 where "AuthTypeSASLContinue = 11"
definition AuthTypeSASLFinal :: u32 where "AuthTypeSASLFinal = 12"

lemmas AuthType_defs = AuthTypeOk_def AuthTypeCleartextPassword_def AuthTypeMD5Password_def
  AuthTypeSCMCreds_def AuthTypeGSS_def AuthTypeGSSCont_def AuthTypeSSPI_def AuthTypeSASL_def
  AuthTypeSASLContinue_def AuthTypeSASLFinal_def

definition AuthenticationOk_Decode :: "bytes \<Rightarrow> unit result" where
  "AuthenticationOk_Decode src =
     (if length src \<noteq> 4 then Inl (ErrorsNew ''bad authentication message size'')
      else bindE (Uint32 src) (\<lambda>authType.
        if authType \<noteq> AuthTypeOk then Inl (ErrorsNew ''bad auth type'') else Inr ()))"

definition AuthenticationOk_Encode :: "unit \<Rightarrow> bytes \<Rightarrow> bytes result" where
  "AuthenticationOk_Encode u dst =
     (let (dst, sp) = beginMessage dst (chr CHR ''R'');
          dst = AppendUint32 dst AuthTypeOk
      in finishMessage dst sp)"

definition AuthenticationCleartextPassword_Decode :: "bytes \<Rightarrow> unit result" where
  "AuthenticationCleartextPassword_Decode src =
     (if length src \<noteq> 4 then Inl (ErrorsNew ''bad authentication message size'')
      else bindE (Uint32 src) (\<lambda>authType.
        if authType \<noteq> AuthTypeCleartextPassword then Inl (ErrorsNew ''bad auth type'') else Inr ()))"

definition AuthenticationCleartextPassword_Encode :: "unit \<Rightarrow> bytes \<Rightarrow> bytes result" where
  "AuthenticationCleartextPassword_Encode u dst =
     (let (dst, sp) = beginMessage dst (chr CHR ''R'');
          dst = AppendUint32 dst AuthTypeCleartextPassword
      in finishMessage dst sp)"

definition AuthenticationGSS_Decode :: "bytes \<Rightarrow> unit result" where
  "AuthenticationGSS_Decode src =
     (if length src < 4 then Inl (ErrorsNew ''authentication message too short'')
      else bindE (Uint32 src) (\<lambda>authType.
        if authType \<noteq> AuthTypeGSS then Inl (ErrorsNew ''bad auth type'') else Inr ()))"

definition AuthenticationGSS_Encode :: "unit \<Rightarrow> bytes \<Rightarrow> bytes result" where
  "AuthenticationGSS_Encode u dst =
     (let (dst, sp) = beginMessage dst (chr CHR ''R'');
          dst = AppendUint32 dst AuthTypeGSS
      in finishMessage dst sp)"

text \<open>The salt is a \<open>[4]byte\<close>: a list of four bytes in every well-formed message.\<close>

record AuthenticationMD5Password =
  md5_Salt :: bytes

definition AuthenticationMD5Password_Decode :: "bytes \<Rightarrow> AuthenticationMD5Password result" where
  "AuthenticationMD5Password_Decode src =
     (if length src \<noteq> 8 then Inl (ErrorsNew ''bad authentication message size'')
      else bindE (Uint32 src) (\<lambda>authType.
        if authType \<noteq> AuthTypeMD5Password then Inl (ErrorsNew ''bad auth type'')
        else bindE (slice_to 8 src) (\<lambda>s. bindE (slice_from 4 s) (\<lambda>salt.
          Inr \<lparr>md5_Salt = salt\<rparr>))))"

definition AuthenticationMD5Password_Encode :: "AuthenticationMD5Password \<Rightarrow> bytes \<Rightarrow> bytes result" where
  "AuthenticationMD5Password_Encode src dst =
     (let (dst, sp) = beginMessage dst (chr CHR ''R'');
          dst = AppendUint32 dst AuthTypeMD5Password;
          dst = dst @ md5_Salt src
      in finishMessage dst sp)"

text \<open>
  \<open>AuthenticationGSSContinue\<close>, \<open>AuthenticationSASLContinue\<close> and \<open>AuthenticationSASLFinal\<close>
  carry opaque data after the code.
\<close>

record AuthenticationGSSContinue =
  gssc_Data :: bytes

definition AuthenticationGSSContinue_Decode :: "bytes \<Rightarrow> AuthenticationGSSContinue result" where
  "AuthenticationGSSContinue_Decode src =
     (if length src < 4 then Inl (ErrorsNew ''authentication message too short'')
      else bindE (Uint32 src) (\<lambda>authType.
        if authType \<noteq> AuthTypeGSSCont then Inl (ErrorsNew ''bad auth type'')
        else bindE (slice_from 4 src) (\<lambda>d. Inr \<lparr>gssc_Data = d\<rparr>)))"

definition AuthenticationGSSContinue_Encode :: "AuthenticationGSSContinue \<Rightarrow> bytes \<Rightarrow> bytes result" where
  "AuthenticationGSSContinue_Encode a dst =
     (let (dst, sp) = beginMessage dst (chr CHR ''R'');
          dst = AppendUint32 dst AuthTypeGSSCont;
          dst = dst @ gssc_Data a
      in finishMessage dst sp)"

record AuthenticationSASLContinue =
  saslc_Data :: bytes

definition AuthenticationSASLContinue_Decode :: "bytes \<Rightarrow> AuthenticationSASLContinue result" where
  "AuthenticationSASLContinue_Decode src =
     (if length src < 4 then Inl (ErrorsNew ''authentication message too short'')
      else bindE (Uint32 src) (\<lambda>authType.
        if authType \<noteq> AuthTypeSASLContinue then Inl (ErrorsNew ''bad auth type'')
        else bindE (slice_from 4 src) (\<lambda>d. Inr \<lparr>saslc_Data = d\<rparr>)))"

definition AuthenticationSASLContinue_Encode :: "AuthenticationSASLContinue \<Rightarrow> bytes \<Rightarrow> bytes result" where
  "AuthenticationSASLContinue_Encode src dst =
     (let (dst, sp) = beginMessage dst (chr CHR ''R'');
          dst = AppendUint32 dst AuthTypeSASLContinue;
          dst = dst @ saslc_Data src
      in finishMessage dst sp)"

record AuthenticationSASLFinal =
  saslf_Data :: bytes

definition AuthenticationSASLFinal_Decode :: "bytes \<Rightarrow> AuthenticationSASLFinal result" where
  "AuthenticationSASLFinal_Decode src =
     (if length src < 4 then Inl (ErrorsNew ''authentication message too short'')
      else bindE (Uint32 src) (\<lambda>authType.
        if authType \<noteq> AuthTypeSASLFinal then Inl (ErrorsNew ''bad auth type'')
        else bindE (slice_from 4 src) (\<lambda>d. Inr \<lparr>saslf_Data = d\<rparr>)))"

definition AuthenticationSASLFinal_Encode :: "AuthenticationSASLFinal \<Rightarrow> bytes \<Rightarrow> bytes result" where
  "AuthenticationSASLFinal_Encode src dst =
     (let (dst, sp) = beginMessage dst (chr CHR ''R'');
          dst = AppendUint32 dst AuthTypeSASLFinal;
          dst = dst @ saslf_Data src
      in finishMessage dst sp)"

text \<open>The mechanism list: null-terminated names until at most the final NUL is left.\<close>

record AuthenticationSASL =
  sasl_AuthMechanisms :: "bytes list"

lemma cut_string_shorter: "cut_string err src = Inr (s, src') \<Longrightarrow> length src' < length src"
  by (auto simp: cut_string_def bindE_Inr_iff slice_from_Inr split: option.splits dest: IndexByte_less)

function sasl_mechanisms :: "bytes \<Rightarrow> bytes list result" where
  "sasl_mechanisms authMechanisms =
     (if length authMechanisms > 1 then
        bindE (cut_string (InvalidMessageFormatErr ''AuthenticationSASL'' ''unterminated string'')
                 authMechanisms)
          (\<lambda>(s, rest). bindE (sasl_mechanisms rest) (\<lambda>ss. Inr (s # ss)))
      else Inr [])"
  by pat_completeness auto
termination
  by (relation "measure length") (auto dest: cut_string_shorter)

declare sasl_mechanisms.simps [simp del]

definition AuthenticationSASL_Decode :: "bytes \<Rightarrow> AuthenticationSASL result" where
  "AuthenticationSASL_Decode src =
     (if length src < 4 then Inl (ErrorsNew ''authentication message too short'')
      else bindE (Uint32 src) (\<lambda>authType.
        if authType \<noteq> AuthTypeSASL then Inl (ErrorsNew ''bad auth type'')
        else bindE (slice_from 4 src) (\<lambda>rest.
          bindE (sasl_mechanisms rest) (\<lambda>ms. Inr \<lparr>sasl_AuthMechanisms = ms\<rparr>))))"

definition AuthenticationSASL_Encode :: "AuthenticationSASL \<Rightarrow> bytes \<Rightarrow> bytes result" where
  "AuthenticationSASL_Encode src dst =
     (let (dst, sp) = beginMessage dst (chr CHR ''R'');
          dst = AppendUint32 dst AuthTypeSASL;
          dst = foldl (\<lambda>dst s. (dst @ s) @ [0]) dst (sasl_AuthMechanisms src);
          dst = dst @ [0]
      in finishMessage dst sp)"

lemmas auth_defs = AuthenticationOk_Decode_def AuthenticationOk_Encode_def
  AuthenticationCleartextPassword_Decode_def AuthenticationCleartextPassword_Encode_def
  AuthenticationGSS_Decode_def AuthenticationGSS_Encode_def
  AuthenticationMD5Password_Decode_def AuthenticationMD5Password_Encode_def
  AuthenticationGSSContinue_Decode_def AuthenticationGSSContinue_Encode_def
  AuthenticationSASLContinue_Decode_def AuthenticationSASLContinue_Encode_def
  AuthenticationSASLFinal_Decode_def AuthenticationSASLFinal_Encode_def
  AuthenticationSASL_Decode_def AuthenticationSASL_Encode_def

lemma foldl_strings: "foldl (\<lambda>dst s. dst @ s @ [0]) dst ss = dst @ concat (map put_string ss)"
  by (rule foldl_append) (simp add: put_string_def)

lemma sasl_mechanisms_put:
  "\<forall>s\<in>set ss. no_nul s \<Longrightarrow> sasl_mechanisms (concat (map put_string ss) @ [0]) = Inr ss"
proof (induction ss)
  case Nil
  then show ?case by (simp add: sasl_mechanisms.simps)
next
  case (Cons s ss)
  then have "cut_string e (put_string s @ concat (map put_string ss) @ [0])
      = Inr (s, concat (map put_string ss) @ [0])" for e
    by (simp add: strs.step_put)
  with Cons show ?case
    by (subst sasl_mechanisms.simps) simp
qed

lemma sasl_mechanisms_safe: "safe (sasl_mechanisms src)"
proof (induction src rule: sasl_mechanisms.induct)
  case (1 src)
  then show ?case
    by (subst sasl_mechanisms.simps) (auto intro!: safe_bindE cut_string_safe)
qed

interpretation authenticationOk: message_codec AuthenticationOk_Encode AuthenticationOk_Decode
    "[chr CHR ''R'']" "\<lambda>_. be32 AuthTypeOk" "\<lambda>_. True"
  by unfold_locales (auto simp: auth_defs encode_eqs intro!: safe_intros i32.get_safe)

interpretation authenticationCleartextPassword: message_codec
    AuthenticationCleartextPassword_Encode AuthenticationCleartextPassword_Decode
    "[chr CHR ''R'']" "\<lambda>_. be32 AuthTypeCleartextPassword" "\<lambda>_. True"
  by unfold_locales (auto simp: auth_defs encode_eqs intro!: safe_intros i32.get_safe)

interpretation authenticationGSS: message_codec AuthenticationGSS_Encode AuthenticationGSS_Decode
    "[chr CHR ''R'']" "\<lambda>_. be32 AuthTypeGSS" "\<lambda>_. True"
  by unfold_locales (auto simp: auth_defs encode_eqs intro!: safe_intros i32.get_safe)

interpretation authenticationMD5Password: message_codec
    AuthenticationMD5Password_Encode AuthenticationMD5Password_Decode
    "[chr CHR ''R'']" "\<lambda>m. be32 AuthTypeMD5Password @ md5_Salt m" "\<lambda>m. length (md5_Salt m) = 4"
  by unfold_locales (auto simp: auth_defs encode_eqs intro!: safe_intros i32.get_safe)

interpretation authenticationGSSContinue: message_codec
    AuthenticationGSSContinue_Encode AuthenticationGSSContinue_Decode
    "[chr CHR ''R'']" "\<lambda>m. be32 AuthTypeGSSCont @ gssc_Data m" "\<lambda>_. True"
  by unfold_locales (auto simp: auth_defs encode_eqs intro!: safe_intros i32.get_safe)

interpretation authenticationSASLContinue: message_codec
    AuthenticationSASLContinue_Encode AuthenticationSASLContinue_Decode
    "[chr CHR ''R'']" "\<lambda>m. be32 AuthTypeSASLContinue @ saslc_Data m" "\<lambda>_. True"
  by unfold_locales (auto simp: auth_defs encode_eqs intro!: safe_intros i32.get_safe)

interpretation authenticationSASLFinal: message_codec
    AuthenticationSASLFinal_Encode AuthenticationSASLFinal_Decode
    "[chr CHR ''R'']" "\<lambda>m. be32 AuthTypeSASLFinal @ saslf_Data m" "\<lambda>_. True"
  by unfold_locales (auto simp: auth_defs encode_eqs intro!: safe_intros i32.get_safe)

interpretation authenticationSASL: message_codec
    AuthenticationSASL_Encode AuthenticationSASL_Decode "[chr CHR ''R'']"
    "\<lambda>m. be32 AuthTypeSASL @ concat (map put_string (sasl_AuthMechanisms m)) @ [0]"
    "\<lambda>m. \<forall>s\<in>set (sasl_AuthMechanisms m). no_nul s"
  by unfold_locales
    (auto simp: auth_defs encode_eqs foldl_strings sasl_mechanisms_put
      intro!: safe_intros i32.get_safe sasl_mechanisms_safe)

section \<open>Session data\<close>

record BackendKeyData =
  bkd_ProcessID :: u32
  bkd_SecretKey :: bytes

definition BackendKeyData_Decode :: "bytes \<Rightarrow> BackendKeyData result" where
  "BackendKeyData_Decode src =
     (if length src < 8 then Inl (InvalidMessageLenErr ''BackendKeyData'' 8 (length src))
      else bindE (slice_to 4 src) (\<lambda>b. bindE (Uint32 b) (\<lambda>pid.
        bindE (slice_from 4 src) (\<lambda>key.
          Inr \<lparr>bkd_ProcessID = pid, bkd_SecretKey = key\<rparr>))))"

definition BackendKeyData_Encode :: "BackendKeyData \<Rightarrow> bytes \<Rightarrow> bytes result" where
  "BackendKeyData_Encode src dst =
     (let (dst, sp) = beginMessage dst (chr CHR ''K'');
          dst = AppendUint32 dst (bkd_ProcessID src);
          dst = dst @ bkd_SecretKey src
      in finishMessage dst sp)"

record ParameterStatus =
  ps_Name :: bytes
  ps_Value :: bytes

definition ParameterStatus_Decode :: "bytes \<Rightarrow> ParameterStatus result" where
  "ParameterStatus_Decode src =
     bindE (read_string src) (\<lambda>(name, buf).
       bindE (read_string buf) (\<lambda>(value, buf).
         Inr \<lparr>ps_Name = name, ps_Value = value\<rparr>))"

definition ParameterStatus_Encode :: "ParameterStatus \<Rightarrow> bytes \<Rightarrow> bytes result" where
  "ParameterStatus_Encode src dst =
     (let (dst, sp) = beginMessage dst (chr CHR ''S'');
          dst = dst @ ps_Name src;
          dst = dst @ [0];
          dst = dst @ ps_Value src;
          dst = dst @ [0]
      in finishMessage dst sp)"

record NotificationResponse =
  nr_PID :: u32
  nr_Channel :: bytes
  nr_Payload :: bytes

definition NotificationResponse_Decode :: "bytes \<Rightarrow> NotificationResponse result" where
  "NotificationResponse_Decode src =
     (if length src < 4 then Inl (InvalidMessageFormatErr ''NotificationResponse'' ''too short'')
      else bindE (buf_int 4 Uint32 src) (\<lambda>(pid, buf).
        bindE (read_string buf) (\<lambda>(channel, buf).
          bindE (read_string buf) (\<lambda>(payload, buf).
            Inr \<lparr>nr_PID = pid, nr_Channel = channel, nr_Payload = payload\<rparr>))))"

definition NotificationResponse_Encode :: "NotificationResponse \<Rightarrow> bytes \<Rightarrow> bytes result" where
  "NotificationResponse_Encode src dst =
     (let (dst, sp) = beginMessage dst (chr CHR ''A'');
          dst = AppendUint32 dst (nr_PID src);
          dst = dst @ nr_Channel src;
          dst = dst @ [0];
          dst = dst @ nr_Payload src;
          dst = dst @ [0]
      in finishMessage dst sp)"

record ReadyForQuery =
  rfq_TxStatus :: byte

definition ReadyForQuery_Decode :: "bytes \<Rightarrow> ReadyForQuery result" where
  "ReadyForQuery_Decode src =
     (if length src \<noteq> 1 then Inl (InvalidMessageLenErr ''ReadyForQuery'' 1 (length src))
      else bindE (index src 0) (\<lambda>b. Inr \<lparr>rfq_TxStatus = b\<rparr>))"

definition ReadyForQuery_Encode :: "ReadyForQuery \<Rightarrow> bytes \<Rightarrow> bytes result" where
  "ReadyForQuery_Encode src dst = Inr (dst @ [chr CHR ''Z'', 0, 0, 0, 5, rfq_TxStatus src])"

record NegotiateProtocolVersion =
  npv_NewestMinorProtocol :: u32
  npv_UnrecognizedOptions :: "bytes list"

definition NegotiateProtocolVersion_Decode :: "bytes \<Rightarrow> NegotiateProtocolVersion result" where
  "NegotiateProtocolVersion_Decode src =
     (if length src < 8 then Inl (InvalidMessageLenErr ''NegotiateProtocolVersion'' 8 (length src))
      else bindE (read_int 4 Uint32 src) (\<lambda>(newest, rest).
        bindE (read_int 4 Uint32 rest) (\<lambda>(optionCount, rest).
          bindE (repeatE (unat optionCount)
                   (cut_string (InvalidMessageFormatErr ''NegotiateProtocolVersion'' [])) rest)
            (\<lambda>(opts, rest).
              Inr \<lparr>npv_NewestMinorProtocol = newest, npv_UnrecognizedOptions = opts\<rparr>))))"

definition NegotiateProtocolVersion_Encode :: "NegotiateProtocolVersion \<Rightarrow> bytes \<Rightarrow> bytes result" where
  "NegotiateProtocolVersion_Encode src dst =
     (let (dst, sp) = beginMessage dst (chr CHR ''v'');
          dst = AppendUint32 dst (npv_NewestMinorProtocol src);
          dst = AppendUint32 dst (of_nat (length (npv_UnrecognizedOptions src)));
          dst = foldl (\<lambda>dst s. (dst @ s) @ [0]) dst (npv_UnrecognizedOptions src)
      in finishMessage dst sp)"

lemmas session_defs = BackendKeyData_Decode_def BackendKeyData_Encode_def
  ParameterStatus_Decode_def ParameterStatus_Encode_def
  NotificationResponse_Decode_def NotificationResponse_Encode_def
  ReadyForQuery_Decode_def ReadyForQuery_Encode_def
  NegotiateProtocolVersion_Decode_def NegotiateProtocolVersion_Encode_def

interpretation backendKeyData: message_codec BackendKeyData_Encode BackendKeyData_Decode
    "[chr CHR ''K'']" "\<lambda>m. be32 (bkd_ProcessID m) @ bkd_SecretKey m" "\<lambda>m. 4 \<le> length (bkd_SecretKey m)"
  by unfold_locales (auto simp: session_defs encode_eqs intro!: safe_intros i32.get_safe)

interpretation parameterStatus: message_codec ParameterStatus_Encode ParameterStatus_Decode
    "[chr CHR ''S'']" "\<lambda>m. ps_Name m @ 0 # ps_Value m @ [0]" "\<lambda>m. no_nul (ps_Name m) \<and> no_nul (ps_Value m)"
  by unfold_locales (auto simp: session_defs encode_eqs intro!: safe_intros)

interpretation notificationResponse: message_codec NotificationResponse_Encode NotificationResponse_Decode
    "[chr CHR ''A'']" "\<lambda>m. be32 (nr_PID m) @ nr_Channel m @ 0 # nr_Payload m @ [0]"
    "\<lambda>m. no_nul (nr_Channel m) \<and> no_nul (nr_Payload m)"
  by unfold_locales (auto simp: session_defs encode_eqs intro!: safe_intros)

interpretation readyForQuery: message_codec ReadyForQuery_Encode ReadyForQuery_Decode
    "[chr CHR ''Z'']" "\<lambda>m. [rfq_TxStatus m]" "\<lambda>_. True"
  by unfold_locales
    (auto simp: session_defs frame_def maxMessageBodyLen_def AppendUint32_def intro!: safe_intros)

interpretation negotiateProtocolVersion: message_codec
    NegotiateProtocolVersion_Encode NegotiateProtocolVersion_Decode "[chr CHR ''v'']"
    "\<lambda>m. be32 (npv_NewestMinorProtocol m) @ be32 (of_nat (length (npv_UnrecognizedOptions m))) @
         concat (map put_string (npv_UnrecognizedOptions m))"
    "\<lambda>m. length (npv_UnrecognizedOptions m) < 2 ^ 32 \<and> (\<forall>s\<in>set (npv_UnrecognizedOptions m). no_nul s)"
  by unfold_locales
    (auto simp: session_defs encode_eqs foldl_strings strs.repeat_put_all unat_of_nat
      intro!: safe_intros repeatE_safe [where P = "\<lambda>_ _. True"] i32.next_item_safe
      dest: i32.next_item_InrD)

section \<open>Copy responses\<close>

text \<open>
  \<open>CopyInResponse\<close>, \<open>CopyOutResponse\<close> and \<open>CopyBothResponse\<close> have the same fields and the
  same code up to the type byte and the name in the error.
\<close>

record CopyResponse =
  cr_OverallFormat :: byte
  cr_ColumnFormatCodes :: "u16 list"

definition copy_response_Decode :: "string \<Rightarrow> bytes \<Rightarrow> CopyResponse result" where
  "copy_response_Decode messageType src =
     (if length src < 3 then Inl (InvalidMessageFormatErr messageType [])
      else
        let (b, buf) = Buffer_Next 1 src in
        bindE (index b 0) (\<lambda>overallFormat.
          bindE (buf_int 2 Uint16 buf) (\<lambda>(columnCount, buf).
            if length buf \<noteq> unat columnCount * 2 then Inl (InvalidMessageFormatErr messageType [])
            else bindE (repeatE (unat columnCount) (buf_int 2 Uint16) buf) (\<lambda>(codes, buf).
              Inr \<lparr>cr_OverallFormat = overallFormat, cr_ColumnFormatCodes = codes\<rparr>))))"

definition copy_response_Encode :: "byte \<Rightarrow> CopyResponse \<Rightarrow> bytes \<Rightarrow> bytes result" where
  "copy_response_Encode t src dst =
     (let (dst, sp) = beginMessage dst t;
          dst = dst @ [cr_OverallFormat src]
      in if length (cr_ColumnFormatCodes src) > 65535 then
           Inl (ErrorsNew ''too many column format codes'')
         else
           let dst = AppendUint16 dst (of_nat (length (cr_ColumnFormatCodes src)));
               dst = foldl AppendUint16 dst (cr_ColumnFormatCodes src)
           in finishMessage dst sp)"

definition CopyInResponse_Decode :: "bytes \<Rightarrow> CopyResponse result" where
  "CopyInResponse_Decode = copy_response_Decode ''CopyInResponse''"
definition CopyInResponse_Encode :: "CopyResponse \<Rightarrow> bytes \<Rightarrow> bytes result" where
  "CopyInResponse_Encode = copy_response_Encode (chr CHR ''G'')"

definition CopyOutResponse_Decode :: "bytes \<Rightarrow> CopyResponse result" where
  "CopyOutResponse_Decode = copy_response_Decode ''CopyOutResponse''"
definition CopyOutResponse_Encode :: "CopyResponse \<Rightarrow> bytes \<Rightarrow> bytes result" where
  "CopyOutResponse_Encode = copy_response_Encode (chr CHR ''H'')"

definition CopyBothResponse_Decode :: "bytes \<Rightarrow> CopyResponse result" where
  "CopyBothResponse_Decode = copy_response_Decode ''CopyBothResponse''"
definition CopyBothResponse_Encode :: "CopyResponse \<Rightarrow> bytes \<Rightarrow> bytes result" where
  "CopyBothResponse_Encode = copy_response_Encode (chr CHR ''W'')"

record CopyData =
  cd_Data :: bytes

definition CopyData_Decode :: "bytes \<Rightarrow> CopyData result" where
  "CopyData_Decode src = Inr \<lparr>cd_Data = src\<rparr>"

definition CopyData_Encode :: "CopyData \<Rightarrow> bytes \<Rightarrow> bytes result" where
  "CopyData_Encode src dst =
     (let (dst, sp) = beginMessage dst (chr CHR ''d'');
          dst = dst @ cd_Data src
      in finishMessage dst sp)"

lemma unat_u16_of_nat: "n \<le> 65535 \<Longrightarrow> unat (of_nat n :: u16) = n"
  by (simp add: unat_of_nat)

lemma copy_response_codec:
  "message_codec (copy_response_Encode t) (copy_response_Decode n) [t]
     (\<lambda>m. cr_OverallFormat m # be16 (of_nat (length (cr_ColumnFormatCodes m))) @
          concat (map be16 (cr_ColumnFormatCodes m)))
     (\<lambda>m. length (cr_ColumnFormatCodes m) \<le> 65535)"
  by unfold_locales
    (auto simp: copy_response_Encode_def copy_response_Decode_def encode_eqs Buffer_Next_def
      unat_u16_of_nat b16.repeat_put_all length_concat_map_const [where k = 2]
      intro!: safe_intros dest!: buf_int_InrD)

interpretation copyInResponse: message_codec CopyInResponse_Encode CopyInResponse_Decode
    "[chr CHR ''G'']"
    "\<lambda>m. cr_OverallFormat m # be16 (of_nat (length (cr_ColumnFormatCodes m))) @
         concat (map be16 (cr_ColumnFormatCodes m))"
    "\<lambda>m. length (cr_ColumnFormatCodes m) \<le> 65535"
  unfolding CopyInResponse_Encode_def CopyInResponse_Decode_def by (rule copy_response_codec)

interpretation copyOutResponse: message_codec CopyOutResponse_Encode CopyOutResponse_Decode
    "[chr CHR ''H'']"
    "\<lambda>m. cr_OverallFormat m # be16 (of_nat (length (cr_ColumnFormatCodes m))) @
         concat (map be16 (cr_ColumnFormatCodes m))"
    "\<lambda>m. length (cr_ColumnFormatCodes m) \<le> 65535"
  unfolding CopyOutResponse_Encode_def CopyOutResponse_Decode_def by (rule copy_response_codec)

interpretation copyBothResponse: message_codec CopyBothResponse_Encode CopyBothResponse_Decode
    "[chr CHR ''W'']"
    "\<lambda>m. cr_OverallFormat m # be16 (of_nat (length (cr_ColumnFormatCodes m))) @
         concat (map be16 (cr_ColumnFormatCodes m))"
    "\<lambda>m. length (cr_ColumnFormatCodes m) \<le> 65535"
  unfolding CopyBothResponse_Encode_def CopyBothResponse_Decode_def by (rule copy_response_codec)

interpretation copyData: message_codec CopyData_Encode CopyData_Decode
    "[chr CHR ''d'']" cd_Data "\<lambda>_. True"
  by unfold_locales (auto simp: CopyData_Encode_def CopyData_Decode_def encode_eqs)

end
