(* ===== verification/Proto_Error_Msg.thy ===== *)
theory Proto_Error_Msg
  imports Proto_Backend_Msgs
begin

text \<open>
  \<open>ErrorResponse\<close> and \<open>NoticeResponse\<close> of \<open>pgproto3\<close>: a list of fields, each a letter and a
  null-terminated string, some of which are decimal numbers.
\<close>

section \<open>ErrorResponse and NoticeResponse\<close>

text \<open>
  \<open>UnknownFields\<close> is a Go map. A map is an association list with distinct keys here; the
  order of the list stands for the order in which \<open>range\<close> happens to visit the keys, so a
  statement about every list covers every iteration order.
\<close>

record ErrorResponse =
  er_Severity :: bytes
  er_SeverityUnlocalized :: bytes
  er_Code :: bytes
  er_Message :: bytes
  er_Detail :: bytes
  er_Hint :: bytes
  er_Position :: u32
  er_InternalPosition :: u32
  er_InternalQuery :: bytes
  er_Where :: bytes
  er_SchemaName :: bytes
  er_TableName :: bytes
  er_ColumnName :: bytes
  er_DataTypeName :: bytes
  er_ConstraintName :: bytes
  er_File :: bytes
  er_Line :: u32
  er_Routine :: bytes
  er_UnknownFields :: "(byte \<times> bytes) list"

definition empty_ErrorResponse :: ErrorResponse where
  "empty_ErrorResponse =
     \<lparr>er_Severity = [],
      er_SeverityUnlocalized = [],
      er_Code = [],
      er_Message = [],
      er_Detail = [],
      er_Hint = [],
      er_Position = 0,
      er_InternalPosition = 0,
      er_InternalQuery = [],
      er_Where = [],
      er_SchemaName = [],
      er_TableName = [],
      er_ColumnName = [],
      er_DataTypeName = [],
      er_ConstraintName = [],
      er_File = [],
      er_Line = 0,
      er_Routine = [],
      er_UnknownFields = []\<rparr>"

text \<open>\<open>n, _ := strconv.ParseInt(s, 10, 32); int32(n)\<close>: the error is dropped, the value kept.\<close>

definition parse_int32 :: "bytes \<Rightarrow> u32" where
  "parse_int32 s = of_int (fst (ParseInt s 32))"

definition ErrorResponse_set :: "byte \<Rightarrow> bytes \<Rightarrow> ErrorResponse \<Rightarrow> ErrorResponse" where
  "ErrorResponse_set k v dst =
     (if k = chr CHR ''S'' then dst\<lparr>er_Severity := v\<rparr>
      else if k = chr CHR ''V'' then dst\<lparr>er_SeverityUnlocalized := v\<rparr>
      else if k = chr CHR ''C'' then dst\<lparr>er_Code := v\<rparr>
      else if k = chr CHR ''M'' then dst\<lparr>er_Message := v\<rparr>
      else if k = chr CHR ''D'' then dst\<lparr>er_Detail := v\<rparr>
      else if k = chr CHR ''H'' then dst\<lparr>er_Hint := v\<rparr>
      else if k = chr CHR ''P'' then dst\<lparr>er_Position := parse_int32 v\<rparr>
      else if k = chr CHR ''p'' then dst\<lparr>er_InternalPosition := parse_int32 v\<rparr>
      else if k = chr CHR ''q'' then dst\<lparr>er_InternalQuery := v\<rparr>
      else if k = chr CHR ''W'' then dst\<lparr>er_Where := v\<rparr>
      else if k = chr CHR ''s'' then dst\<lparr>er_SchemaName := v\<rparr>
      else if k = chr CHR ''t'' then dst\<lparr>er_TableName := v\<rparr>
      else if k = chr CHR ''c'' then dst\<lparr>er_ColumnName := v\<rparr>
      else if k = chr CHR ''d'' then dst\<lparr>er_DataTypeName := v\<rparr>
      else if k = chr CHR ''n'' then dst\<lparr>er_ConstraintName := v\<rparr>
      else if k = chr CHR ''F'' then dst\<lparr>er_File := v\<rparr>
      else if k = chr CHR ''L'' then dst\<lparr>er_Line := parse_int32 v\<rparr>
      else if k = chr CHR ''R'' then dst\<lparr>er_Routine := v\<rparr>
      else dst\<lparr>er_UnknownFields := AList.update k v (er_UnknownFields dst)\<rparr>)"

lemma read_string_shorter: "read_string src = Inr (s, src') \<Longrightarrow> length src' < length src"
  by (auto simp: read_string_def Buffer_ReadBytes_def bindE_Inr_iff split: option.splits
      dest: IndexByte_less)

function ErrorResponse_loop :: "bytes \<Rightarrow> ErrorResponse \<Rightarrow> ErrorResponse result" where
  "ErrorResponse_loop [] dst = Inl EOF"
| "ErrorResponse_loop (k # buf) dst =
     (if k = 0 then Inr dst
      else bindE (read_string buf) (\<lambda>(v, buf). ErrorResponse_loop buf (ErrorResponse_set k v dst)))"
  by pat_completeness auto
termination
  by (relation "measure (length \<circ> fst)") (auto dest: read_string_shorter)

definition ErrorResponse_Decode :: "bytes \<Rightarrow> ErrorResponse result" where
  "ErrorResponse_Decode src = ErrorResponse_loop src empty_ErrorResponse"

definition AppendStringField :: "byte \<Rightarrow> bytes \<Rightarrow> bytes \<Rightarrow> bytes" where
  "AppendStringField k v dst = (if v \<noteq> [] then ((dst @ [k]) @ v) @ [0] else dst)"

definition AppendIntField :: "byte \<Rightarrow> u32 \<Rightarrow> bytes \<Rightarrow> bytes" where
  "AppendIntField k n dst = (if n \<noteq> 0 then ((dst @ [k]) @ Itoa (sint n)) @ [0] else dst)"

definition ErrorResponse_appendFields :: "ErrorResponse \<Rightarrow> bytes \<Rightarrow> bytes" where
  "ErrorResponse_appendFields src dst =
     (let dst = AppendStringField (chr CHR ''S'') (er_Severity src) dst;
           dst = AppendStringField (chr CHR ''V'') (er_SeverityUnlocalized src) dst;
           dst = AppendStringField (chr CHR ''C'') (er_Code src) dst;
           dst = AppendStringField (chr CHR ''M'') (er_Message src) dst;
           dst = AppendStringField (chr CHR ''D'') (er_Detail src) dst;
           dst = AppendStringField (chr CHR ''H'') (er_Hint src) dst;
           dst = AppendIntField (chr CHR ''P'') (er_Position src) dst;
           dst = AppendIntField (chr CHR ''p'') (er_InternalPosition src) dst;
           dst = AppendStringField (chr CHR ''q'') (er_InternalQuery src) dst;
           dst = AppendStringField (chr CHR ''W'') (er_Where src) dst;
           dst = AppendStringField (chr CHR ''s'') (er_SchemaName src) dst;
           dst = AppendStringField (chr CHR ''t'') (er_TableName src) dst;
           dst = AppendStringField (chr CHR ''c'') (er_ColumnName src) dst;
           dst = AppendStringField (chr CHR ''d'') (er_DataTypeName src) dst;
           dst = AppendStringField (chr CHR ''n'') (er_ConstraintName src) dst;
           dst = AppendStringField (chr CHR ''F'') (er_File src) dst;
           dst = AppendIntField (chr CHR ''L'') (er_Line src) dst;
           dst = AppendStringField (chr CHR ''R'') (er_Routine src) dst;
          dst = foldl (\<lambda>dst (k, v). ((dst @ [k]) @ v) @ [0]) dst (er_UnknownFields src);
          dst = dst @ [0]
      in dst)"

definition ErrorResponse_Encode :: "ErrorResponse \<Rightarrow> bytes \<Rightarrow> bytes result" where
  "ErrorResponse_Encode src dst =
     (let (dst, sp) = beginMessage dst (chr CHR ''E'');
          dst = ErrorResponse_appendFields src dst
      in finishMessage dst sp)"

definition NoticeResponse_Decode :: "bytes \<Rightarrow> ErrorResponse result" where
  "NoticeResponse_Decode src = ErrorResponse_Decode src"

definition NoticeResponse_Encode :: "ErrorResponse \<Rightarrow> bytes \<Rightarrow> bytes result" where
  "NoticeResponse_Encode src dst =
     (let (dst, sp) = beginMessage dst (chr CHR ''N'');
          dst = ErrorResponse_appendFields src dst
      in finishMessage dst sp)"

text \<open>
  The known field letters, and the well-formed error: no NUL in any string, and unknown
  fields under distinct letters that are neither known nor the terminator.
\<close>

definition known_fields :: "byte list" where
  "known_fields = str ''SVCMDHPpqWstcdnFLR''"

definition wf_ErrorResponse :: "ErrorResponse \<Rightarrow> bool" where
  "wf_ErrorResponse e \<longleftrightarrow>
     no_nul (er_Severity e) \<and> no_nul (er_SeverityUnlocalized e) \<and> no_nul (er_Code e) \<and> no_nul (er_Message e) \<and> no_nul (er_Detail e) \<and>
     no_nul (er_Hint e) \<and> no_nul (er_InternalQuery e) \<and> no_nul (er_Where e) \<and> no_nul (er_SchemaName e) \<and>
     no_nul (er_TableName e) \<and> no_nul (er_ColumnName e) \<and> no_nul (er_DataTypeName e) \<and> no_nul (er_ConstraintName e) \<and>
     no_nul (er_File e) \<and> no_nul (er_Routine e) \<and>
     distinct (map fst (er_UnknownFields e)) \<and>
     (\<forall>(k, v)\<in>set (er_UnknownFields e). k \<noteq> 0 \<and> k \<notin> set known_fields \<and> no_nul v)"

lemma parse_int32_Itoa: "parse_int32 (Itoa (sint n)) = n"
proof -
  have "- (2 ^ (32 - 1)) \<le> sint n \<and> sint n < 2 ^ (32 - 1)"
    using sint_range_size [of n] by (simp add: word_size)
  then have "ParseInt (Itoa (sint n)) 32 = (sint n, None)"
    by (intro ParseInt_Itoa) simp_all
  then show ?thesis
    by (simp add: parse_int32_def)
qed

text \<open>Reading one written field applies its setter; an omitted field is the zero value.\<close>

lemma loop_string_field:
  "k \<noteq> 0 \<Longrightarrow> no_nul v \<Longrightarrow>
   ErrorResponse_loop (AppendStringField k v [] @ r) d
   = ErrorResponse_loop r (if v = [] then d else ErrorResponse_set k v d)"
  by (simp add: AppendStringField_def)

lemma loop_int_field:
  "k \<noteq> 0 \<Longrightarrow>
   ErrorResponse_loop (AppendIntField k n [] @ r) d
   = ErrorResponse_loop r (if n = 0 then d else ErrorResponse_set k (Itoa (sint n)) d)"
  by (simp add: AppendIntField_def no_nul_def Itoa_no_NUL)



lemma set_string_fields:
  "er_Severity d = [] \<Longrightarrow> (if v = [] then d else ErrorResponse_set 83 v d) = d\<lparr>er_Severity := v\<rparr>"
  "er_SeverityUnlocalized d = [] \<Longrightarrow> (if v = [] then d else ErrorResponse_set 86 v d) = d\<lparr>er_SeverityUnlocalized := v\<rparr>"
  "er_Code d = [] \<Longrightarrow> (if v = [] then d else ErrorResponse_set 67 v d) = d\<lparr>er_Code := v\<rparr>"
  "er_Message d = [] \<Longrightarrow> (if v = [] then d else ErrorResponse_set 77 v d) = d\<lparr>er_Message := v\<rparr>"
  "er_Detail d = [] \<Longrightarrow> (if v = [] then d else ErrorResponse_set 68 v d) = d\<lparr>er_Detail := v\<rparr>"
  "er_Hint d = [] \<Longrightarrow> (if v = [] then d else ErrorResponse_set 72 v d) = d\<lparr>er_Hint := v\<rparr>"
  "er_Position d = 0 \<Longrightarrow> (if n = 0 then d else ErrorResponse_set 80 (Itoa (sint n)) d) = d\<lparr>er_Position := n\<rparr>"
  "er_InternalPosition d = 0 \<Longrightarrow> (if n = 0 then d else ErrorResponse_set 112 (Itoa (sint n)) d) = d\<lparr>er_InternalPosition := n\<rparr>"
  "er_InternalQuery d = [] \<Longrightarrow> (if v = [] then d else ErrorResponse_set 113 v d) = d\<lparr>er_InternalQuery := v\<rparr>"
  "er_Where d = [] \<Longrightarrow> (if v = [] then d else ErrorResponse_set 87 v d) = d\<lparr>er_Where := v\<rparr>"
  "er_SchemaName d = [] \<Longrightarrow> (if v = [] then d else ErrorResponse_set 115 v d) = d\<lparr>er_SchemaName := v\<rparr>"
  "er_TableName d = [] \<Longrightarrow> (if v = [] then d else ErrorResponse_set 116 v d) = d\<lparr>er_TableName := v\<rparr>"
  "er_ColumnName d = [] \<Longrightarrow> (if v = [] then d else ErrorResponse_set 99 v d) = d\<lparr>er_ColumnName := v\<rparr>"
  "er_DataTypeName d = [] \<Longrightarrow> (if v = [] then d else ErrorResponse_set 100 v d) = d\<lparr>er_DataTypeName := v\<rparr>"
  "er_ConstraintName d = [] \<Longrightarrow> (if v = [] then d else ErrorResponse_set 110 v d) = d\<lparr>er_ConstraintName := v\<rparr>"
  "er_File d = [] \<Longrightarrow> (if v = [] then d else ErrorResponse_set 70 v d) = d\<lparr>er_File := v\<rparr>"
  "er_Line d = 0 \<Longrightarrow> (if n = 0 then d else ErrorResponse_set 76 (Itoa (sint n)) d) = d\<lparr>er_Line := n\<rparr>"
  "er_Routine d = [] \<Longrightarrow> (if v = [] then d else ErrorResponse_set 82 v d) = d\<lparr>er_Routine := v\<rparr>"
  by (simp_all add: ErrorResponse_set_def parse_int32_Itoa)



lemma set_unknown:
  "k \<notin> set known_fields \<Longrightarrow>
   ErrorResponse_set k v d = d\<lparr>er_UnknownFields := AList.update k v (er_UnknownFields d)\<rparr>"
  by (simp add: known_fields_def ErrorResponse_set_def)

lemma loop_unknown_fields:
  assumes "\<forall>(k, v)\<in>set kvs. k \<noteq> 0 \<and> k \<notin> set known_fields \<and> no_nul v"
    and "distinct (map fst (er_UnknownFields d @ kvs))"
  shows "ErrorResponse_loop (concat (map (\<lambda>(k, v). k # v @ [0]) kvs) @ [0]) d
    = Inr (d\<lparr>er_UnknownFields := er_UnknownFields d @ kvs\<rparr>)"
  using assms
proof (induction kvs arbitrary: d)
  case Nil
  then show ?case by simp
next
  case (Cons kv kvs)
  obtain k v where kv: "kv = (k, v)" by fastforce
  from Cons.prems have "k \<notin> fst ` set (er_UnknownFields d)"
    by (auto simp: kv)
  then have "ErrorResponse_set k v d = d\<lparr>er_UnknownFields := er_UnknownFields d @ [(k, v)]\<rparr>"
    using Cons.prems by (simp add: kv set_unknown update_fresh)
  with Cons.prems Cons.IH [of "d\<lparr>er_UnknownFields := er_UnknownFields d @ [(k, v)]\<rparr>"]
  show ?case
    by (simp add: kv)
qed

lemma foldl_unknown:
  "foldl (\<lambda>dst (k, v). dst @ k # v @ [0]) dst kvs = dst @ concat (map (\<lambda>(k, v). k # v @ [0]) kvs)"
  by (rule foldl_append) auto
lemma AppendField_normal:
  "NO_MATCH [] dst \<Longrightarrow> AppendStringField k v dst = dst @ AppendStringField k v []"
  "NO_MATCH [] dst \<Longrightarrow> AppendIntField k n dst = dst @ AppendIntField k n []"
  by (simp_all add: AppendStringField_def AppendIntField_def)

lemma appendFields_append:
  "ErrorResponse_appendFields e dst = dst @ ErrorResponse_appendFields e []"
  by (simp add: ErrorResponse_appendFields_def Let_def foldl_unknown AppendField_normal)

lemma ErrorResponse_decode_fields:
  assumes "wf_ErrorResponse e"
  shows "ErrorResponse_Decode (ErrorResponse_appendFields e []) = Inr e"
  using assms
  by (simp add: ErrorResponse_Decode_def ErrorResponse_appendFields_def Let_def foldl_unknown
      AppendField_normal wf_ErrorResponse_def loop_string_field loop_int_field set_string_fields
      empty_ErrorResponse_def loop_unknown_fields)

lemma ErrorResponse_loop_safe: "safe (ErrorResponse_loop src d)"
  by (induction src d rule: ErrorResponse_loop.induct) (auto intro!: safe_intros)

lemma ErrorResponse_Decode_safe: "safe (ErrorResponse_Decode src)"
  by (simp add: ErrorResponse_Decode_def ErrorResponse_loop_safe)

interpretation errorResponse: message_codec ErrorResponse_Encode ErrorResponse_Decode
    "[chr CHR ''E'']" "\<lambda>e. ErrorResponse_appendFields e []" wf_ErrorResponse
  by unfold_locales
    (simp_all add: ErrorResponse_Encode_def encode_eqs appendFields_append [of _ "_ @ _"]
      ErrorResponse_decode_fields ErrorResponse_Decode_safe)

interpretation noticeResponse: message_codec NoticeResponse_Encode NoticeResponse_Decode
    "[chr CHR ''N'']" "\<lambda>e. ErrorResponse_appendFields e []" wf_ErrorResponse
  by unfold_locales
    (simp_all add: NoticeResponse_Encode_def NoticeResponse_Decode_def encode_eqs
      appendFields_append [of _ "_ @ _"] ErrorResponse_decode_fields errorResponse.decode_safe)

end
