(* ===== verification/Proto_Result_Msgs.thy ===== *)
theory Proto_Result_Msgs
  imports Proto_Backend_Msgs
begin

text \<open>
  The messages that carry query results and errors from the server: \<open>CommandComplete\<close>,
  \<open>RowDescription\<close>, \<open>ParameterDescription\<close>, \<open>DataRow\<close> with the reuse of its value slice,
  \<open>FunctionCallResponse\<close>, and \<open>ErrorResponse\<close>/\<open>NoticeResponse\<close>.
\<close>

section \<open>Command tags, descriptions and function results\<close>

record CommandComplete =
  cc_CommandTag :: bytes

definition CommandComplete_Decode :: "bytes \<Rightarrow> CommandComplete result" where
  "CommandComplete_Decode src =
     (case IndexByte src 0 of
        None \<Rightarrow> Inl (InvalidMessageFormatErr ''CommandComplete'' ''unterminated string'')
      | Some idx \<Rightarrow>
          if int idx \<noteq> int (length src) - 1 then
            Inl (InvalidMessageFormatErr ''CommandComplete'' ''string terminated too early'')
          else bindE (slice_to idx src) (\<lambda>t. Inr \<lparr>cc_CommandTag = t\<rparr>))"

definition CommandComplete_Encode :: "CommandComplete \<Rightarrow> bytes \<Rightarrow> bytes result" where
  "CommandComplete_Encode src dst =
     (let (dst, sp) = beginMessage dst (chr CHR ''C'');
          dst = dst @ cc_CommandTag src;
          dst = dst @ [0]
      in finishMessage dst sp)"

interpretation commandComplete: message_codec CommandComplete_Encode CommandComplete_Decode
    "[chr CHR ''C'']" "\<lambda>m. cc_CommandTag m @ [0]" "\<lambda>m. no_nul (cc_CommandTag m)"
  by unfold_locales
    (auto simp: CommandComplete_Encode_def CommandComplete_Decode_def encode_eqs less_imp_le
      intro!: safe_intros split: option.splits dest: IndexByte_less)

record ParameterDescription =
  pd_ParameterOIDs :: "u32 list"

text \<open>The count in the message is skipped: the number of OIDs follows from the length.\<close>

definition ParameterDescription_Decode :: "bytes \<Rightarrow> ParameterDescription result" where
  "ParameterDescription_Decode src =
     (if length src < 2 then Inl (InvalidMessageFormatErr ''ParameterDescription'' [])
      else
        let (_, buf) = Buffer_Next 2 src;
            parameterCount = length buf div 4
        in bindE (repeatE parameterCount (buf_int 4 Uint32) buf) (\<lambda>(oids, buf).
             Inr \<lparr>pd_ParameterOIDs = oids\<rparr>))"

definition ParameterDescription_Encode :: "ParameterDescription \<Rightarrow> bytes \<Rightarrow> bytes result" where
  "ParameterDescription_Encode src dst =
     (let (dst, sp) = beginMessage dst (chr CHR ''t'')
      in if length (pd_ParameterOIDs src) > 65535 then Inl (ErrorsNew ''too many parameter oids'')
         else
           let dst = AppendUint16 dst (of_nat (length (pd_ParameterOIDs src)));
               dst = foldl AppendUint32 dst (pd_ParameterOIDs src)
           in finishMessage dst sp)"

lemma length_be32s [simp]: "length (concat (map be32 xs)) = 4 * length xs"
  by (rule length_concat_map_const) simp

lemma length_be16s [simp]: "length (concat (map be16 xs)) = 2 * length xs"
  by (rule length_concat_map_const) simp

interpretation parameterDescription: message_codec
    ParameterDescription_Encode ParameterDescription_Decode "[chr CHR ''t'']"
    "\<lambda>m. be16 (of_nat (length (pd_ParameterOIDs m))) @ concat (map be32 (pd_ParameterOIDs m))"
    "\<lambda>m. length (pd_ParameterOIDs m) \<le> 65535"
  by unfold_locales
    (auto simp: ParameterDescription_Encode_def ParameterDescription_Decode_def encode_eqs
      Buffer_Next_def b32.repeat_put_all intro!: safe_intros)

record FieldDescription =
  fd_Name :: bytes
  fd_TableOID :: u32
  fd_TableAttributeNumber :: u16
  fd_DataTypeOID :: u32
  fd_DataTypeSize :: u16
  fd_TypeModifier :: u32
  fd_Format :: u16

record RowDescription =
  rd_Fields :: "FieldDescription list"

text \<open>One iteration of the loop over the fields.\<close>

definition FieldDescription_step :: "bytes \<Rightarrow> (FieldDescription \<times> bytes) result" where
  "FieldDescription_step src =
     bindE (cut_string (InvalidMessageFormatErr ''RowDescription'' []) src) (\<lambda>(name, src).
       if length src < 18 then Inl (InvalidMessageFormatErr ''RowDescription'' [])
       else
         bindE (read_int 4 Uint32 src) (\<lambda>(tableOID, src).
         bindE (read_int 2 Uint16 src) (\<lambda>(attNum, src).
         bindE (read_int 4 Uint32 src) (\<lambda>(typeOID, src).
         bindE (read_int 2 Uint16 src) (\<lambda>(typeSize, src).
         bindE (read_int 4 Uint32 src) (\<lambda>(typmod, src).
         bindE (read_int 2 Uint16 src) (\<lambda>(format, src).
           Inr (\<lparr>fd_Name = name, fd_TableOID = tableOID, fd_TableAttributeNumber = attNum,
                 fd_DataTypeOID = typeOID, fd_DataTypeSize = typeSize,
                 fd_TypeModifier = typmod, fd_Format = format\<rparr>, src))))))))"

definition RowDescription_Decode :: "bytes \<Rightarrow> RowDescription result" where
  "RowDescription_Decode src =
     (if length src < 2 then Inl (InvalidMessageFormatErr ''RowDescription'' [])
      else bindE (read_int 2 Uint16 src) (\<lambda>(fieldCount, src).
        bindE (repeatE (unat fieldCount) FieldDescription_step src) (\<lambda>(fields, src).
          Inr \<lparr>rd_Fields = fields\<rparr>)))"

definition AppendFieldDescription :: "bytes \<Rightarrow> FieldDescription \<Rightarrow> bytes" where
  "AppendFieldDescription dst fd =
     (let dst = dst @ fd_Name fd;
          dst = dst @ [0];
          dst = AppendUint32 dst (fd_TableOID fd);
          dst = AppendUint16 dst (fd_TableAttributeNumber fd);
          dst = AppendUint32 dst (fd_DataTypeOID fd);
          dst = AppendInt16 dst (fd_DataTypeSize fd);
          dst = AppendInt32 dst (fd_TypeModifier fd);
          dst = AppendInt16 dst (fd_Format fd)
      in dst)"

definition RowDescription_Encode :: "RowDescription \<Rightarrow> bytes \<Rightarrow> bytes result" where
  "RowDescription_Encode src dst =
     (let (dst, sp) = beginMessage dst (chr CHR ''T'')
      in if length (rd_Fields src) > 65535 then Inl (ErrorsNew ''too many fields'')
         else
           let dst = AppendUint16 dst (of_nat (length (rd_Fields src)));
               dst = foldl AppendFieldDescription dst (rd_Fields src)
           in finishMessage dst sp)"

definition put_field :: "FieldDescription \<Rightarrow> bytes" where
  "put_field fd =
     fd_Name fd @ 0 # be32 (fd_TableOID fd) @ be16 (fd_TableAttributeNumber fd) @
     be32 (fd_DataTypeOID fd) @ be16 (fd_DataTypeSize fd) @ be32 (fd_TypeModifier fd) @
     be16 (fd_Format fd)"

lemma AppendFieldDescription_eq: "AppendFieldDescription dst fd = dst @ put_field fd"
  by (simp add: AppendFieldDescription_def put_field_def Append_eqs Append_normal Let_def)

lemma foldl_AppendFieldDescription:
  "foldl AppendFieldDescription dst fs = dst @ concat (map put_field fs)"
  by (rule foldl_append) (rule AppendFieldDescription_eq)

interpretation fields: item_codec put_field FieldDescription_step "\<lambda>fd. no_nul (fd_Name fd)"
  by unfold_locales (simp add: FieldDescription_step_def put_field_def)

lemma FieldDescription_step_safe: "safe (FieldDescription_step src)"
  unfolding FieldDescription_step_def
  by (rule safe_bindE)
    (auto intro!: safe_intros i16.next_item_safe i32.next_item_safe
      dest!: i16.next_item_InrD i32.next_item_InrD)

interpretation rowDescription: message_codec RowDescription_Encode RowDescription_Decode
    "[chr CHR ''T'']"
    "\<lambda>m. be16 (of_nat (length (rd_Fields m))) @ concat (map put_field (rd_Fields m))"
    "\<lambda>m. length (rd_Fields m) \<le> 65535 \<and> (\<forall>fd\<in>set (rd_Fields m). no_nul (fd_Name fd))"
  by unfold_locales
    (auto simp: RowDescription_Encode_def RowDescription_Decode_def encode_eqs
      foldl_AppendFieldDescription unat_u16_of_nat fields.repeat_put_all
      intro!: safe_intros i16.next_item_safe FieldDescription_step_safe
        repeatE_safe [where P = "\<lambda>_ _. True"])

record FunctionCallResponse =
  fcr_Result :: "bytes option"

definition FunctionCallResponse_Decode :: "bytes \<Rightarrow> FunctionCallResponse result" where
  "FunctionCallResponse_Decode src =
     (if length src < 4 then Inl (InvalidMessageFormatErr ''FunctionCallResponse'' [])
      else bindE (read_int 4 Uint32 src) (\<lambda>(n, src).
        let resultSize = sint n in
        if resultSize = -1 then Inr \<lparr>fcr_Result = None\<rparr>
        else if resultSize < 0 \<or> int (length src) \<noteq> resultSize then
          Inl (InvalidMessageFormatErr ''FunctionCallResponse'' [])
        else Inr \<lparr>fcr_Result = Some src\<rparr>))"

definition FunctionCallResponse_Encode :: "FunctionCallResponse \<Rightarrow> bytes \<Rightarrow> bytes result" where
  "FunctionCallResponse_Encode src dst =
     (let (dst, sp) = beginMessage dst (chr CHR ''V'');
          dst = AppendValue dst (fcr_Result src)
      in finishMessage dst sp)"

interpretation functionCallResponse: message_codec
    FunctionCallResponse_Encode FunctionCallResponse_Decode "[chr CHR ''V'']"
    "\<lambda>m. put_value (fcr_Result m)" "\<lambda>m. wf_value (fcr_Result m)"
  by unfold_locales
    (auto simp: FunctionCallResponse_Encode_def FunctionCallResponse_Decode_def encode_eqs
      AppendValue_eq put_value_def wf_value_def sint_of_nat_len
      intro!: safe_intros i32.next_item_safe split: option.splits)

section \<open>DataRow\<close>

text \<open>
  The frontend decodes every row into the same \<open>DataRow\<close>: \<open>Values\<close> is resliced when its
  backing array is big enough and not more than 32 slots too big, else a fresh array is
  made. \<open>dr_array\<close> is the backing array up to the capacity and \<open>dr_len\<close> the length of the
  slice; slots beyond the length hold values of earlier rows.
\<close>

record DataRow =
  dr_array :: "bytes option list"
  dr_len :: nat

definition DataRow_Values :: "DataRow \<Rightarrow> bytes option list" where
  "DataRow_Values dr = take (dr_len dr) (dr_array dr)"

fun DataRow_loop ::
  "nat \<Rightarrow> nat \<Rightarrow> bytes \<Rightarrow> bytes option list \<Rightarrow> goerr option \<times> bytes option list" where
  "DataRow_loop 0 i src arr = (None, arr)"
| "DataRow_loop (Suc left) i src arr =
     (case read_value (InvalidMessageFormatErr ''DataRow'' []) src of
        Inl e \<Rightarrow> (Some e, arr)
      | Inr (v, src) \<Rightarrow> DataRow_loop left (Suc i) src (arr[i := v]))"

definition DataRow_Decode :: "DataRow \<Rightarrow> bytes \<Rightarrow> goerr option \<times> DataRow" where
  "DataRow_Decode dst src =
     (if length src < 2 then (Some (InvalidMessageFormatErr ''DataRow'' []), dst)
      else case read_int 2 Uint16 src of
        Inl e \<Rightarrow> (Some e, dst)
      | Inr (n, src) \<Rightarrow>
          let fieldCount = unat n;
              capacity = length (dr_array dst);
              arr = (if capacity < fieldCount \<or> capacity - fieldCount > 32
                     then replicate (max 32 fieldCount) None
                     else dr_array dst);
              (err, arr') = DataRow_loop fieldCount 0 src arr
          in (err, \<lparr>dr_array = arr', dr_len = fieldCount\<rparr>))"

definition DataRow_Encode :: "bytes option list \<Rightarrow> bytes \<Rightarrow> bytes result" where
  "DataRow_Encode vs dst =
     (let (dst, sp) = beginMessage dst (chr CHR ''D'')
      in if length vs > 65535 then Inl (ErrorsNew ''too many values'')
         else
           let dst = AppendUint16 dst (of_nat (length vs));
               dst = foldl AppendValue dst vs
           in finishMessage dst sp)"

text \<open>The loop stores what the counted loop reads, and leaves the other slots alone.\<close>

lemma DataRow_loop_repeat:
  "i + k \<le> length arr \<Longrightarrow>
   (case repeatE k (read_value (InvalidMessageFormatErr ''DataRow'' [])) src of
      Inl e \<Rightarrow> fst (DataRow_loop k i src arr) = Some e
    | Inr (vs, r) \<Rightarrow> DataRow_loop k i src arr = (None, take i arr @ vs @ drop (i + k) arr))"
proof (induction k arbitrary: i src arr)
  case 0
  then show ?case by simp
next
  case (Suc k)
  show ?case
  proof (cases "read_value (InvalidMessageFormatErr ''DataRow'' []) src")
    case (Inl e)
    then show ?thesis by simp
  next
    case (Inr p)
    obtain v src' where p: "p = (v, src')" by fastforce
    from Suc.prems Suc.IH [of "Suc i" "arr[i := v]" src'] show ?thesis
      by (simp add: Inr p take_Suc_conv_app_nth split: sum.splits prod.splits)
  qed
qed

lemma DataRow_loop_length: "length (snd (DataRow_loop k i src arr)) = length arr"
  by (induction k arbitrary: i src arr) (auto split: sum.splits)

text \<open>The decoded row as a function of the message, for any previous content of the flyweight.\<close>

definition DataRow_result :: "DataRow \<Rightarrow> bytes \<Rightarrow> bytes option list result" where
  "DataRow_result dst src =
     (case DataRow_Decode dst src of (None, dr) \<Rightarrow> Inr (DataRow_Values dr) | (Some e, _) \<Rightarrow> Inl e)"

definition DataRow_parse :: "bytes \<Rightarrow> bytes option list result" where
  "DataRow_parse src =
     (if length src < 2 then Inl (InvalidMessageFormatErr ''DataRow'' [])
      else bindE (read_int 2 Uint16 src) (\<lambda>(n, src).
        bindE (repeatE (unat n) (read_value (InvalidMessageFormatErr ''DataRow'' [])) src)
          (\<lambda>(vs, _). Inr vs)))"

lemma DataRow_result_parse: "DataRow_result dst src = DataRow_parse src"
proof (cases "length src < 2")
  case True
  then show ?thesis by (simp add: DataRow_result_def DataRow_Decode_def DataRow_parse_def)
next
  case False
  then obtain n where n: "Uint16 src = Inr n"
    using i16.get_ok [of src] by auto
  define arr where "arr = (if length (dr_array dst) < unat n \<or> length (dr_array dst) - unat n > 32
    then replicate (max 32 (unat n)) None else dr_array dst)"
  have len: "0 + unat n \<le> length arr"
    by (auto simp: arr_def)
  show ?thesis
    using DataRow_loop_repeat [OF len, of "drop 2 src"] False
    by (auto simp: DataRow_result_def DataRow_Decode_def DataRow_parse_def DataRow_Values_def
        read_int_def n arr_def [symmetric] Let_def split: sum.splits prod.splits option.splits
        dest: repeatE_length)
qed



interpretation dataRow: message_codec DataRow_Encode "DataRow_result dst" "[chr CHR ''D'']"
    "\<lambda>vs. be16 (of_nat (length vs)) @ concat (map put_value vs)"
    "\<lambda>vs. length vs \<le> 65535 \<and> (\<forall>v\<in>set vs. wf_value v)" for dst
  by unfold_locales
    (auto simp: DataRow_Encode_def foldl_AppendValue encode_eqs DataRow_result_parse DataRow_parse_def
      unat_u16_of_nat vals.repeat_put_all
      intro!: safe_intros i16.next_item_safe repeatE_safe [where P = "\<lambda>_ _. True"])

end
