(* ===== verification/Proto_Frontend_Msgs.thy ===== *)
theory Proto_Frontend_Msgs
  imports Proto_Result_Msgs
begin

text \<open>
  The messages a client sends: the extended-query messages, the simple query, COPY, the
  authentication responses, and the untyped start-up packets.
\<close>

section \<open>Messages without a body\<close>

definition Flush_Decode :: "bytes \<Rightarrow> unit result" where
  "Flush_Decode = empty_Decode ''Flush''"
definition Flush_Encode :: "unit \<Rightarrow> bytes \<Rightarrow> bytes result" where
  "Flush_Encode u dst = Inr (dst @ [chr CHR ''H'', 0, 0, 0, 4])"

definition Sync_Decode :: "bytes \<Rightarrow> unit result" where
  "Sync_Decode = empty_Decode ''Sync''"
definition Sync_Encode :: "unit \<Rightarrow> bytes \<Rightarrow> bytes result" where
  "Sync_Encode u dst = Inr (dst @ [chr CHR ''S'', 0, 0, 0, 4])"

definition Terminate_Decode :: "bytes \<Rightarrow> unit result" where
  "Terminate_Decode = empty_Decode ''Terminate''"
definition Terminate_Encode :: "unit \<Rightarrow> bytes \<Rightarrow> bytes result" where
  "Terminate_Encode u dst = Inr (dst @ [chr CHR ''X'', 0, 0, 0, 4])"

interpretation flush: message_codec Flush_Encode Flush_Decode "[chr CHR ''H'']" "\<lambda>_. []" "\<lambda>_. True"
  by unfold_locales (simp_all add: Flush_Encode_def Flush_Decode_def empty_frame)

interpretation syncm: message_codec Sync_Encode Sync_Decode "[chr CHR ''S'']" "\<lambda>_. []" "\<lambda>_. True"
  by unfold_locales (simp_all add: Sync_Encode_def Sync_Decode_def empty_frame)

interpretation terminate: message_codec Terminate_Encode Terminate_Decode
    "[chr CHR ''X'']" "\<lambda>_. []" "\<lambda>_. True"
  by unfold_locales (simp_all add: Terminate_Encode_def Terminate_Decode_def empty_frame)

section \<open>Bind\<close>

record Bind =
  bind_DestinationPortal :: bytes
  bind_PreparedStatement :: bytes
  bind_ParameterFormatCodes :: "u16 list"
  bind_Parameters :: "bytes option list"
  bind_ResultFormatCodes :: "u16 list"

definition Bind_Decode :: "bytes \<Rightarrow> Bind result" where
  "Bind_Decode src =
     (let err = InvalidMessageFormatErr ''Bind'' [] in
      bindE (cut_string err src) (\<lambda>(portal, src).
      bindE (cut_string err src) (\<lambda>(stmt, src).
      if length src < 2 then Inl err else
      bindE (read_int 2 Uint16 src) (\<lambda>(parameterFormatCodeCount, src).
      bindE
        (if unat parameterFormatCodeCount > 0 then
           if length src < unat parameterFormatCodeCount * 2 then Inl err
           else repeatE (unat parameterFormatCodeCount) (read_int 2 Uint16) src
         else Inr ([], src)) (\<lambda>(parameterFormatCodes, src).
      if length src < 2 then Inl err else
      bindE (read_int 2 Uint16 src) (\<lambda>(parameterCount, src).
      bindE
        (if unat parameterCount > 0 then repeatE (unat parameterCount) (read_value err) src
         else Inr ([], src)) (\<lambda>(parameters, src).
      if length src < 2 then Inl err else
      bindE (read_int 2 Uint16 src) (\<lambda>(resultFormatCodeCount, src).
      if length src < unat resultFormatCodeCount * 2 then Inl err else
      bindE (repeatE (unat resultFormatCodeCount) (read_int 2 Uint16) src) (\<lambda>(resultFormatCodes, src).
        Inr \<lparr>bind_DestinationPortal = portal, bind_PreparedStatement = stmt,
             bind_ParameterFormatCodes = parameterFormatCodes, bind_Parameters = parameters,
             bind_ResultFormatCodes = resultFormatCodes\<rparr>)))))))))"

definition Bind_Encode :: "Bind \<Rightarrow> bytes \<Rightarrow> bytes result" where
  "Bind_Encode src dst =
     (let (dst, sp) = beginMessage dst (chr CHR ''B'');
          dst = dst @ bind_DestinationPortal src;
          dst = dst @ [0];
          dst = dst @ bind_PreparedStatement src;
          dst = dst @ [0]
      in
        if length (bind_ParameterFormatCodes src) > 65535 then
          Inl (ErrorsNew ''too many parameter format codes'')
        else
          let dst = AppendUint16 dst (of_nat (length (bind_ParameterFormatCodes src)));
              dst = foldl AppendInt16 dst (bind_ParameterFormatCodes src)
          in
            if length (bind_Parameters src) > 65535 then Inl (ErrorsNew ''too many parameters'')
            else
              let dst = AppendUint16 dst (of_nat (length (bind_Parameters src)));
                  dst = foldl AppendValue dst (bind_Parameters src)
              in
                if length (bind_ResultFormatCodes src) > 65535 then
                  Inl (ErrorsNew ''too many result format codes'')
                else
                  let dst = AppendUint16 dst (of_nat (length (bind_ResultFormatCodes src)));
                      dst = foldl AppendInt16 dst (bind_ResultFormatCodes src)
                  in finishMessage dst sp)"

definition wf_Bind :: "Bind \<Rightarrow> bool" where
  "wf_Bind m \<longleftrightarrow>
     no_nul (bind_DestinationPortal m) \<and> no_nul (bind_PreparedStatement m) \<and>
     length (bind_ParameterFormatCodes m) \<le> 65535 \<and> length (bind_Parameters m) \<le> 65535 \<and>
     length (bind_ResultFormatCodes m) \<le> 65535 \<and> (\<forall>v\<in>set (bind_Parameters m). wf_value v)"

definition Bind_body :: "Bind \<Rightarrow> bytes" where
  "Bind_body m =
     bind_DestinationPortal m @ 0 # bind_PreparedStatement m @ 0 #
     be16 (of_nat (length (bind_ParameterFormatCodes m))) @ concat (map be16 (bind_ParameterFormatCodes m)) @
     be16 (of_nat (length (bind_Parameters m))) @ concat (map put_value (bind_Parameters m)) @
     be16 (of_nat (length (bind_ResultFormatCodes m))) @ concat (map be16 (bind_ResultFormatCodes m))"

lemma Bind_encode: "wf_Bind m \<Longrightarrow> Bind_Encode m dst = frame dst [chr CHR ''B''] (Bind_body m)"
  by (simp add: Bind_Encode_def Bind_body_def wf_Bind_def encode_eqs foldl_AppendValue)

lemma Bind_decode: "wf_Bind m \<Longrightarrow> Bind_Decode (Bind_body m) = Inr m"
  by (simp add: Bind_Decode_def Bind_body_def wf_Bind_def unat_u16_of_nat Let_def
      i16.item.repeat_put i16.item.repeat_put_all vals.repeat_put)

lemma Bind_decode_safe: "safe (Bind_Decode src)"
  unfolding Bind_Decode_def Let_def
  by (auto intro!: safe_intros i16.next_item_safe i16.repeat_next_item_safe
      repeatE_safe [where P = "\<lambda>_ _. True"] split: prod.splits)

interpretation bind: message_codec Bind_Encode Bind_Decode "[chr CHR ''B'']" Bind_body wf_Bind
  by unfold_locales (rule Bind_encode Bind_decode Bind_decode_safe, assumption?)+

section \<open>Parse, Describe, Close, Execute\<close>

record Parse =
  parse_Name :: bytes
  parse_Query :: bytes
  parse_ParameterOIDs :: "u32 list"

text \<open>One iteration of the loop over the parameter OIDs.\<close>

definition Parse_oid_step :: "bytes \<Rightarrow> (u32 \<times> bytes) result" where
  "Parse_oid_step buf =
     (if length buf < 4 then Inl (InvalidMessageFormatErr ''Parse'' []) else buf_int 4 Uint32 buf)"

definition Parse_Decode :: "bytes \<Rightarrow> Parse result" where
  "Parse_Decode src =
     bindE (read_string src) (\<lambda>(name, buf).
     bindE (read_string buf) (\<lambda>(query, buf).
     if length buf < 2 then Inl (InvalidMessageFormatErr ''Parse'' []) else
     bindE (buf_int 2 Uint16 buf) (\<lambda>(parameterOIDCount, buf).
     bindE (repeatE (unat parameterOIDCount) Parse_oid_step buf) (\<lambda>(oids, buf).
       Inr \<lparr>parse_Name = name, parse_Query = query, parse_ParameterOIDs = oids\<rparr>))))"

definition Parse_Encode :: "Parse \<Rightarrow> bytes \<Rightarrow> bytes result" where
  "Parse_Encode src dst =
     (let (dst, sp) = beginMessage dst (chr CHR ''P'');
          dst = dst @ parse_Name src;
          dst = dst @ [0];
          dst = dst @ parse_Query src;
          dst = dst @ [0]
      in if length (parse_ParameterOIDs src) > 65535 then Inl (ErrorsNew ''too many parameter oids'')
         else
           let dst = AppendUint16 dst (of_nat (length (parse_ParameterOIDs src)));
               dst = foldl AppendUint32 dst (parse_ParameterOIDs src)
           in finishMessage dst sp)"

interpretation oids: item_codec be32 Parse_oid_step "\<lambda>_. True"
  by unfold_locales (simp add: Parse_oid_step_def)

lemma Parse_oid_step_safe: "safe (Parse_oid_step b)"
  by (auto simp: Parse_oid_step_def intro: safe_intros)

interpretation parse: message_codec Parse_Encode Parse_Decode "[chr CHR ''P'']"
    "\<lambda>m. parse_Name m @ 0 # parse_Query m @ 0 # be16 (of_nat (length (parse_ParameterOIDs m))) @
         concat (map be32 (parse_ParameterOIDs m))"
    "\<lambda>m. no_nul (parse_Name m) \<and> no_nul (parse_Query m) \<and> length (parse_ParameterOIDs m) \<le> 65535"
  by unfold_locales
    (auto simp: Parse_Encode_def Parse_Decode_def encode_eqs unat_u16_of_nat oids.repeat_put_all
      intro!: safe_intros Parse_oid_step_safe repeatE_safe [where P = "\<lambda>_ _. True"])

text \<open>Go's \<open>bytes.IndexByte\<close> with -1 for no occurrence.\<close>

definition IndexByte_int :: "bytes \<Rightarrow> byte \<Rightarrow> int" where
  "IndexByte_int s b = (case IndexByte s b of None \<Rightarrow> -1 | Some i \<Rightarrow> int i)"

text \<open>\<open>Describe\<close> and \<open>Close\<close> have the same fields and the same code but for the type byte.\<close>

record Describe =
  desc_ObjectType :: byte
  desc_Name :: bytes

definition object_Decode :: "string \<Rightarrow> bytes \<Rightarrow> Describe result" where
  "object_Decode messageType src =
     (if length src < 2 then Inl (InvalidMessageFormatErr messageType [])
      else
        bindE (index src 0) (\<lambda>objectType.
        bindE (slice_from 1 src) (\<lambda>rest.
          let idx = IndexByte_int rest 0 in
          if idx \<noteq> int (length rest) - 1 then Inl (InvalidMessageFormatErr messageType [])
          else bindE (slice_to (length rest - 1) rest) (\<lambda>name.
            Inr \<lparr>desc_ObjectType = objectType, desc_Name = name\<rparr>))))"

definition object_Encode :: "byte \<Rightarrow> Describe \<Rightarrow> bytes \<Rightarrow> bytes result" where
  "object_Encode t src dst =
     (let (dst, sp) = beginMessage dst t;
          dst = dst @ [desc_ObjectType src];
          dst = dst @ desc_Name src;
          dst = dst @ [0]
      in finishMessage dst sp)"

definition Describe_Decode :: "bytes \<Rightarrow> Describe result" where
  "Describe_Decode = object_Decode ''Describe''"
definition Describe_Encode :: "Describe \<Rightarrow> bytes \<Rightarrow> bytes result" where
  "Describe_Encode = object_Encode (chr CHR ''D'')"

definition Close_Decode :: "bytes \<Rightarrow> Describe result" where
  "Close_Decode = object_Decode ''Close''"
definition Close_Encode :: "Describe \<Rightarrow> bytes \<Rightarrow> bytes result" where
  "Close_Encode = object_Encode (chr CHR ''C'')"

lemma IndexByte_int_end [simp]: "no_nul s \<Longrightarrow> IndexByte_int (s @ [0]) 0 = int (length s)"
  by (simp add: IndexByte_int_def)

lemma object_codec:
  "message_codec (object_Encode t) (object_Decode n) [t]
     (\<lambda>m. desc_ObjectType m # desc_Name m @ [0]) (\<lambda>m. no_nul (desc_Name m))"
  by unfold_locales
    (auto simp: object_Encode_def object_Decode_def encode_eqs Suc_le_eq slice_from_Inr intro!: safe_intros)

interpretation describe: message_codec Describe_Encode Describe_Decode "[chr CHR ''D'']"
    "\<lambda>m. desc_ObjectType m # desc_Name m @ [0]" "\<lambda>m. no_nul (desc_Name m)"
  unfolding Describe_Encode_def Describe_Decode_def by (rule object_codec)

interpretation close: message_codec Close_Encode Close_Decode "[chr CHR ''C'']"
    "\<lambda>m. desc_ObjectType m # desc_Name m @ [0]" "\<lambda>m. no_nul (desc_Name m)"
  unfolding Close_Encode_def Close_Decode_def by (rule object_codec)

record Execute =
  exec_Portal :: bytes
  exec_MaxRows :: u32

definition Execute_Decode :: "bytes \<Rightarrow> Execute result" where
  "Execute_Decode src =
     bindE (read_string src) (\<lambda>(portal, buf).
     if length buf < 4 then Inl (InvalidMessageFormatErr ''Execute'' []) else
     bindE (buf_int 4 Uint32 buf) (\<lambda>(maxRows, buf).
       Inr \<lparr>exec_Portal = portal, exec_MaxRows = maxRows\<rparr>))"

definition Execute_Encode :: "Execute \<Rightarrow> bytes \<Rightarrow> bytes result" where
  "Execute_Encode src dst =
     (let (dst, sp) = beginMessage dst (chr CHR ''E'');
          dst = dst @ exec_Portal src;
          dst = dst @ [0];
          dst = AppendUint32 dst (exec_MaxRows src)
      in finishMessage dst sp)"

lemma buf_int_exact [simp]:
  "buf_int 2 Uint16 (be16 x) = Inr (x, [])" "buf_int 4 Uint32 (be32 y) = Inr (y, [])"
  using buf_int_put(1) [of x "[]"] buf_int_put(2) [of y "[]"] by simp_all

interpretation execute: message_codec Execute_Encode Execute_Decode "[chr CHR ''E'']"
    "\<lambda>m. exec_Portal m @ 0 # be32 (exec_MaxRows m)" "\<lambda>m. no_nul (exec_Portal m)"
  by unfold_locales
    (auto simp: Execute_Encode_def Execute_Decode_def encode_eqs intro!: safe_intros)

section \<open>Query, CopyFail, password and SASL messages\<close>

text \<open>\<open>Query\<close> and \<open>CopyFail\<close> hold one string that must fill the body.\<close>

record Query =
  query_String :: bytes

definition whole_string :: "string \<Rightarrow> bytes \<Rightarrow> bytes result" where
  "whole_string messageType src =
     (if length src = 0 then Inl (InvalidMessageFormatErr messageType [])
      else
        let i = IndexByte_int src 0 in
        if i \<noteq> int (length src) - 1 then Inl (InvalidMessageFormatErr messageType [])
        else slice_to (nat i) src)"

definition Query_Decode :: "bytes \<Rightarrow> Query result" where
  "Query_Decode src = bindE (whole_string ''Query'' src) (\<lambda>s. Inr \<lparr>query_String = s\<rparr>)"

definition Query_Encode :: "Query \<Rightarrow> bytes \<Rightarrow> bytes result" where
  "Query_Encode src dst =
     (let (dst, sp) = beginMessage dst (chr CHR ''Q'');
          dst = dst @ query_String src;
          dst = dst @ [0]
      in finishMessage dst sp)"

record CopyFail =
  cf_Message :: bytes

definition CopyFail_Decode :: "bytes \<Rightarrow> CopyFail result" where
  "CopyFail_Decode src = bindE (whole_string ''CopyFail'' src) (\<lambda>s. Inr \<lparr>cf_Message = s\<rparr>)"

definition CopyFail_Encode :: "CopyFail \<Rightarrow> bytes \<Rightarrow> bytes result" where
  "CopyFail_Encode src dst =
     (let (dst, sp) = beginMessage dst (chr CHR ''f'');
          dst = dst @ cf_Message src;
          dst = dst @ [0]
      in finishMessage dst sp)"

lemma whole_string_put [simp]: "no_nul s \<Longrightarrow> whole_string n (s @ [0]) = Inr s"
  by (simp add: whole_string_def Let_def)

lemma whole_string_safe [safe_intros]: "safe (whole_string n src)"
  by (auto simp: whole_string_def slice_to_def Let_def)

interpretation query: message_codec Query_Encode Query_Decode "[chr CHR ''Q'']"
    "\<lambda>m. query_String m @ [0]" "\<lambda>m. no_nul (query_String m)"
  by unfold_locales (auto simp: Query_Encode_def Query_Decode_def encode_eqs intro!: safe_intros)

interpretation copyFail: message_codec CopyFail_Encode CopyFail_Decode "[chr CHR ''f'']"
    "\<lambda>m. cf_Message m @ [0]" "\<lambda>m. no_nul (cf_Message m)"
  by unfold_locales (auto simp: CopyFail_Encode_def CopyFail_Decode_def encode_eqs intro!: safe_intros)

record PasswordMessage =
  pm_Password :: bytes

definition PasswordMessage_Decode :: "bytes \<Rightarrow> PasswordMessage result" where
  "PasswordMessage_Decode src =
     bindE (read_string src) (\<lambda>(p, buf). Inr \<lparr>pm_Password = p\<rparr>)"

definition PasswordMessage_Encode :: "PasswordMessage \<Rightarrow> bytes \<Rightarrow> bytes result" where
  "PasswordMessage_Encode src dst =
     (let (dst, sp) = beginMessage dst (chr CHR ''p'');
          dst = dst @ pm_Password src;
          dst = dst @ [0]
      in finishMessage dst sp)"

record SASLInitialResponse =
  sir_AuthMechanism :: bytes
  sir_Data :: bytes

definition SASLInitialResponse_Decode :: "bytes \<Rightarrow> SASLInitialResponse result" where
  "SASLInitialResponse_Decode src =
     bindE (cut_string (ErrorsNew ''invalid SASLInitialResponse'') src) (\<lambda>(mech, src).
     if length src < 4 then Inl (ErrorsNew ''invalid SASLInitialResponse'') else
     bindE (slice_from 4 src) (\<lambda>d. Inr \<lparr>sir_AuthMechanism = mech, sir_Data = d\<rparr>))"

definition SASLInitialResponse_Encode :: "SASLInitialResponse \<Rightarrow> bytes \<Rightarrow> bytes result" where
  "SASLInitialResponse_Encode src dst =
     (let (dst, sp) = beginMessage dst (chr CHR ''p'');
          dst = dst @ sir_AuthMechanism src;
          dst = dst @ [0];
          dst = AppendInt32 dst (of_nat (length (sir_Data src)));
          dst = dst @ sir_Data src
      in finishMessage dst sp)"

record SASLResponse =
  sr_Data :: bytes

definition SASLResponse_Decode :: "bytes \<Rightarrow> SASLResponse result" where
  "SASLResponse_Decode src = Inr \<lparr>sr_Data = src\<rparr>"

definition SASLResponse_Encode :: "SASLResponse \<Rightarrow> bytes \<Rightarrow> bytes result" where
  "SASLResponse_Encode src dst =
     (let (dst, sp) = beginMessage dst (chr CHR ''p'');
          dst = dst @ sr_Data src
      in finishMessage dst sp)"

record GSSResponse =
  gr_Data :: bytes

definition GSSResponse_Decode :: "bytes \<Rightarrow> GSSResponse result" where
  "GSSResponse_Decode src = Inr \<lparr>gr_Data = src\<rparr>"

definition GSSResponse_Encode :: "GSSResponse \<Rightarrow> bytes \<Rightarrow> bytes result" where
  "GSSResponse_Encode g dst =
     (let (dst, sp) = beginMessage dst (chr CHR ''p'');
          dst = dst @ gr_Data g
      in finishMessage dst sp)"

lemmas p_defs = PasswordMessage_Decode_def PasswordMessage_Encode_def
  SASLInitialResponse_Decode_def SASLInitialResponse_Encode_def
  SASLResponse_Decode_def SASLResponse_Encode_def GSSResponse_Decode_def GSSResponse_Encode_def

interpretation passwordMessage: message_codec PasswordMessage_Encode PasswordMessage_Decode
    "[chr CHR ''p'']" "\<lambda>m. pm_Password m @ [0]" "\<lambda>m. no_nul (pm_Password m)"
  by unfold_locales (auto simp: p_defs encode_eqs intro!: safe_intros)

interpretation saslInitialResponse: message_codec SASLInitialResponse_Encode SASLInitialResponse_Decode
    "[chr CHR ''p'']" "\<lambda>m. sir_AuthMechanism m @ 0 # be32 (of_nat (length (sir_Data m))) @ sir_Data m"
    "\<lambda>m. no_nul (sir_AuthMechanism m)"
  by unfold_locales (auto simp: p_defs encode_eqs intro!: safe_intros)

interpretation saslResponse: message_codec SASLResponse_Encode SASLResponse_Decode
    "[chr CHR ''p'']" sr_Data "\<lambda>_. True"
  by unfold_locales (auto simp: p_defs encode_eqs)

interpretation gssResponse: message_codec GSSResponse_Encode GSSResponse_Decode
    "[chr CHR ''p'']" gr_Data "\<lambda>_. True"
  by unfold_locales (auto simp: p_defs encode_eqs)

section \<open>FunctionCall\<close>

record FunctionCall =
  fc_Function :: u32
  fc_ArgFormatCodes :: "u16 list"
  fc_Arguments :: "bytes option list"
  fc_ResultFormatCode :: u16

text \<open>One iteration of the loop over the argument format codes.\<close>

definition FunctionCall_code_step :: "bytes \<Rightarrow> (u16 \<times> bytes) result" where
  "FunctionCall_code_step src =
     bindE (Uint16 src) (\<lambda>ac.
       if ac \<noteq> 0 \<and> ac \<noteq> 1 then Inl (InvalidMessageFormatErr ''FunctionCall'' [])
       else bindE (slice_from 2 src) (\<lambda>src'. Inr (ac, src')))"

definition FunctionCall_Decode :: "bytes \<Rightarrow> FunctionCall result" where
  "FunctionCall_Decode src =
     (let err = InvalidMessageFormatErr ''FunctionCall'' [] in
      if length src < 8 then Inl err else
      bindE (read_int 4 Uint32 src) (\<lambda>(function, src).
      bindE (read_int 2 Uint16 src) (\<lambda>(nArgumentCodes, src).
      if length src < unat nArgumentCodes * 2 + 2 then Inl err else
      bindE (repeatE (unat nArgumentCodes) FunctionCall_code_step src) (\<lambda>(argumentCodes, src).
      bindE (read_int 2 Uint16 src) (\<lambda>(nArguments, src).
      bindE (repeatE (unat nArguments) (read_value err) src) (\<lambda>(arguments, src).
      if length src < 2 then Inl err else
      bindE (Uint16 src) (\<lambda>resultFormatCode.
      if resultFormatCode \<noteq> 0 \<and> resultFormatCode \<noteq> 1 then Inl err else
        Inr \<lparr>fc_Function = function, fc_ArgFormatCodes = argumentCodes,
             fc_Arguments = arguments, fc_ResultFormatCode = resultFormatCode\<rparr>)))))))"

definition FunctionCall_Encode :: "FunctionCall \<Rightarrow> bytes \<Rightarrow> bytes result" where
  "FunctionCall_Encode src dst =
     (let (dst, sp) = beginMessage dst (chr CHR ''F'');
          dst = AppendUint32 dst (fc_Function src)
      in
        if length (fc_ArgFormatCodes src) > 65535 then Inl (ErrorsNew ''too many arg format codes'')
        else
          let dst = AppendUint16 dst (of_nat (length (fc_ArgFormatCodes src)));
              dst = foldl AppendUint16 dst (fc_ArgFormatCodes src)
          in
            if length (fc_Arguments src) > 65535 then Inl (ErrorsNew ''too many arguments'')
            else
              let dst = AppendUint16 dst (of_nat (length (fc_Arguments src)));
                  dst = foldl AppendValue dst (fc_Arguments src);
                  dst = AppendUint16 dst (fc_ResultFormatCode src)
              in finishMessage dst sp)"

definition wf_FunctionCall :: "FunctionCall \<Rightarrow> bool" where
  "wf_FunctionCall m \<longleftrightarrow>
     length (fc_ArgFormatCodes m) \<le> 65535 \<and> (\<forall>c\<in>set (fc_ArgFormatCodes m). c = 0 \<or> c = 1) \<and>
     length (fc_Arguments m) \<le> 65535 \<and> (\<forall>v\<in>set (fc_Arguments m). wf_value v) \<and>
     (fc_ResultFormatCode m = 0 \<or> fc_ResultFormatCode m = 1)"

definition FunctionCall_body :: "FunctionCall \<Rightarrow> bytes" where
  "FunctionCall_body m =
     be32 (fc_Function m) @
     be16 (of_nat (length (fc_ArgFormatCodes m))) @ concat (map be16 (fc_ArgFormatCodes m)) @
     be16 (of_nat (length (fc_Arguments m))) @ concat (map put_value (fc_Arguments m)) @
     be16 (fc_ResultFormatCode m)"

interpretation fcodes: item_codec be16 FunctionCall_code_step "\<lambda>c. c = 0 \<or> c = 1"
  by unfold_locales (auto simp: FunctionCall_code_step_def)

lemma FunctionCall_code_step_InrD:
  "FunctionCall_code_step src = Inr (x, src') \<Longrightarrow> src' = drop 2 src"
  by (auto simp: FunctionCall_code_step_def bindE_Inr_iff slice_from_Inr split: if_splits)

lemma repeat_code_step_rest:
  "repeatE n FunctionCall_code_step src = Inr (xs, src') \<Longrightarrow> src' = drop (2 * n) src"
proof (induction n arbitrary: src xs)
  case 0
  then show ?case by simp
next
  case (Suc n)
  then obtain x s1 ys where "FunctionCall_code_step src = Inr (x, s1)"
    and "repeatE n FunctionCall_code_step s1 = Inr (ys, src')"
    by (auto simp: bindE_Inr_iff split: prod.splits)
  then have "src' = drop (2 * n) s1" and "s1 = drop 2 src"
    using Suc.IH [of s1 ys] by (auto dest: FunctionCall_code_step_InrD)
  then show ?case by simp
qed

lemma repeat_code_step_safe:
  "n * 2 \<le> length src \<Longrightarrow> safe (repeatE n FunctionCall_code_step src)"
  by (rule repeatE_safe [where P = "\<lambda>m s. m * 2 \<le> length s"])
    (auto simp: FunctionCall_code_step_def intro!: safe_intros i16.get_safe
      dest!: FunctionCall_code_step_InrD [unfolded FunctionCall_code_step_def])

lemma FunctionCall_encode:
  "wf_FunctionCall m \<Longrightarrow> FunctionCall_Encode m dst = frame dst [chr CHR ''F''] (FunctionCall_body m)"
  by (simp add: FunctionCall_Encode_def FunctionCall_body_def wf_FunctionCall_def encode_eqs
      foldl_AppendValue)

lemma FunctionCall_decode: "wf_FunctionCall m \<Longrightarrow> FunctionCall_Decode (FunctionCall_body m) = Inr m"
  by (auto simp add: FunctionCall_Decode_def FunctionCall_body_def wf_FunctionCall_def Let_def
      unat_u16_of_nat fcodes.repeat_put vals.repeat_put)

lemma FunctionCall_decode_safe: "safe (FunctionCall_Decode src)"
  unfolding FunctionCall_Decode_def Let_def
  by (auto intro!: safe_intros i32.next_item_safe i16.next_item_safe i16.get_safe repeat_code_step_safe
      repeatE_safe [where P = "\<lambda>_ _. True"] dest!: i32.next_item_InrD repeat_code_step_rest
      split: prod.splits)

interpretation functionCall: message_codec FunctionCall_Encode FunctionCall_Decode
    "[chr CHR ''F'']" FunctionCall_body wf_FunctionCall
  by unfold_locales (rule FunctionCall_encode FunctionCall_decode FunctionCall_decode_safe, assumption?)+

section \<open>Start-up packets\<close>

text \<open>
  The packets of \<open>startup_message.go\<close>, \<open>ssl_request.go\<close>, \<open>gss_enc_request.go\<close> and
  \<open>cancel_request.go\<close> have a length but no type byte. The parameters are a Go map, kept as
  an association list in iteration order.
\<close>

definition ProtocolVersion30 :: u32 where "ProtocolVersion30 = 196608"
definition ProtocolVersion32 :: u32 where "ProtocolVersion32 = 196610"
definition sslRequestNumber :: u32 where "sslRequestNumber = 80877103"
definition gssEncReqNumber :: u32 where "gssEncReqNumber = 80877104"
definition cancelRequestCode :: u32 where "cancelRequestCode = 80877102"

lemmas startup_codes = ProtocolVersion30_def ProtocolVersion32_def sslRequestNumber_def
  gssEncReqNumber_def cancelRequestCode_def

record StartupMessage =
  sm_ProtocolVersion :: u32
  sm_Parameters :: "(bytes \<times> bytes) list"

function StartupMessage_loop :: "bytes \<Rightarrow> (bytes \<times> bytes) list \<Rightarrow> (bytes \<times> bytes) list result" where
  "StartupMessage_loop src params =
     bindE (cut_string (InvalidMessageFormatErr ''StartupMessage'' []) src) (\<lambda>(key, src').
     bindE (cut_string (InvalidMessageFormatErr ''StartupMessage'' []) src') (\<lambda>(val, src'').
       let params' = AList.update key val params in
       if length src'' = 1 then
         bindE (index src'' 0) (\<lambda>b.
           if b \<noteq> 0 then Inl (ErrorsNew ''Bad startup message last byte'') else Inr params')
       else StartupMessage_loop src'' params'))"
  by pat_completeness auto
termination
  by (relation "measure (length \<circ> fst)") (force dest: cut_string_shorter)+

declare StartupMessage_loop.simps [simp del]

definition StartupMessage_Decode :: "bytes \<Rightarrow> StartupMessage result" where
  "StartupMessage_Decode src =
     (if length src < 4 then Inl (ErrorsNew ''startup message too short'')
      else bindE (read_int 4 Uint32 src) (\<lambda>(version, src).
        if version \<noteq> ProtocolVersion30 \<and> version \<noteq> ProtocolVersion32 then
          Inl (ErrorsNew ''Bad startup message version number'')
        else bindE (StartupMessage_loop src []) (\<lambda>params.
          Inr \<lparr>sm_ProtocolVersion = version, sm_Parameters = params\<rparr>)))"

definition StartupMessage_Encode :: "StartupMessage \<Rightarrow> bytes \<Rightarrow> bytes result" where
  "StartupMessage_Encode src dst =
     (let sp = length dst;
          dst = AppendInt32 dst (-1);
          dst = AppendUint32 dst (sm_ProtocolVersion src);
          dst = foldl (\<lambda>dst (k, v). (((dst @ k) @ [0]) @ v) @ [0]) dst (sm_Parameters src);
          dst = dst @ [0]
      in finishMessage dst sp)"

definition SSLRequest_Decode :: "bytes \<Rightarrow> unit result" where
  "SSLRequest_Decode src =
     (if length src < 4 then Inl (ErrorsNew ''ssl request too short'')
      else bindE (Uint32 src) (\<lambda>requestCode.
        if requestCode \<noteq> sslRequestNumber then Inl (ErrorsNew ''bad ssl request code'') else Inr ()))"

definition SSLRequest_Encode :: "unit \<Rightarrow> bytes \<Rightarrow> bytes result" where
  "SSLRequest_Encode u dst =
     (let dst = AppendInt32 dst 8; dst = AppendInt32 dst sslRequestNumber in Inr dst)"

definition GSSEncRequest_Decode :: "bytes \<Rightarrow> unit result" where
  "GSSEncRequest_Decode src =
     (if length src < 4 then Inl (ErrorsNew ''gss encoding request too short'')
      else bindE (Uint32 src) (\<lambda>requestCode.
        if requestCode \<noteq> gssEncReqNumber then Inl (ErrorsNew ''bad gss encoding request code'')
        else Inr ()))"

definition GSSEncRequest_Encode :: "unit \<Rightarrow> bytes \<Rightarrow> bytes result" where
  "GSSEncRequest_Encode u dst =
     (let dst = AppendInt32 dst 8; dst = AppendInt32 dst gssEncReqNumber in Inr dst)"

record CancelRequest =
  cnr_ProcessID :: u32
  cnr_SecretKey :: bytes

definition CancelRequest_Decode :: "bytes \<Rightarrow> CancelRequest result" where
  "CancelRequest_Decode src =
     (if length src < 12 then Inl (ErrorsNew ''cancel request too short'')
      else if length src > 264 then Inl (ErrorsNew ''cancel request too long'')
      else bindE (Uint32 src) (\<lambda>requestCode.
        if requestCode \<noteq> cancelRequestCode then Inl (ErrorsNew ''bad cancel request code'')
        else bindE (slice_from 4 src) (\<lambda>src4. bindE (Uint32 src4) (\<lambda>pid.
          bindE (slice_from 8 src) (\<lambda>key.
            Inr \<lparr>cnr_ProcessID = pid, cnr_SecretKey = key\<rparr>)))))"

definition CancelRequest_Encode :: "CancelRequest \<Rightarrow> bytes \<Rightarrow> bytes result" where
  "CancelRequest_Encode src dst =
     (if length (cnr_SecretKey src) > 256 then Inl (ErrorsNew ''secret key too long'')
      else
        let msgLen = of_nat (12 + length (cnr_SecretKey src));
            dst = AppendInt32 dst msgLen;
            dst = AppendInt32 dst cancelRequestCode;
            dst = AppendUint32 dst (cnr_ProcessID src);
            dst = dst @ cnr_SecretKey src
        in Inr dst)"

text \<open>
  A start-up message with no parameters is not well-formed for \<open>Decode\<close>: its loop wants at
  least one key and value before the final NUL.
\<close>

definition wf_StartupMessage :: "StartupMessage \<Rightarrow> bool" where
  "wf_StartupMessage m \<longleftrightarrow>
     (sm_ProtocolVersion m = ProtocolVersion30 \<or> sm_ProtocolVersion m = ProtocolVersion32) \<and>
     sm_Parameters m \<noteq> [] \<and> distinct (map fst (sm_Parameters m)) \<and>
     (\<forall>(k, v)\<in>set (sm_Parameters m). no_nul k \<and> no_nul v)"

definition put_param :: "bytes \<times> bytes \<Rightarrow> bytes" where
  "put_param kv = fst kv @ 0 # snd kv @ [0]"

definition StartupMessage_body :: "StartupMessage \<Rightarrow> bytes" where
  "StartupMessage_body m =
     be32 (sm_ProtocolVersion m) @ concat (map put_param (sm_Parameters m)) @ [0]"

lemma StartupMessage_loop_put:
  assumes "kvs \<noteq> []" and "\<forall>(k, v)\<in>set kvs. no_nul k \<and> no_nul v"
    and "distinct (map fst (params @ kvs))"
  shows "StartupMessage_loop (concat (map put_param kvs) @ [0]) params
    = Inr (params @ kvs)"
  using assms
proof (induction kvs arbitrary: params)
  case Nil
  then show ?case by simp
next
  case (Cons kv kvs)
  obtain k v where kv: "kv = (k, v)" by fastforce
  have fresh: "AList.update k v params = params @ [(k, v)]"
    using Cons.prems by (intro update_fresh) (auto simp: kv)
  show ?case
  proof (cases "kvs = []")
    case True
    then show ?thesis
      using Cons.prems fresh by (subst StartupMessage_loop.simps) (simp add: kv put_param_def)
  next
    case False
    then have "concat (map put_param kvs) \<noteq> []"
      by (cases kvs) (auto simp: put_param_def)
    then show ?thesis
      using Cons.prems Cons.IH [of "params @ [(k, v)]"] False fresh
      by (subst StartupMessage_loop.simps)
        (simp add: kv Let_def put_param_def [of "(k, v)"] del: concat_eq_Nil_conv)
  qed
qed

lemma StartupMessage_loop_safe: "safe (StartupMessage_loop src params)"
proof (induction src params rule: StartupMessage_loop.induct)
  case (1 src params)
  then show ?case
    by (subst StartupMessage_loop.simps) (auto simp: Let_def intro!: safe_intros)
qed

lemma foldl_params:
  "foldl (\<lambda>dst (k, v). dst @ k @ 0 # v @ [0]) dst kvs = dst @ concat (map put_param kvs)"
  by (rule foldl_append) (auto simp: put_param_def)

lemma StartupMessage_encode: "StartupMessage_Encode m dst = frame dst [] (StartupMessage_body m)"
  using finishMessage_frame [of dst "[]" "-1" "StartupMessage_body m"]
  by (simp add: StartupMessage_Encode_def StartupMessage_body_def encode_eqs foldl_params)

interpretation startupMessage: message_codec StartupMessage_Encode StartupMessage_Decode
    "[]" StartupMessage_body wf_StartupMessage
  by unfold_locales
    (auto simp: StartupMessage_encode StartupMessage_body_def StartupMessage_Decode_def
      wf_StartupMessage_def StartupMessage_loop_put
      intro!: safe_intros i32.next_item_safe StartupMessage_loop_safe)

interpretation sslRequest: message_codec SSLRequest_Encode SSLRequest_Decode
    "[]" "\<lambda>_. be32 sslRequestNumber" "\<lambda>_. True"
  by unfold_locales
    (auto simp: SSLRequest_Encode_def SSLRequest_Decode_def frame_def maxMessageBodyLen_def encode_eqs
      intro!: safe_intros i32.get_safe)

interpretation gssEncRequest: message_codec GSSEncRequest_Encode GSSEncRequest_Decode
    "[]" "\<lambda>_. be32 gssEncReqNumber" "\<lambda>_. True"
  by unfold_locales
    (auto simp: GSSEncRequest_Encode_def GSSEncRequest_Decode_def frame_def maxMessageBodyLen_def
      encode_eqs intro!: safe_intros i32.get_safe)

interpretation cancelRequest: message_codec CancelRequest_Encode CancelRequest_Decode
    "[]" "\<lambda>m. be32 cancelRequestCode @ be32 (cnr_ProcessID m) @ cnr_SecretKey m"
    "\<lambda>m. 4 \<le> length (cnr_SecretKey m) \<and> length (cnr_SecretKey m) \<le> 256"
  by unfold_locales
    (auto simp: CancelRequest_Encode_def CancelRequest_Decode_def frame_def maxMessageBodyLen_def
      encode_eqs add.commute intro!: safe_intros i32.get_safe)

end
