(* ===== verification/Proto_Frontend.thy ===== *)
theory Proto_Frontend
  imports Proto_Endpoint Proto_Error_Msg Proto_Frontend_Msgs
begin

text \<open>
  The client end of the protocol, \<open>pgproto3/frontend.go\<close>: the messages it receives as one
  datatype (the values of the interface \<open>BackendMessage\<close>), the choice of the decoder by the
  type byte and, for authentication messages, by the code in the body, and \<open>Receive\<close>.
\<close>

section \<open>The messages of the server\<close>

datatype BackendMessage =
    BM_ParseComplete
  | BM_BindComplete
  | BM_CloseComplete
  | BM_NotificationResponse NotificationResponse
  | BM_CopyDone
  | BM_CommandComplete CommandComplete
  | BM_CopyData CopyData
  | BM_DataRow "bytes option list"
  | BM_ErrorResponse ErrorResponse
  | BM_CopyInResponse CopyResponse
  | BM_CopyOutResponse CopyResponse
  | BM_EmptyQueryResponse
  | BM_BackendKeyData BackendKeyData
  | BM_NoData
  | BM_NoticeResponse ErrorResponse
  | BM_AuthenticationOk
  | BM_AuthenticationCleartextPassword
  | BM_AuthenticationMD5Password AuthenticationMD5Password
  | BM_AuthenticationGSS
  | BM_AuthenticationGSSContinue AuthenticationGSSContinue
  | BM_AuthenticationSASL AuthenticationSASL
  | BM_AuthenticationSASLContinue AuthenticationSASLContinue
  | BM_AuthenticationSASLFinal AuthenticationSASLFinal
  | BM_PortalSuspended
  | BM_ParameterStatus ParameterStatus
  | BM_ParameterDescription ParameterDescription
  | BM_RowDescription RowDescription
  | BM_FunctionCallResponse FunctionCallResponse
  | BM_CopyBothResponse CopyResponse
  | BM_ReadyForQuery ReadyForQuery
  | BM_NegotiateProtocolVersion NegotiateProtocolVersion

fun BackendMessage_Encode :: "BackendMessage \<Rightarrow> bytes \<Rightarrow> bytes result" where
  "BackendMessage_Encode BM_ParseComplete = ParseComplete_Encode ()"
| "BackendMessage_Encode BM_BindComplete = BindComplete_Encode ()"
| "BackendMessage_Encode BM_CloseComplete = CloseComplete_Encode ()"
| "BackendMessage_Encode (BM_NotificationResponse m) = NotificationResponse_Encode m"
| "BackendMessage_Encode BM_CopyDone = CopyDone_Encode ()"
| "BackendMessage_Encode (BM_CommandComplete m) = CommandComplete_Encode m"
| "BackendMessage_Encode (BM_CopyData m) = CopyData_Encode m"
| "BackendMessage_Encode (BM_DataRow vs) = DataRow_Encode vs"
| "BackendMessage_Encode (BM_ErrorResponse m) = ErrorResponse_Encode m"
| "BackendMessage_Encode (BM_CopyInResponse m) = CopyInResponse_Encode m"
| "BackendMessage_Encode (BM_CopyOutResponse m) = CopyOutResponse_Encode m"
| "BackendMessage_Encode BM_EmptyQueryResponse = EmptyQueryResponse_Encode ()"
| "BackendMessage_Encode (BM_BackendKeyData m) = BackendKeyData_Encode m"
| "BackendMessage_Encode BM_NoData = NoData_Encode ()"
| "BackendMessage_Encode (BM_NoticeResponse m) = NoticeResponse_Encode m"
| "BackendMessage_Encode BM_AuthenticationOk = AuthenticationOk_Encode ()"
| "BackendMessage_Encode BM_AuthenticationCleartextPassword = AuthenticationCleartextPassword_Encode ()"
| "BackendMessage_Encode (BM_AuthenticationMD5Password m) = AuthenticationMD5Password_Encode m"
| "BackendMessage_Encode BM_AuthenticationGSS = AuthenticationGSS_Encode ()"
| "BackendMessage_Encode (BM_AuthenticationGSSContinue m) = AuthenticationGSSContinue_Encode m"
| "BackendMessage_Encode (BM_AuthenticationSASL m) = AuthenticationSASL_Encode m"
| "BackendMessage_Encode (BM_AuthenticationSASLContinue m) = AuthenticationSASLContinue_Encode m"
| "BackendMessage_Encode (BM_AuthenticationSASLFinal m) = AuthenticationSASLFinal_Encode m"
| "BackendMessage_Encode BM_PortalSuspended = PortalSuspended_Encode ()"
| "BackendMessage_Encode (BM_ParameterStatus m) = ParameterStatus_Encode m"
| "BackendMessage_Encode (BM_ParameterDescription m) = ParameterDescription_Encode m"
| "BackendMessage_Encode (BM_RowDescription m) = RowDescription_Encode m"
| "BackendMessage_Encode (BM_FunctionCallResponse m) = FunctionCallResponse_Encode m"
| "BackendMessage_Encode (BM_CopyBothResponse m) = CopyBothResponse_Encode m"
| "BackendMessage_Encode (BM_ReadyForQuery m) = ReadyForQuery_Encode m"
| "BackendMessage_Encode (BM_NegotiateProtocolVersion m) = NegotiateProtocolVersion_Encode m"

text \<open>The messages that their encoding determines: no NUL in strings, counts within their fields.\<close>

fun wf_BackendMessage :: "BackendMessage \<Rightarrow> bool" where
  "wf_BackendMessage (BM_NotificationResponse m) \<longleftrightarrow> no_nul (nr_Channel m) \<and> no_nul (nr_Payload m)"
| "wf_BackendMessage (BM_CommandComplete m) \<longleftrightarrow> no_nul (cc_CommandTag m)"
| "wf_BackendMessage (BM_DataRow vs) \<longleftrightarrow> length vs \<le> 65535 \<and> (\<forall>v\<in>set vs. wf_value v)"
| "wf_BackendMessage (BM_ErrorResponse m) \<longleftrightarrow> wf_ErrorResponse m"
| "wf_BackendMessage (BM_NoticeResponse m) \<longleftrightarrow> wf_ErrorResponse m"
| "wf_BackendMessage (BM_CopyInResponse m) \<longleftrightarrow> length (cr_ColumnFormatCodes m) \<le> 65535"
| "wf_BackendMessage (BM_CopyOutResponse m) \<longleftrightarrow> length (cr_ColumnFormatCodes m) \<le> 65535"
| "wf_BackendMessage (BM_CopyBothResponse m) \<longleftrightarrow> length (cr_ColumnFormatCodes m) \<le> 65535"
| "wf_BackendMessage (BM_BackendKeyData m) \<longleftrightarrow> 4 \<le> length (bkd_SecretKey m)"
| "wf_BackendMessage (BM_AuthenticationMD5Password m) \<longleftrightarrow> length (md5_Salt m) = 4"
| "wf_BackendMessage (BM_AuthenticationSASL m) \<longleftrightarrow> (\<forall>s\<in>set (sasl_AuthMechanisms m). no_nul s)"
| "wf_BackendMessage (BM_ParameterStatus m) \<longleftrightarrow> no_nul (ps_Name m) \<and> no_nul (ps_Value m)"
| "wf_BackendMessage (BM_ParameterDescription m) \<longleftrightarrow> length (pd_ParameterOIDs m) \<le> 65535"
| "wf_BackendMessage (BM_RowDescription m) \<longleftrightarrow>
     length (rd_Fields m) \<le> 65535 \<and> (\<forall>fd\<in>set (rd_Fields m). no_nul (fd_Name fd))"
| "wf_BackendMessage (BM_FunctionCallResponse m) \<longleftrightarrow> wf_value (fcr_Result m)"
| "wf_BackendMessage (BM_NegotiateProtocolVersion m) \<longleftrightarrow>
     length (npv_UnrecognizedOptions m) < 2 ^ 32 \<and> (\<forall>s\<in>set (npv_UnrecognizedOptions m). no_nul s)"
| "wf_BackendMessage _ \<longleftrightarrow> True"

section \<open>The client\<close>

text \<open>
  Of the message flyweights of \<open>Frontend\<close>, only that of \<open>DataRow\<close> is read before it is
  overwritten (its array is reused), so it is the one kept in the state.
\<close>

record 'r Frontend = "'r endpoint" +
  fe_dataRow :: DataRow

definition NewFrontend :: "reader \<Rightarrow> writer \<Rightarrow> pools \<Rightarrow> chunkReader Frontend result" where
  "NewFrontend r w ps =
     bindE (newChunkReader r 0 ps) (\<lambda>cr.
       Inr \<lparr>ep_cr = cr, ep_w = w, ep_wbuf = [], ep_encodeError = None, ep_bodyLen = 0,
            ep_maxBodyLen = int maxMessageBodyLen, ep_msgType = 0, ep_partialMsg = False,
            ep_authType = 0, fe_dataRow = \<lparr>dr_array = [], dr_len = 0\<rparr>\<rparr>)"

definition Frontend_SetMaxBodyLen :: "int \<Rightarrow> 'r Frontend \<Rightarrow> 'r Frontend" where
  "Frontend_SetMaxBodyLen n f = f\<lparr>ep_maxBodyLen := n\<rparr>"

text \<open>The decoder of each authentication message, chosen by its code.\<close>

definition findAuthenticationMessageType ::
  "bytes \<Rightarrow> 'r Frontend \<Rightarrow> (bytes \<Rightarrow> BackendMessage result) result \<times> 'r Frontend" where
  "findAuthenticationMessageType src f =
     (if length src < 4 then (Inl (ErrorsNew ''authentication message too short''), f)
      else case bindE (slice_to 4 src) Uint32 of
        Inl e \<Rightarrow> (Inl e, f)
      | Inr t \<Rightarrow>
          (if t = AuthTypeOk then Inr (\<lambda>b. bindE (AuthenticationOk_Decode b) (\<lambda>_. Inr BM_AuthenticationOk))
           else if t = AuthTypeCleartextPassword then
             Inr (\<lambda>b. bindE (AuthenticationCleartextPassword_Decode b)
                       (\<lambda>_. Inr BM_AuthenticationCleartextPassword))
           else if t = AuthTypeMD5Password then
             Inr (\<lambda>b. bindE (AuthenticationMD5Password_Decode b) (Inr \<circ> BM_AuthenticationMD5Password))
           else if t = AuthTypeSCMCreds then Inl (ErrorsNew ''AuthTypeSCMCreds is unimplemented'')
           else if t = AuthTypeGSS then
             Inr (\<lambda>b. bindE (AuthenticationGSS_Decode b) (\<lambda>_. Inr BM_AuthenticationGSS))
           else if t = AuthTypeGSSCont then
             Inr (\<lambda>b. bindE (AuthenticationGSSContinue_Decode b) (Inr \<circ> BM_AuthenticationGSSContinue))
           else if t = AuthTypeSSPI then Inl (ErrorsNew ''AuthTypeSSPI is unimplemented'')
           else if t = AuthTypeSASL then
             Inr (\<lambda>b. bindE (AuthenticationSASL_Decode b) (Inr \<circ> BM_AuthenticationSASL))
           else if t = AuthTypeSASLContinue then
             Inr (\<lambda>b. bindE (AuthenticationSASLContinue_Decode b) (Inr \<circ> BM_AuthenticationSASLContinue))
           else if t = AuthTypeSASLFinal then
             Inr (\<lambda>b. bindE (AuthenticationSASLFinal_Decode b) (Inr \<circ> BM_AuthenticationSASLFinal))
           else Inl (Errorf ''unknown authentication type: %d'' (uint t)),
           f\<lparr>ep_authType := t\<rparr>))"

text \<open>The decoder of a message with no state of its own, chosen by the type byte.\<close>

definition backend_decoder :: "byte \<Rightarrow> (bytes \<Rightarrow> BackendMessage result) option" where
  "backend_decoder t =
     (if t = chr CHR ''1'' then Some (\<lambda>b. bindE (ParseComplete_Decode b) (\<lambda>_. Inr BM_ParseComplete))
      else if t = chr CHR ''2'' then Some (\<lambda>b. bindE (BindComplete_Decode b) (\<lambda>_. Inr BM_BindComplete))
      else if t = chr CHR ''3'' then Some (\<lambda>b. bindE (CloseComplete_Decode b) (\<lambda>_. Inr BM_CloseComplete))
      else if t = chr CHR ''A'' then
        Some (\<lambda>b. bindE (NotificationResponse_Decode b) (Inr \<circ> BM_NotificationResponse))
      else if t = chr CHR ''c'' then Some (\<lambda>b. bindE (CopyDone_Decode b) (\<lambda>_. Inr BM_CopyDone))
      else if t = chr CHR ''C'' then Some (\<lambda>b. bindE (CommandComplete_Decode b) (Inr \<circ> BM_CommandComplete))
      else if t = chr CHR ''d'' then Some (\<lambda>b. bindE (CopyData_Decode b) (Inr \<circ> BM_CopyData))
      else if t = chr CHR ''E'' then Some (\<lambda>b. bindE (ErrorResponse_Decode b) (Inr \<circ> BM_ErrorResponse))
      else if t = chr CHR ''G'' then Some (\<lambda>b. bindE (CopyInResponse_Decode b) (Inr \<circ> BM_CopyInResponse))
      else if t = chr CHR ''H'' then Some (\<lambda>b. bindE (CopyOutResponse_Decode b) (Inr \<circ> BM_CopyOutResponse))
      else if t = chr CHR ''I'' then
        Some (\<lambda>b. bindE (EmptyQueryResponse_Decode b) (\<lambda>_. Inr BM_EmptyQueryResponse))
      else if t = chr CHR ''K'' then Some (\<lambda>b. bindE (BackendKeyData_Decode b) (Inr \<circ> BM_BackendKeyData))
      else if t = chr CHR ''n'' then Some (\<lambda>b. bindE (NoData_Decode b) (\<lambda>_. Inr BM_NoData))
      else if t = chr CHR ''N'' then Some (\<lambda>b. bindE (NoticeResponse_Decode b) (Inr \<circ> BM_NoticeResponse))
      else if t = chr CHR ''s'' then Some (\<lambda>b. bindE (PortalSuspended_Decode b) (\<lambda>_. Inr BM_PortalSuspended))
      else if t = chr CHR ''S'' then Some (\<lambda>b. bindE (ParameterStatus_Decode b) (Inr \<circ> BM_ParameterStatus))
      else if t = chr CHR ''t'' then
        Some (\<lambda>b. bindE (ParameterDescription_Decode b) (Inr \<circ> BM_ParameterDescription))
      else if t = chr CHR ''T'' then Some (\<lambda>b. bindE (RowDescription_Decode b) (Inr \<circ> BM_RowDescription))
      else if t = chr CHR ''V'' then
        Some (\<lambda>b. bindE (FunctionCallResponse_Decode b) (Inr \<circ> BM_FunctionCallResponse))
      else if t = chr CHR ''W'' then Some (\<lambda>b. bindE (CopyBothResponse_Decode b) (Inr \<circ> BM_CopyBothResponse))
      else if t = chr CHR ''Z'' then Some (\<lambda>b. bindE (ReadyForQuery_Decode b) (Inr \<circ> BM_ReadyForQuery))
      else if t = chr CHR ''v'' then
        Some (\<lambda>b. bindE (NegotiateProtocolVersion_Decode b) (Inr \<circ> BM_NegotiateProtocolVersion))
      else None)"

definition Frontend_decode :: "byte \<Rightarrow> bytes \<Rightarrow> 'r Frontend \<Rightarrow> BackendMessage result \<times> 'r Frontend" where
  "Frontend_decode t msgBody f =
     (if t = chr CHR ''D'' then
        (case DataRow_Decode (fe_dataRow f) msgBody of
           (Some e, dr) \<Rightarrow> (Inl e, f\<lparr>fe_dataRow := dr\<rparr>)
         | (None, dr) \<Rightarrow> (Inr (BM_DataRow (DataRow_Values dr)), f\<lparr>fe_dataRow := dr\<rparr>))
      else if t = chr CHR ''R'' then
        (case findAuthenticationMessageType msgBody f of
           (Inl e, f') \<Rightarrow> (Inl e, f')
         | (Inr dec, f') \<Rightarrow> (dec msgBody, f'))
      else (case backend_decoder t of
          None \<Rightarrow> (Inl (Errorf ''unknown message type: %c'' (uint t)), f)
        | Some dec \<Rightarrow> (dec msgBody, f)))"

definition Frontend_Receive ::
  "(nat \<Rightarrow> 'r \<Rightarrow> bytes result \<times> 'r) \<Rightarrow> 'r Frontend \<Rightarrow> BackendMessage result \<times> 'r Frontend" where
  "Frontend_Receive nxt f =
     (case receive_header nxt f of
        (Some err, f1) \<Rightarrow> (Inl err, f1)
      | (None, f1) \<Rightarrow>
          (case receive_body nxt f1 of
             (Inl err, f2) \<Rightarrow> (Inl err, f2)
           | (Inr msgBody, f2) \<Rightarrow> Frontend_decode (ep_msgType f2) msgBody f2))"

section \<open>Decoding\<close>

lemmas backend_decode_safe =
  parseComplete.decode_safe bindComplete.decode_safe closeComplete.decode_safe
  notificationResponse.decode_safe copyDone.decode_safe commandComplete.decode_safe
  copyData.decode_safe errorResponse.decode_safe copyInResponse.decode_safe
  copyOutResponse.decode_safe emptyQueryResponse.decode_safe backendKeyData.decode_safe
  noData.decode_safe noticeResponse.decode_safe portalSuspended.decode_safe
  parameterStatus.decode_safe parameterDescription.decode_safe rowDescription.decode_safe
  functionCallResponse.decode_safe copyBothResponse.decode_safe readyForQuery.decode_safe
  negotiateProtocolVersion.decode_safe authenticationOk.decode_safe
  authenticationCleartextPassword.decode_safe authenticationMD5Password.decode_safe
  authenticationGSS.decode_safe authenticationGSSContinue.decode_safe
  authenticationSASL.decode_safe authenticationSASLContinue.decode_safe
  authenticationSASLFinal.decode_safe

lemma safe_wrap: "safe r \<Longrightarrow> safe (bindE r (\<lambda>x. Inr (g x)))" "safe r \<Longrightarrow> safe (bindE r (Inr \<circ> h))"
  by (cases r; simp)+

lemma backend_decoder_safe: "backend_decoder t = Some dec \<Longrightarrow> safe (dec b)"
  by (auto simp only: backend_decoder_def option.inject option.distinct backend_decode_safe
      intro!: safe_wrap split: if_splits)

lemma find_authentication_safe:
  "findAuthenticationMessageType src f = (res, f') \<Longrightarrow>
     (case res of Inl e \<Rightarrow> e \<noteq> GoPanic | Inr dec \<Rightarrow> safe (dec b))
   \<and> f' = f\<lparr>ep_authType := ep_authType f'\<rparr>"
  using i32.get_safe [of "take 4 src"]
  by (auto simp: findAuthenticationMessageType_def backend_decode_safe
      intro!: safe_wrap split: if_splits sum.splits)

lemma Frontend_decode_safe:
  assumes "Frontend_decode t b f = (res, f')"
  shows "safe res"
    and "f' = f\<lparr>ep_authType := ep_authType f', fe_dataRow := fe_dataRow f'\<rparr>"
proof -
  have "safe res \<and> f' = f\<lparr>ep_authType := ep_authType f', fe_dataRow := fe_dataRow f'\<rparr>"
  proof (cases "t = chr CHR ''D''")
    case True
    with assms dataRow.decode_safe [of "fe_dataRow f" b] show ?thesis
      by (auto simp: Frontend_decode_def DataRow_result_def split: prod.splits option.splits)
  next
    case False
    show ?thesis
    proof (cases "t = chr CHR ''R''")
      case True
      obtain r g where auth: "findAuthenticationMessageType b f = (r, g)"
        by fastforce
      have "res = (case r of Inl e \<Rightarrow> Inl e | Inr dec \<Rightarrow> dec b)" "f' = g"
        using assms True auth by (auto simp: Frontend_decode_def split: sum.splits)
      with find_authentication_safe [OF auth, of b] show ?thesis
        by (auto split: sum.splits)
    next
      case no_auth: False
      with assms False show ?thesis
        by (auto simp: Frontend_decode_def dest: backend_decoder_safe split: option.splits)
    qed
  qed
  then show "safe res" "f' = f\<lparr>ep_authType := ep_authType f', fe_dataRow := fe_dataRow f'\<rparr>"
    by blast+
qed


section \<open>A message on the wire is decoded to itself\<close>

lemmas backend_encode =
  parseComplete.encode bindComplete.encode closeComplete.encode
  notificationResponse.encode copyDone.encode commandComplete.encode
  copyData.encode errorResponse.encode copyInResponse.encode
  copyOutResponse.encode emptyQueryResponse.encode backendKeyData.encode
  noData.encode noticeResponse.encode portalSuspended.encode
  parameterStatus.encode parameterDescription.encode rowDescription.encode
  functionCallResponse.encode copyBothResponse.encode readyForQuery.encode
  negotiateProtocolVersion.encode authenticationOk.encode
  authenticationCleartextPassword.encode authenticationMD5Password.encode
  authenticationGSS.encode authenticationGSSContinue.encode
  authenticationSASL.encode authenticationSASLContinue.encode
  authenticationSASLFinal.encode dataRow.encode

lemmas backend_decode =
  parseComplete.decode [where m = "()"] bindComplete.decode [where m = "()"]
  closeComplete.decode [where m = "()"] notificationResponse.decode
  copyDone.decode [where m = "()"] commandComplete.decode copyData.decode errorResponse.decode
  copyInResponse.decode copyOutResponse.decode emptyQueryResponse.decode [where m = "()"]
  backendKeyData.decode noData.decode [where m = "()"] noticeResponse.decode
  portalSuspended.decode [where m = "()"] parameterStatus.decode parameterDescription.decode
  rowDescription.decode functionCallResponse.decode copyBothResponse.decode readyForQuery.decode
  negotiateProtocolVersion.decode authenticationOk.decode [where m = "()"]
  authenticationCleartextPassword.decode [where m = "()"] authenticationMD5Password.decode
  authenticationGSS.decode [where m = "()"] authenticationGSSContinue.decode
  authenticationSASL.decode authenticationSASLContinue.decode authenticationSASLFinal.decode

lemma Frontend_decode_DataRow:
  "DataRow_result (fe_dataRow f) b = Inr vs \<Longrightarrow>
     fst (Frontend_decode 68 b f) = Inr (BM_DataRow vs)"
  by (auto simp: Frontend_decode_def DataRow_result_def split: prod.splits option.splits)

text \<open>The frame that is appended to \<open>dst\<close>, as a pair of type and body.\<close>

definition last_frame :: "bytes \<Rightarrow> bytes \<Rightarrow> byte \<times> bytes" where
  "last_frame dst out = (out ! length dst, drop (length dst + 5) out)"

lemma last_frame_frame:
  "frame dst [t] b = Inr out \<Longrightarrow>
     last_frame dst out = (t, b) \<and> out = dst @ wire t b \<and> length b + 4 \<le> maxMessageBodyLen"
  by (auto simp: frame_def last_frame_def wire_def nth_append split: if_splits)

lemma frame_decodeI:
  "frame dst [t] b = Inr out \<Longrightarrow> (\<And>f :: 'r Frontend. fst (Frontend_decode t b f) = Inr m) \<Longrightarrow>
     \<exists>t b. frame dst [t] b = Inr out \<and> (\<forall>f :: 'r Frontend. fst (Frontend_decode t b f) = Inr m)"
  by blast

lemmas AuthType_defs = AuthTypeOk_def AuthTypeCleartextPassword_def AuthTypeMD5Password_def
  AuthTypeSCMCreds_def AuthTypeGSS_def AuthTypeGSSCont_def AuthTypeSSPI_def AuthTypeSASL_def
  AuthTypeSASLContinue_def AuthTypeSASLFinal_def

lemma backend_message_frame:
  assumes "wf_BackendMessage m" and "BackendMessage_Encode m dst = Inr out"
  shows "\<exists>t b. frame dst [t] b = Inr out \<and> (\<forall>f :: 'r Frontend. fst (Frontend_decode t b f) = Inr m)"
proof (cases "\<exists>vs. m = BM_DataRow vs")
  case True
  then obtain vs where "m = BM_DataRow vs" by blast
  with assms dataRow.decode [of vs] show ?thesis
    by (auto simp: dataRow.encode intro!: frame_decodeI Frontend_decode_DataRow)
next
  case False
  with assms show ?thesis
    by (cases m; simp add: backend_encode)
      (rule frame_decodeI, assumption, simp add: Frontend_decode_def backend_decoder_def
        findAuthenticationMessageType_def AuthType_defs backend_decode [unfolded AuthType_defs])+
qed


section \<open>Receiving\<close>

text \<open>The frames of the messages still to come, each of which decodes to its message in any state.\<close>

definition decodes_to :: "'r Frontend itself \<Rightarrow> byte \<times> bytes \<Rightarrow> BackendMessage \<Rightarrow> bool" where
  "decodes_to _ fr m \<longleftrightarrow> (\<forall>f :: 'r Frontend. fst (Frontend_decode (fst fr) (snd fr) f) = Inr m)"

definition frontend_expects ::
  "('r \<Rightarrow> bytes) \<Rightarrow> ('r \<Rightarrow> bool) \<Rightarrow> 'r Frontend \<Rightarrow> BackendMessage list \<Rightarrow> bool" where
  "frontend_expects pending ok f ms \<longleftrightarrow>
     ok (ep_cr f)
   \<and> (\<exists>fs. stream_inv pending f fs \<and> list_all2 (decodes_to TYPE('r Frontend)) fs ms)"

lemma stream_inv_cong:
  assumes "ep_cr f' = ep_cr f" "ep_partialMsg f' = ep_partialMsg f" "ep_msgType f' = ep_msgType f"
    "ep_bodyLen f' = ep_bodyLen f" "ep_maxBodyLen f' = ep_maxBodyLen f"
  shows "stream_inv pending f' fs = stream_inv pending f fs"
  using assms by (simp add: stream_inv_def)

lemma Frontend_decode_reading:
  assumes "Frontend_decode t b f = (res, f')"
  shows "ep_cr f' = ep_cr f" "ep_partialMsg f' = ep_partialMsg f" "ep_msgType f' = ep_msgType f"
    "ep_bodyLen f' = ep_bodyLen f" "ep_maxBodyLen f' = ep_maxBodyLen f"
  by (subst Frontend_decode_safe(2) [OF assms], simp)+

text \<open>The calls that a \<open>Receive\<close> is made of.\<close>

lemma Frontend_Receive_cases:
  assumes "Frontend_Receive nxt f = (res, f')"
  obtains
    (header) err where "receive_header nxt f = (Some err, f')" and "res = Inl err"
  | (body) f1 err where "receive_header nxt f = (None, f1)" and "receive_body nxt f1 = (Inl err, f')"
      and "res = Inl err"
  | (decode) f1 b f2 where "receive_header nxt f = (None, f1)" and "receive_body nxt f1 = (Inr b, f2)"
      and "Frontend_decode (ep_msgType f2) b f2 = (res, f')"
  using assms by (auto simp: Frontend_Receive_def split: prod.splits option.splits sum.splits)

context byte_source
begin

lemma Frontend_Receive_safe:
  assumes "ok (ep_cr f)" and "Frontend_Receive nxt f = (res, f')"
  shows "safe res" and "ok (ep_cr f')"
proof -
  from assms(2) have "safe res \<and> ok (ep_cr f')"
  proof (cases rule: Frontend_Receive_cases)
    case (header err)
    with header_safe [OF assms(1) header(1)] show ?thesis by simp
  next
    case (body f1 err)
    note h = header_safe [OF assms(1) body(1)]
    from body_safe [OF h(1) body(2)] body(3) show ?thesis by simp
  next
    case (decode f1 b f2)
    note h = header_safe [OF assms(1) decode(1)]
    from body_safe [OF h(1) decode(2)] Frontend_decode_safe(1) [OF decode(3)]
      Frontend_decode_reading(1) [OF decode(3)]
    show ?thesis by simp
  qed
  then show "safe res" "ok (ep_cr f')" by blast+
qed

lemma Frontend_Receive_expects:
  assumes "frontend_expects pending ok f ms" and "Frontend_Receive nxt f = (res, f')"
  shows "res = Inl e \<Longrightarrow> frontend_expects pending ok f' ms"
    and "res = Inr m \<Longrightarrow> \<exists>ms'. ms = m # ms' \<and> frontend_expects pending ok f' ms'"
    and "faults (ep_cr f') \<le> faults (ep_cr f)"
    and "ms \<noteq> [] \<Longrightarrow> res = Inl e \<Longrightarrow> faults (ep_cr f') < faults (ep_cr f)"
proof -
  obtain fs where okf: "ok (ep_cr f)" and inv: "stream_inv pending f fs"
    and fs: "list_all2 (decodes_to TYPE('r Frontend)) fs ms"
    using assms(1) by (auto simp: frontend_expects_def)
  have "(res = Inl e \<longrightarrow> frontend_expects pending ok f' ms)
    \<and> (res = Inr m \<longrightarrow> (\<exists>ms'. ms = m # ms' \<and> frontend_expects pending ok f' ms'))
    \<and> faults (ep_cr f') \<le> faults (ep_cr f)
    \<and> (ms \<noteq> [] \<and> res = Inl e \<longrightarrow> faults (ep_cr f') < faults (ep_cr f))"
    using assms(2)
  proof (cases rule: Frontend_Receive_cases)
    case (header err)
    with header_safe(1) [OF okf header(1)] header_stream [OF okf inv header(1)] fs
    show ?thesis by (auto simp: frontend_expects_def)
  next
    case (body f1 err)
    note h = header_safe [OF okf body(1)] and hs = header_stream [OF okf inv body(1)]
    from hs body_safe [OF h(1) body(2)] body_stream [OF h(1) hs(1) h(4) body(2)] h fs body(3)
    show ?thesis by (auto simp: frontend_expects_def)
  next
    case (decode f1 b f2)
    note h = header_safe [OF okf decode(1)] and hs = header_stream [OF okf inv decode(1)]
    note b = body_safe [OF h(1) decode(2)]
    obtain fs' where fs': "fs = (ep_msgType f1, b) # fs'" "stream_inv pending f2 fs'"
      using body_stream(1) [OF h(1) hs(1) h(4) decode(2) refl] by auto
    with fs obtain m0 ms' where ms: "ms = m0 # ms'" "decodes_to TYPE('r Frontend) (ep_msgType f1, b) m0"
      "list_all2 (decodes_to TYPE('r Frontend)) fs' ms'"
      by (auto simp: list_all2_Cons1)
    have "res = Inr m0"
      using ms(2) decode(3) b(5) by (auto simp: decodes_to_def) (metis fst_conv)
    moreover have "frontend_expects pending ok f' ms'"
      using b(1) fs'(2) ms(3) Frontend_decode_reading [OF decode(3)] stream_inv_cong [of f' f2]
      by (auto simp: frontend_expects_def)
    ultimately show ?thesis
      using ms(1) hs(2) b(4) Frontend_decode_reading(1) [OF decode(3)] by auto
  qed
  then show "res = Inl e \<Longrightarrow> frontend_expects pending ok f' ms"
    and "res = Inr m \<Longrightarrow> \<exists>ms'. ms = m # ms' \<and> frontend_expects pending ok f' ms'"
    and "faults (ep_cr f') \<le> faults (ep_cr f)"
    and "ms \<noteq> [] \<Longrightarrow> res = Inl e \<Longrightarrow> faults (ep_cr f') < faults (ep_cr f)"
    by blast+
qed

end

sublocale byte_source \<subseteq> fe: message_stream "Frontend_Receive nxt" "frontend_expects pending ok"
  "\<lambda>f. faults (ep_cr f)"
proof
  fix f :: "'r Frontend" and ms m f'
  assume "frontend_expects pending ok f ms" "Frontend_Receive nxt f = (Inr m, f')"
  then show "\<exists>ms'. ms = m # ms' \<and> frontend_expects pending ok f' ms'"
    using Frontend_Receive_expects(2) by blast
next
  fix f :: "'r Frontend" and ms e f'
  assume a: "frontend_expects pending ok f ms" "Frontend_Receive nxt f = (Inl e, f')"
  then have "ok (ep_cr f)" by (simp add: frontend_expects_def)
  with a Frontend_Receive_expects(1) [OF a refl] Frontend_Receive_safe(1)
  show "frontend_expects pending ok f' ms \<and> e \<noteq> GoPanic" by fastforce
next
  fix f :: "'r Frontend" and ms r f'
  assume "frontend_expects pending ok f ms" "Frontend_Receive nxt f = (r, f')"
  then show "faults (ep_cr f') \<le> faults (ep_cr f)" using Frontend_Receive_expects(3) by blast
next
  fix f :: "'r Frontend" and ms e f'
  assume "frontend_expects pending ok f ms" "ms \<noteq> []" "Frontend_Receive nxt f = (Inl e, f')"
  then show "faults (ep_cr f') < faults (ep_cr f)" using Frontend_Receive_expects(4) by blast
qed

end
