(* ===== verification/Proto_Backend.thy ===== *)
theory Proto_Backend
  imports Proto_Frontend
begin

text \<open>
  The messages of the client as one datatype (the values of the interface \<open>FrontendMessage\<close>), the
  \<open>Send\<close> methods of both ends, and the server end of the protocol, \<open>pgproto3/backend.go\<close>. The
  flyweights of \<open>Backend\<close> are overwritten by each \<open>Decode\<close>, so its state is that of an \<open>endpoint\<close>.
\<close>

section \<open>The messages of the client\<close>

datatype FrontendMessage =
    FM_Bind Bind
  | FM_Close Describe
  | FM_Describe Describe
  | FM_Execute Execute
  | FM_FunctionCall FunctionCall
  | FM_CopyFail CopyFail
  | FM_CopyData CopyData
  | FM_CopyDone
  | FM_Flush
  | FM_Parse Parse
  | FM_SASLInitialResponse SASLInitialResponse
  | FM_SASLResponse SASLResponse
  | FM_GSSResponse GSSResponse
  | FM_PasswordMessage PasswordMessage
  | FM_Query Query
  | FM_Sync
  | FM_Terminate
  | FM_StartupMessage StartupMessage
  | FM_SSLRequest
  | FM_CancelRequest CancelRequest
  | FM_GSSEncRequest

fun FrontendMessage_Encode :: "FrontendMessage \<Rightarrow> bytes \<Rightarrow> bytes result" where
  "FrontendMessage_Encode (FM_Bind m) = Bind_Encode m"
| "FrontendMessage_Encode (FM_Close m) = Close_Encode m"
| "FrontendMessage_Encode (FM_Describe m) = Describe_Encode m"
| "FrontendMessage_Encode (FM_Execute m) = Execute_Encode m"
| "FrontendMessage_Encode (FM_FunctionCall m) = FunctionCall_Encode m"
| "FrontendMessage_Encode (FM_CopyFail m) = CopyFail_Encode m"
| "FrontendMessage_Encode (FM_CopyData m) = CopyData_Encode m"
| "FrontendMessage_Encode FM_CopyDone = CopyDone_Encode ()"
| "FrontendMessage_Encode FM_Flush = Flush_Encode ()"
| "FrontendMessage_Encode (FM_Parse m) = Parse_Encode m"
| "FrontendMessage_Encode (FM_SASLInitialResponse m) = SASLInitialResponse_Encode m"
| "FrontendMessage_Encode (FM_SASLResponse m) = SASLResponse_Encode m"
| "FrontendMessage_Encode (FM_GSSResponse m) = GSSResponse_Encode m"
| "FrontendMessage_Encode (FM_PasswordMessage m) = PasswordMessage_Encode m"
| "FrontendMessage_Encode (FM_Query m) = Query_Encode m"
| "FrontendMessage_Encode FM_Sync = Sync_Encode ()"
| "FrontendMessage_Encode FM_Terminate = Terminate_Encode ()"
| "FrontendMessage_Encode (FM_StartupMessage m) = StartupMessage_Encode m"
| "FrontendMessage_Encode FM_SSLRequest = SSLRequest_Encode ()"
| "FrontendMessage_Encode (FM_CancelRequest m) = CancelRequest_Encode m"
| "FrontendMessage_Encode FM_GSSEncRequest = GSSEncRequest_Encode ()"

section \<open>The \<open>Send\<close> methods\<close>

definition Frontend_Send ::
  "FrontendMessage \<Rightarrow> ('r, 'z) endpoint_scheme \<Rightarrow> ('r, 'z) endpoint_scheme" where
  "Frontend_Send msg = endpoint_Send (FrontendMessage_Encode msg)"

definition SendBind :: "Bind \<Rightarrow> ('r, 'z) endpoint_scheme \<Rightarrow> ('r, 'z) endpoint_scheme" where
  "SendBind msg = endpoint_Send (Bind_Encode msg)"

definition SendParse :: "Parse \<Rightarrow> ('r, 'z) endpoint_scheme \<Rightarrow> ('r, 'z) endpoint_scheme" where
  "SendParse msg = endpoint_Send (Parse_Encode msg)"

definition SendClose :: "Describe \<Rightarrow> ('r, 'z) endpoint_scheme \<Rightarrow> ('r, 'z) endpoint_scheme" where
  "SendClose msg = endpoint_Send (Close_Encode msg)"

definition SendDescribe :: "Describe \<Rightarrow> ('r, 'z) endpoint_scheme \<Rightarrow> ('r, 'z) endpoint_scheme" where
  "SendDescribe msg = endpoint_Send (Describe_Encode msg)"

definition SendExecute :: "Execute \<Rightarrow> ('r, 'z) endpoint_scheme \<Rightarrow> ('r, 'z) endpoint_scheme" where
  "SendExecute msg = endpoint_Send (Execute_Encode msg)"

definition SendSync :: "('r, 'z) endpoint_scheme \<Rightarrow> ('r, 'z) endpoint_scheme" where
  "SendSync = endpoint_Send (Sync_Encode ())"

definition SendQuery :: "Query \<Rightarrow> ('r, 'z) endpoint_scheme \<Rightarrow> ('r, 'z) endpoint_scheme" where
  "SendQuery msg = endpoint_Send (Query_Encode msg)"

definition Backend_Send ::
  "BackendMessage \<Rightarrow> ('r, 'z) endpoint_scheme \<Rightarrow> ('r, 'z) endpoint_scheme" where
  "Backend_Send msg = endpoint_Send (BackendMessage_Encode msg)"

section \<open>The server\<close>

type_synonym 'r Backend = "'r endpoint"

definition minStartupPacketLen :: int where "minStartupPacketLen = 4"

definition maxStartupPacketLen :: int where "maxStartupPacketLen = 10000"

definition NewBackend :: "reader \<Rightarrow> writer \<Rightarrow> pools \<Rightarrow> chunkReader Backend result" where
  "NewBackend r w ps =
     bindE (newChunkReader r 0 ps) (\<lambda>cr.
       Inr \<lparr>ep_cr = cr, ep_w = w, ep_wbuf = [], ep_encodeError = None, ep_bodyLen = 0,
            ep_maxBodyLen = 0, ep_msgType = 0, ep_partialMsg = False, ep_authType = 0\<rparr>)"

definition Backend_SetMaxBodyLen :: "int \<Rightarrow> 'r Backend \<Rightarrow> 'r Backend" where
  "Backend_SetMaxBodyLen n b = b\<lparr>ep_maxBodyLen := n\<rparr>"

definition Backend_SetAuthType :: "u32 \<Rightarrow> 'r Backend \<Rightarrow> goerr option \<times> 'r Backend" where
  "Backend_SetAuthType authType b =
     (if authType \<in> {AuthTypeOk, AuthTypeCleartextPassword, AuthTypeMD5Password, AuthTypeSCMCreds,
          AuthTypeGSS, AuthTypeGSSCont, AuthTypeSSPI, AuthTypeSASL, AuthTypeSASLContinue,
          AuthTypeSASLFinal}
      then (None, b\<lparr>ep_authType := authType\<rparr>)
      else (Some (Errorf ''authType not recognized: %d'' (uint authType)), b))"

text \<open>
  The first message of a connection has no type byte. The length is computed in 32 bits:
  \<open>int32(x) - 4\<close> wraps around before it is compared with the bounds.
\<close>

definition ReceiveStartupMessage ::
  "(nat \<Rightarrow> 'r \<Rightarrow> bytes result \<times> 'r) \<Rightarrow> 'r Backend \<Rightarrow> FrontendMessage result \<times> 'r Backend" where
  "ReceiveStartupMessage nxt b =
     (case nxt 4 (ep_cr b) of
        (Inl err, cr) \<Rightarrow> (Inl err, b\<lparr>ep_cr := cr\<rparr>)
      | (Inr buf, cr) \<Rightarrow>
          (case Uint32 buf of
             Inl err \<Rightarrow> (Inl err, b\<lparr>ep_cr := cr\<rparr>)
           | Inr w \<Rightarrow>
               (let msgSize = sint (w - 4) in
                if msgSize < minStartupPacketLen \<or> msgSize > maxStartupPacketLen
                then (Inl (Errorf ''invalid length of startup packet: %d'' msgSize), b\<lparr>ep_cr := cr\<rparr>)
                else
                  (case nxt (nat msgSize) cr of
                     (Inl err, cr) \<Rightarrow> (Inl (translateEOFtoErrUnexpectedEOF err), b\<lparr>ep_cr := cr\<rparr>)
                   | (Inr buf, cr) \<Rightarrow>
                       (bindE (Uint32 buf) (\<lambda>code.
                          if code = ProtocolVersion30 \<or> code = ProtocolVersion32 then
                            bindE (StartupMessage_Decode buf) (Inr \<circ> FM_StartupMessage)
                          else if code = sslRequestNumber then
                            bindE (SSLRequest_Decode buf) (\<lambda>_. Inr FM_SSLRequest)
                          else if code = cancelRequestCode then
                            bindE (CancelRequest_Decode buf) (Inr \<circ> FM_CancelRequest)
                          else if code = gssEncReqNumber then
                            bindE (GSSEncRequest_Decode buf) (\<lambda>_. Inr FM_GSSEncRequest)
                          else Inl (Errorf ''unknown startup message code: %d'' (uint code))),
                        b\<lparr>ep_cr := cr\<rparr>)))))"

text \<open>The decoder for a type byte; messages of type \<open>p\<close> are told apart by the authentication type.\<close>

definition frontend_decoder :: "u32 \<Rightarrow> byte \<Rightarrow> (bytes \<Rightarrow> FrontendMessage result) option" where
  "frontend_decoder authType t =
     (if t = chr CHR ''B'' then Some (\<lambda>b. bindE (Bind_Decode b) (Inr \<circ> FM_Bind))
      else if t = chr CHR ''C'' then Some (\<lambda>b. bindE (Close_Decode b) (Inr \<circ> FM_Close))
      else if t = chr CHR ''D'' then Some (\<lambda>b. bindE (Describe_Decode b) (Inr \<circ> FM_Describe))
      else if t = chr CHR ''E'' then Some (\<lambda>b. bindE (Execute_Decode b) (Inr \<circ> FM_Execute))
      else if t = chr CHR ''F'' then Some (\<lambda>b. bindE (FunctionCall_Decode b) (Inr \<circ> FM_FunctionCall))
      else if t = chr CHR ''f'' then Some (\<lambda>b. bindE (CopyFail_Decode b) (Inr \<circ> FM_CopyFail))
      else if t = chr CHR ''d'' then Some (\<lambda>b. bindE (CopyData_Decode b) (Inr \<circ> FM_CopyData))
      else if t = chr CHR ''c'' then Some (\<lambda>b. bindE (CopyDone_Decode b) (\<lambda>_. Inr FM_CopyDone))
      else if t = chr CHR ''H'' then Some (\<lambda>b. bindE (Flush_Decode b) (\<lambda>_. Inr FM_Flush))
      else if t = chr CHR ''P'' then Some (\<lambda>b. bindE (Parse_Decode b) (Inr \<circ> FM_Parse))
      else if t = chr CHR ''p'' then
        (if authType = AuthTypeSASL then
           Some (\<lambda>b. bindE (SASLInitialResponse_Decode b) (Inr \<circ> FM_SASLInitialResponse))
         else if authType = AuthTypeSASLContinue then
           Some (\<lambda>b. bindE (SASLResponse_Decode b) (Inr \<circ> FM_SASLResponse))
         else if authType = AuthTypeSASLFinal then
           Some (\<lambda>b. bindE (SASLResponse_Decode b) (Inr \<circ> FM_SASLResponse))
         else if authType = AuthTypeGSS \<or> authType = AuthTypeGSSCont then
           Some (\<lambda>b. bindE (GSSResponse_Decode b) (Inr \<circ> FM_GSSResponse))
         else Some (\<lambda>b. bindE (PasswordMessage_Decode b) (Inr \<circ> FM_PasswordMessage)))
      else if t = chr CHR ''Q'' then Some (\<lambda>b. bindE (Query_Decode b) (Inr \<circ> FM_Query))
      else if t = chr CHR ''S'' then Some (\<lambda>b. bindE (Sync_Decode b) (\<lambda>_. Inr FM_Sync))
      else if t = chr CHR ''X'' then Some (\<lambda>b. bindE (Terminate_Decode b) (\<lambda>_. Inr FM_Terminate))
      else None)"

text \<open>Unlike the client, the server chooses the decoder before it reads the body.\<close>

definition Backend_Receive ::
  "(nat \<Rightarrow> 'r \<Rightarrow> bytes result \<times> 'r) \<Rightarrow> 'r Backend \<Rightarrow> FrontendMessage result \<times> 'r Backend" where
  "Backend_Receive nxt b =
     (case receive_header nxt b of
        (Some err, b1) \<Rightarrow> (Inl err, b1)
      | (None, b1) \<Rightarrow>
          (case frontend_decoder (ep_authType b1) (ep_msgType b1) of
             None \<Rightarrow> (Inl (Errorf ''unknown message type: %c'' (uint (ep_msgType b1))), b1)
           | Some dec \<Rightarrow>
               (case receive_body nxt b1 of
                  (Inl err, b2) \<Rightarrow> (Inl err, b2)
                | (Inr msgBody, b2) \<Rightarrow> (dec msgBody, b2))))"

section \<open>The messages a server in a given authentication phase understands\<close>

fun wf_FrontendMessage :: "u32 \<Rightarrow> FrontendMessage \<Rightarrow> bool" where
  "wf_FrontendMessage a (FM_Bind m) \<longleftrightarrow> wf_Bind m"
| "wf_FrontendMessage a (FM_Close m) \<longleftrightarrow> no_nul (desc_Name m)"
| "wf_FrontendMessage a (FM_Describe m) \<longleftrightarrow> no_nul (desc_Name m)"
| "wf_FrontendMessage a (FM_Execute m) \<longleftrightarrow> no_nul (exec_Portal m)"
| "wf_FrontendMessage a (FM_FunctionCall m) \<longleftrightarrow> wf_FunctionCall m"
| "wf_FrontendMessage a (FM_CopyFail m) \<longleftrightarrow> no_nul (cf_Message m)"
| "wf_FrontendMessage a (FM_Parse m) \<longleftrightarrow>
     no_nul (parse_Name m) \<and> no_nul (parse_Query m) \<and> length (parse_ParameterOIDs m) \<le> 65535"
| "wf_FrontendMessage a (FM_SASLInitialResponse m) \<longleftrightarrow> no_nul (sir_AuthMechanism m) \<and> a = AuthTypeSASL"
| "wf_FrontendMessage a (FM_SASLResponse m) \<longleftrightarrow> a = AuthTypeSASLContinue \<or> a = AuthTypeSASLFinal"
| "wf_FrontendMessage a (FM_GSSResponse m) \<longleftrightarrow> a = AuthTypeGSS \<or> a = AuthTypeGSSCont"
| "wf_FrontendMessage a (FM_PasswordMessage m) \<longleftrightarrow> no_nul (pm_Password m) \<and>
     a \<notin> {AuthTypeSASL, AuthTypeSASLContinue, AuthTypeSASLFinal, AuthTypeGSS, AuthTypeGSSCont}"
| "wf_FrontendMessage a (FM_Query m) \<longleftrightarrow> no_nul (query_String m)"
| "wf_FrontendMessage a (FM_StartupMessage m) \<longleftrightarrow> False"
| "wf_FrontendMessage a FM_SSLRequest \<longleftrightarrow> False"
| "wf_FrontendMessage a (FM_CancelRequest m) \<longleftrightarrow> False"
| "wf_FrontendMessage a FM_GSSEncRequest \<longleftrightarrow> False"
| "wf_FrontendMessage a _ \<longleftrightarrow> True"

section \<open>Decoding\<close>

lemmas frontend_decode_safe =
  bind.decode_safe close.decode_safe describe.decode_safe execute.decode_safe
  functionCall.decode_safe copyFail.decode_safe copyData.decode_safe copyDone.decode_safe
  flush.decode_safe parse.decode_safe saslInitialResponse.decode_safe saslResponse.decode_safe
  gssResponse.decode_safe passwordMessage.decode_safe query.decode_safe syncm.decode_safe
  terminate.decode_safe startupMessage.decode_safe sslRequest.decode_safe
  cancelRequest.decode_safe gssEncRequest.decode_safe

lemmas frontend_encode =
  bind.encode close.encode describe.encode execute.encode functionCall.encode copyFail.encode
  copyData.encode copyDone.encode flush.encode parse.encode saslInitialResponse.encode
  saslResponse.encode gssResponse.encode passwordMessage.encode query.encode syncm.encode
  terminate.encode

lemmas frontend_decode =
  bind.decode close.decode describe.decode execute.decode functionCall.decode copyFail.decode
  copyData.decode copyDone.decode [where m = "()"] flush.decode [where m = "()"] parse.decode
  saslInitialResponse.decode saslResponse.decode gssResponse.decode passwordMessage.decode
  query.decode syncm.decode [where m = "()"] terminate.decode [where m = "()"]

lemma frontend_decoder_safe: "frontend_decoder a t = Some dec \<Longrightarrow> safe (dec b)"
  by (auto simp only: frontend_decoder_def option.inject option.distinct frontend_decode_safe
      intro!: safe_wrap split: if_splits)

definition server_decodes :: "u32 \<Rightarrow> byte \<times> bytes \<Rightarrow> FrontendMessage \<Rightarrow> bool" where
  "server_decodes a fr m \<longleftrightarrow>
     map_option (\<lambda>dec. dec (snd fr)) (frontend_decoder a (fst fr)) = Some (Inr m)"

lemma frontend_frameI:
  "frame dst [t] b = Inr out \<Longrightarrow> server_decodes a (t, b) m \<Longrightarrow>
     \<exists>t b. frame dst [t] b = Inr out \<and> server_decodes a (t, b) m"
  by blast

lemma frontend_message_frame:
  assumes "wf_FrontendMessage a m" and "FrontendMessage_Encode m dst = Inr out"
  shows "\<exists>t b. frame dst [t] b = Inr out \<and> server_decodes a (t, b) m"
  using assms
  by (cases m; cases "a = AuthTypeSASLContinue"; cases "a = AuthTypeGSS"; simp add: frontend_encode)
    (rule frontend_frameI, assumption,
      simp add: server_decodes_def frontend_decoder_def frontend_decode AuthType_defs)+


section \<open>Receiving\<close>

definition backend_expects ::
  "('r \<Rightarrow> bytes) \<Rightarrow> ('r \<Rightarrow> bool) \<Rightarrow> 'r Backend \<Rightarrow> FrontendMessage list \<Rightarrow> bool" where
  "backend_expects pending ok b ms \<longleftrightarrow>
     ok (ep_cr b)
   \<and> (\<exists>fs. stream_inv pending b fs \<and> list_all2 (server_decodes (ep_authType b)) fs ms)"

lemma Backend_Receive_cases:
  assumes "Backend_Receive nxt b = (res, b')"
  obtains
    (header) err where "receive_header nxt b = (Some err, b')" and "res = Inl err"
  | (unknown) "receive_header nxt b = (None, b')"
      and "frontend_decoder (ep_authType b') (ep_msgType b') = None"
      and "res = Inl (Errorf ''unknown message type: %c'' (uint (ep_msgType b')))"
  | (body) b1 dec err where "receive_header nxt b = (None, b1)"
      and "frontend_decoder (ep_authType b1) (ep_msgType b1) = Some dec"
      and "receive_body nxt b1 = (Inl err, b')" and "res = Inl err"
  | (decode) b1 dec d where "receive_header nxt b = (None, b1)"
      and "frontend_decoder (ep_authType b1) (ep_msgType b1) = Some dec"
      and "receive_body nxt b1 = (Inr d, b')" and "res = dec d"
  using assms by (auto simp: Backend_Receive_def split: prod.splits option.splits sum.splits)

context byte_source
begin

lemma Backend_Receive_safe:
  assumes "ok (ep_cr b)" and "Backend_Receive nxt b = (res, b')"
  shows "safe res" and "ok (ep_cr b')"
proof -
  from assms(2) have "safe res \<and> ok (ep_cr b')"
  proof (cases rule: Backend_Receive_cases)
    case (header err)
    with header_safe [OF assms(1) header(1)] show ?thesis by simp
  next
    case unknown
    with header_safe [OF assms(1) unknown(1)] show ?thesis by simp
  next
    case (body b1 dec err)
    note h = header_safe [OF assms(1) body(1)]
    from body_safe [OF h(1) body(3)] body(4) show ?thesis by simp
  next
    case (decode b1 dec d)
    note h = header_safe [OF assms(1) decode(1)]
    from body_safe [OF h(1) decode(3)] frontend_decoder_safe [OF decode(2)] decode(4)
    show ?thesis by simp
  qed
  then show "safe res" "ok (ep_cr b')" by blast+
qed

lemma Backend_Receive_expects:
  assumes "backend_expects pending ok b ms" and "Backend_Receive nxt b = (res, b')"
  shows "res = Inl e \<Longrightarrow> backend_expects pending ok b' ms"
    and "res = Inr m \<Longrightarrow> \<exists>ms'. ms = m # ms' \<and> backend_expects pending ok b' ms'"
    and "faults (ep_cr b') \<le> faults (ep_cr b)"
    and "ms \<noteq> [] \<Longrightarrow> res = Inl e \<Longrightarrow> faults (ep_cr b') < faults (ep_cr b)"
proof -
  obtain fs where okb: "ok (ep_cr b)" and inv: "stream_inv pending b fs"
    and fs: "list_all2 (server_decodes (ep_authType b)) fs ms"
    using assms(1) by (auto simp: backend_expects_def)
  have "(res = Inl e \<longrightarrow> backend_expects pending ok b' ms)
    \<and> (res = Inr m \<longrightarrow> (\<exists>ms'. ms = m # ms' \<and> backend_expects pending ok b' ms'))
    \<and> faults (ep_cr b') \<le> faults (ep_cr b)
    \<and> (ms \<noteq> [] \<and> res = Inl e \<longrightarrow> faults (ep_cr b') < faults (ep_cr b))"
    using assms(2)
  proof (cases rule: Backend_Receive_cases)
    case (header err)
    with header_safe [OF okb header(1)] header_stream [OF okb inv header(1)] fs
    show ?thesis by (auto simp: backend_expects_def same_but_reading_fields)
  next
    case unknown
    note h = header_safe [OF okb unknown(1)] and hs = header_stream [OF okb inv unknown(1)]
    obtain d fs' where "fs = (ep_msgType b', d) # fs'"
      using hs(1) h(4) by (auto simp: stream_inv_def)
    with fs have "\<exists>x. frontend_decoder (ep_authType b) (ep_msgType b') = Some x"
      by (auto simp: list_all2_Cons1 server_decodes_def)
    with unknown same_but_reading_fields [OF h(3)] show ?thesis by auto
  next
    case (body b1 dec err)
    note h = header_safe [OF okb body(1)] and hs = header_stream [OF okb inv body(1)]
    note s = body_safe [OF h(1) body(3)]
    from hs s body_stream [OF h(1) hs(1) h(4) body(3)] h fs body(4)
      same_but_reading_fields [OF h(3)] same_but_reading_fields [OF s(3)]
    show ?thesis by (auto simp: backend_expects_def)
  next
    case (decode b1 dec d)
    note h = header_safe [OF okb decode(1)] and hs = header_stream [OF okb inv decode(1)]
    note s = body_safe [OF h(1) decode(3)]
    note auth = same_but_reading_fields(2) [OF h(3)] same_but_reading_fields(2) [OF s(3)]
    obtain fs' where fs': "fs = (ep_msgType b1, d) # fs'" "stream_inv pending b' fs'"
      using body_stream(1) [OF h(1) hs(1) h(4) decode(3) refl] by auto
    with fs obtain m0 ms' where ms: "ms = m0 # ms'" "server_decodes (ep_authType b) (ep_msgType b1, d) m0"
      "list_all2 (server_decodes (ep_authType b)) fs' ms'"
      by (auto simp: list_all2_Cons1)
    have "res = Inr m0"
      using ms(2) decode(2,4) auth by (simp add: server_decodes_def)
    moreover have "backend_expects pending ok b' ms'"
      using s(1) fs'(2) ms(3) auth by (auto simp: backend_expects_def)
    ultimately show ?thesis
      using ms(1) hs(2) s(4) by auto
  qed
  then show "res = Inl e \<Longrightarrow> backend_expects pending ok b' ms"
    and "res = Inr m \<Longrightarrow> \<exists>ms'. ms = m # ms' \<and> backend_expects pending ok b' ms'"
    and "faults (ep_cr b') \<le> faults (ep_cr b)"
    and "ms \<noteq> [] \<Longrightarrow> res = Inl e \<Longrightarrow> faults (ep_cr b') < faults (ep_cr b)"
    by blast+
qed

lemma ReceiveStartupMessage_safe:
  assumes "ok (ep_cr b)" and "ReceiveStartupMessage nxt b = (res, b')"
  shows "safe res" and "ok (ep_cr b')"
proof -
  obtain r1 cr1 where n1: "nxt 4 (ep_cr b) = (r1, cr1)" by fastforce
  have "safe res \<and> ok (ep_cr b')"
  proof (cases r1)
    case (Inl e)
    with assms n1 next_Inl [OF assms(1) n1 [unfolded Inl]] show ?thesis
      by (auto simp: ReceiveStartupMessage_def)
  next
    case (Inr buf)
    with next_Inr [OF assms(1)] n1 have buf: "length buf = 4" "ok cr1" by auto
    then obtain w where w: "Uint32 buf = Inr w"
      using i32.get_ok [of buf] by auto
    obtain r2 cr2 where n2: "nxt (nat (sint (w - 4))) cr1 = (r2, cr2)" by fastforce
    show ?thesis
    proof (cases "sint (w - 4) < minStartupPacketLen \<or> sint (w - 4) > maxStartupPacketLen")
      case True
      with assms(2) n1 Inr w buf show ?thesis
        by (auto simp: ReceiveStartupMessage_def)
    next
      case size: False
      show ?thesis
      proof (cases r2)
        case (Inl e)
        with size assms(2) n1 n2 Inr w buf next_Inl [OF buf(2)] show ?thesis
          by (auto simp: ReceiveStartupMessage_def)
      next
        case body: (Inr d)
        have d: "4 \<le> length d" "ok cr2"
          using next_Inr [OF buf(2) n2 [unfolded body]] size
          by (auto simp: minStartupPacketLen_def)
        then obtain code where "Uint32 d = Inr code"
          using i32.get_ok [of d] by auto
        with d body size assms(2) n1 n2 Inr w buf show ?thesis
          by (auto simp: ReceiveStartupMessage_def frontend_decode_safe intro!: safe_wrap)
      qed
    qed
  qed
  then show "safe res" "ok (ep_cr b')" by blast+
qed

end

sublocale byte_source \<subseteq> be: message_stream "Backend_Receive nxt" "backend_expects pending ok"
  "\<lambda>b. faults (ep_cr b)"
proof
  fix b :: "'r Backend" and ms m b'
  assume "backend_expects pending ok b ms" "Backend_Receive nxt b = (Inr m, b')"
  then show "\<exists>ms'. ms = m # ms' \<and> backend_expects pending ok b' ms'"
    using Backend_Receive_expects(2) by blast
next
  fix b :: "'r Backend" and ms e b'
  assume a: "backend_expects pending ok b ms" "Backend_Receive nxt b = (Inl e, b')"
  then have "ok (ep_cr b)" by (simp add: backend_expects_def)
  with a Backend_Receive_expects(1) [OF a refl] Backend_Receive_safe(1)
  show "backend_expects pending ok b' ms \<and> e \<noteq> GoPanic" by fastforce
next
  fix b :: "'r Backend" and ms r b'
  assume "backend_expects pending ok b ms" "Backend_Receive nxt b = (r, b')"
  then show "faults (ep_cr b') \<le> faults (ep_cr b)" using Backend_Receive_expects(3) by blast
next
  fix b :: "'r Backend" and ms e b'
  assume "backend_expects pending ok b ms" "ms \<noteq> []" "Backend_Receive nxt b = (Inl e, b')"
  then show "faults (ep_cr b') < faults (ep_cr b)" using Backend_Receive_expects(4) by blast
qed

end
