(* ===== verification/Proto_Conversation.thy ===== *)
theory Proto_Conversation
  imports Proto_Backend
begin

text \<open>
  The two ends of the protocol together: what one end sends, flushed to its writer and read
  by the other end in chunks of any size, arrives as the same messages in the same order.
\<close>

section \<open>What a sequence of \<open>Send\<close> calls buffers\<close>

lemma endpoint_Send_error: "ep_encodeError s \<noteq> None \<Longrightarrow> endpoint_Send e s = s"
  by (simp add: endpoint_Send_def)

lemma fold_Send_error: "ep_encodeError s \<noteq> None \<Longrightarrow> fold (\<lambda>m. endpoint_Send (E m)) ms s = s"
  by (induction ms) (simp_all add: endpoint_Send_error)

lemma fold_Send_frames:
  assumes "\<forall>m\<in>set ms. \<forall>dst out. E m dst = Inr out \<longrightarrow>
      (\<exists>t b. frame dst [t] b = Inr out \<and> D (t, b) m)"
    and "ep_encodeError (fold (\<lambda>m. endpoint_Send (E m)) ms s) = None"
  shows "\<exists>fs. ep_wbuf (fold (\<lambda>m. endpoint_Send (E m)) ms s) = ep_wbuf s @ wires fs
    \<and> list_all2 D fs ms \<and> (\<forall>(t, b)\<in>set fs. length b + 4 \<le> maxMessageBodyLen)"
  using assms
proof (induction ms arbitrary: s)
  case Nil
  have "ep_wbuf s = ep_wbuf s @ wires []" by simp
  then show ?case by fastforce
next
  case (Cons m ms)
  let ?s1 = "endpoint_Send (E m) s"
  have noerr: "ep_encodeError ?s1 = None"
    using Cons.prems(2) fold_Send_error [of ?s1 E ms] by fastforce
  then have "ep_encodeError s = None"
    using endpoint_Send_error [of s "E m"] by fastforce
  with noerr obtain out where out: "E m (ep_wbuf s) = Inr out" "ep_wbuf ?s1 = out"
    by (auto simp: endpoint_Send_def split: sum.splits)
  with Cons.prems(1) obtain t b where tb: "frame (ep_wbuf s) [t] b = Inr out" "D (t, b) m"
    by (meson list.set_intros(1))
  obtain fs where fs: "ep_wbuf (fold (\<lambda>m. endpoint_Send (E m)) ms ?s1) = ep_wbuf ?s1 @ wires fs"
    "list_all2 D fs ms" "\<forall>(t, b)\<in>set fs. length b + 4 \<le> maxMessageBodyLen"
    using Cons.IH [of ?s1] Cons.prems by auto
  have "ep_wbuf ?s1 = ep_wbuf s @ wire t b" "length b + 4 \<le> maxMessageBodyLen"
    using last_frame_frame [OF tb(1)] out(2) by auto
  with fs tb(2) have "ep_wbuf (fold (\<lambda>m. endpoint_Send (E m)) (m # ms) s) = ep_wbuf s @ wires ((t, b) # fs)
      \<and> list_all2 D ((t, b) # fs) (m # ms)
      \<and> (\<forall>(t, b)\<in>set ((t, b) # fs). length b + 4 \<le> maxMessageBodyLen)"
    by simp
  then show ?case by blast
qed

lemma fold_Backend_Send:
  "fold Backend_Send ms s = fold (\<lambda>m. endpoint_Send (BackendMessage_Encode m)) ms s"
  by (simp add: Backend_Send_def [abs_def])

lemma fold_Frontend_Send:
  "fold Frontend_Send ms s = fold (\<lambda>m. endpoint_Send (FrontendMessage_Encode m)) ms s"
  by (simp add: Frontend_Send_def [abs_def])

lemma Send_keeps_writer:
  "ep_w (fold (\<lambda>m. endpoint_Send (E m)) ms s) = ep_w s"
proof (induction ms arbitrary: s)
  case (Cons m ms)
  have "ep_w (endpoint_Send (E m) s) = ep_w s"
    by (simp add: endpoint_Send_def split: sum.splits)
  with Cons show ?case by simp
qed simp

section \<open>The other end expects what was flushed\<close>

lemma wires_frame_ok:
  "\<forall>(t, b)\<in>set fs. length b + 4 \<le> maxMessageBodyLen \<Longrightarrow>
     \<forall>(t, b)\<in>set fs. frame_ok (int maxMessageBodyLen) b \<and> frame_ok 0 b"
  by (auto simp: frame_ok_def)

lemma NewFrontend_expects:
  assumes "wf_pools ps" and "proper_reader rd" and "NewFrontend rd w ps = Inr f"
    and "reader_bytes rd = wires fs" and "list_all2 (decodes_to TYPE(chunkReader Frontend)) fs ms"
    and "\<forall>(t, b)\<in>set fs. length b + 4 \<le> maxMessageBodyLen"
  shows "frontend_expects cr_stream wf_chunkReader f ms" and "cr_r (ep_cr f) = rd"
proof -
  obtain r where r: "newChunkReader rd 0 ps = Inr r" "wf_chunkReader r" "cr_stream r = reader_bytes rd"
    "cr_r r = rd"
    using assms(1,2) by (rule newChunkReader_ok)
  then have "stream_inv cr_stream f fs"
    using assms(3,4) wires_frame_ok [OF assms(6)] by (auto simp: NewFrontend_def stream_inv_def)
  with r assms(3,5) show "frontend_expects cr_stream wf_chunkReader f ms" "cr_r (ep_cr f) = rd"
    by (auto simp: frontend_expects_def NewFrontend_def)
qed

lemma NewBackend_expects:
  assumes "wf_pools ps" and "proper_reader rd" and "NewBackend rd w ps = Inr b"
    and "reader_bytes rd = wires fs" and "list_all2 (server_decodes a) fs ms"
    and "\<forall>(t, b)\<in>set fs. length b + 4 \<le> maxMessageBodyLen"
  shows "backend_expects cr_stream wf_chunkReader (b\<lparr>ep_authType := a\<rparr>) ms" and "cr_r (ep_cr b) = rd"
proof -
  obtain r where r: "newChunkReader rd 0 ps = Inr r" "wf_chunkReader r" "cr_stream r = reader_bytes rd"
    "cr_r r = rd"
    using assms(1,2) by (rule newChunkReader_ok)
  then have "stream_inv cr_stream (b\<lparr>ep_authType := a\<rparr>) fs"
    using assms(3,4) wires_frame_ok [OF assms(6)] by (auto simp: NewBackend_def stream_inv_def)
  with r assms(3,5) show "backend_expects cr_stream wf_chunkReader (b\<lparr>ep_authType := a\<rparr>) ms"
    "cr_r (ep_cr b) = rd"
    by (auto simp: backend_expects_def NewBackend_def)
qed

lemma server_flush_frames:
  assumes "\<forall>m\<in>set ms. wf_BackendMessage m" and "ep_wbuf b = []" and "w_out (ep_w b) = []"
    and "Backend_Flush (fold Backend_Send ms b) = (None, b')"
  obtains fs where "w_out (ep_w b') = wires fs"
    and "list_all2 (decodes_to TYPE('r Frontend)) fs ms"
    and "\<forall>(t, b)\<in>set fs. length b + 4 \<le> maxMessageBodyLen"
proof -
  let ?s = "fold (\<lambda>m. endpoint_Send (BackendMessage_Encode m)) ms b"
  have noerr: "ep_encodeError ?s = None"
    using assms(4) by (auto simp: fold_Backend_Send Backend_Flush_def split: option.splits)
  have "\<exists>t d. frame dst [t] d = Inr out \<and> decodes_to TYPE('r Frontend) (t, d) m"
    if "m \<in> set ms" "BackendMessage_Encode m dst = Inr out" for m dst out
    using backend_message_frame [of m dst out] assms(1) that by (simp add: decodes_to_def)
  then obtain fs where "ep_wbuf ?s = wires fs" "list_all2 (decodes_to TYPE('r Frontend)) fs ms"
    "\<forall>(t, b)\<in>set fs. length b + 4 \<le> maxMessageBodyLen"
    using fold_Send_frames [OF _ noerr, of "decodes_to TYPE('r Frontend)"] assms(2) by auto
  with Backend_Flush_writes [OF assms(4)] show ?thesis
    using assms(3) by (intro that [of fs]) (simp_all add: fold_Backend_Send Send_keeps_writer)
qed

lemma client_flush_frames:
  assumes "\<forall>m\<in>set ms. wf_FrontendMessage a m" and "ep_wbuf f = []" and "w_out (ep_w f) = []"
    and "Frontend_Flush (fold Frontend_Send ms f) = (None, f')"
  obtains fs where "w_out (ep_w f') = wires fs" and "list_all2 (server_decodes a) fs ms"
    and "\<forall>(t, b)\<in>set fs. length b + 4 \<le> maxMessageBodyLen"
proof -
  let ?s = "fold (\<lambda>m. endpoint_Send (FrontendMessage_Encode m)) ms f"
  have noerr: "ep_encodeError ?s = None"
    using assms(4) by (auto simp: fold_Frontend_Send Frontend_Flush_def split: option.splits)
  obtain fs where "ep_wbuf ?s = wires fs" "list_all2 (server_decodes a) fs ms"
    "\<forall>(t, b)\<in>set fs. length b + 4 \<le> maxMessageBodyLen"
    using fold_Send_frames [OF _ noerr, of "server_decodes a"] assms(1,2)
      frontend_message_frame [of a] by auto
  with Flush_writes [OF assms(4)] show ?thesis
    using assms(3) by (intro that [of fs]) (simp_all add: fold_Frontend_Send Send_keeps_writer)
qed


section \<open>Properties\<close>

text \<open>
  C1: end-to-end delivery from server to client. Whatever well-formed messages the server sends and
  flushes, a new client that reads the written bytes in any chunks receives exactly these
  messages, in order, and nothing is left in its stream.
\<close>

theorem server_to_client:
  fixes b :: "('r, 'z) endpoint_scheme"
  assumes "\<forall>m\<in>set ms. wf_BackendMessage m" and "ep_wbuf b = []" and "w_out (ep_w b) = []"
    and "Backend_Flush (fold Backend_Send ms b) = (None, b')"
    and "reader_bytes rd = w_out (ep_w b')" and "reliable_reader rd" and "wf_pools ps"
  shows "\<exists>f f'. NewFrontend rd w ps = Inr f
    \<and> receive_n (Frontend_Receive chunkReader_Next) (length ms) f = (map Inr ms, f')
    \<and> cr_stream (ep_cr f') = []"
proof -
  obtain fs where fs: "w_out (ep_w b') = wires fs"
    "list_all2 (decodes_to TYPE(chunkReader Frontend)) fs ms"
    "\<forall>(t, b)\<in>set fs. length b + 4 \<le> maxMessageBodyLen"
    using assms(1-4) by (rule server_flush_frames)
  obtain r where "newChunkReader rd 0 ps = Inr r"
    using assms(7) reliable_proper [OF assms(6)] by (rule newChunkReader_ok)
  then obtain f where f: "NewFrontend rd w ps = Inr f"
    by (simp add: NewFrontend_def)
  note ex = NewFrontend_expects [OF assms(7) reliable_proper [OF assms(6)] f _ fs(2,3)]
  have "frontend_expects cr_stream wf_chunkReader f ms" "reliable_reader (cr_r (ep_cr f))"
    using ex fs(1) assms(5,6) by simp_all
  then obtain f' where "receive_n (Frontend_Receive chunkReader_Next) (length ms) f = (map Inr ms, f')"
    "frontend_expects cr_stream wf_chunkReader f' []"
    using chunks.fe.run_all unfolding reliable_faults by blast
  with f show ?thesis
    by (auto simp: frontend_expects_def stream_inv_def split: if_splits)
qed

definition quiet_writer :: writer where
  "quiet_writer = \<lparr>w_out = [], w_script = []\<rparr>"

definition idle_endpoint :: "unit endpoint" where
  "idle_endpoint = \<lparr>ep_cr = (), ep_w = quiet_writer, ep_wbuf = [], ep_encodeError = None,
     ep_bodyLen = 0, ep_maxBodyLen = 0, ep_msgType = 0, ep_partialMsg = False, ep_authType = 0\<rparr>"

lemmas idle_defs = idle_endpoint_def quiet_writer_def endpoint_write_def writer_Write_def
  endpoint_Send_def

theorem server_to_client_witness:
  "\<exists>f f'. NewFrontend [([50], None), ([0, 0, 0, 4, 90, 0], None), ([0, 0, 5, 73], None)] quiet_writer init_pools
       = Inr f
    \<and> receive_n (Frontend_Receive chunkReader_Next) 2 f
        = ([Inr BM_BindComplete, Inr (BM_ReadyForQuery \<lparr>rfq_TxStatus = 73\<rparr>)], f')
    \<and> cr_stream (ep_cr f') = []"
proof -
  let ?ms = "[BM_BindComplete, BM_ReadyForQuery \<lparr>rfq_TxStatus = 73\<rparr>]"
  have "Backend_Flush (fold Backend_Send ?ms idle_endpoint) =
      (None, idle_endpoint\<lparr>ep_w := \<lparr>w_out = [50, 0, 0, 0, 4, 90, 0, 0, 0, 5, 73], w_script = []\<rparr>\<rparr>)"
    by (simp add: idle_defs Backend_Flush_def Backend_Send_def BindComplete_Encode_def
        ReadyForQuery_Encode_def)
  from server_to_client [OF _ _ _ this, of "[([50], None), ([0, 0, 0, 4, 90, 0], None), ([0, 0, 5, 73], None)]"
      init_pools quiet_writer]
  show ?thesis
    by (simp add: idle_defs reader_bytes_def reliable_reader_def wf_init_pools numeral_2_eq_2)
qed

text \<open>
  C2: end-to-end delivery from client to server, for a server in authentication phase \<open>a\<close>.
\<close>

theorem client_to_server:
  fixes f :: "('r, 'z) endpoint_scheme"
  assumes "\<forall>m\<in>set ms. wf_FrontendMessage a m" and "ep_wbuf f = []" and "w_out (ep_w f) = []"
    and "Frontend_Flush (fold Frontend_Send ms f) = (None, f')"
    and "reader_bytes rd = w_out (ep_w f')" and "reliable_reader rd" and "wf_pools ps"
  shows "\<exists>b b'. NewBackend rd w ps = Inr b
    \<and> receive_n (Backend_Receive chunkReader_Next) (length ms) (b\<lparr>ep_authType := a\<rparr>) = (map Inr ms, b')
    \<and> cr_stream (ep_cr b') = []"
proof -
  obtain fs where fs: "w_out (ep_w f') = wires fs" "list_all2 (server_decodes a) fs ms"
    "\<forall>(t, b)\<in>set fs. length b + 4 \<le> maxMessageBodyLen"
    using assms(1-4) by (rule client_flush_frames)
  obtain r where "newChunkReader rd 0 ps = Inr r"
    using assms(7) reliable_proper [OF assms(6)] by (rule newChunkReader_ok)
  then obtain b where b: "NewBackend rd w ps = Inr b"
    by (simp add: NewBackend_def)
  note ex = NewBackend_expects [OF assms(7) reliable_proper [OF assms(6)] b _ fs(2,3)]
  have "backend_expects cr_stream wf_chunkReader (b\<lparr>ep_authType := a\<rparr>) ms"
    "reliable_reader (cr_r (ep_cr (b\<lparr>ep_authType := a\<rparr>)))"
    using ex fs(1) assms(5,6) by simp_all
  then obtain b' where
    "receive_n (Backend_Receive chunkReader_Next) (length ms) (b\<lparr>ep_authType := a\<rparr>) = (map Inr ms, b')"
    "backend_expects cr_stream wf_chunkReader b' []"
    using chunks.be.run_all unfolding reliable_faults by blast
  with b show ?thesis
    by (auto simp: backend_expects_def stream_inv_def split: if_splits)
qed

theorem client_to_server_witness:
  "\<exists>b b'. NewBackend [([81, 0, 0], None), ([0, 6, 59, 0, 88, 0, 0, 0, 4], None)] quiet_writer init_pools = Inr b
    \<and> receive_n (Backend_Receive chunkReader_Next) 2 (b\<lparr>ep_authType := 0\<rparr>)
        = ([Inr (FM_Query \<lparr>query_String = [59]\<rparr>), Inr FM_Terminate], b')
    \<and> cr_stream (ep_cr b') = []"
proof -
  let ?ms = "[FM_Query \<lparr>query_String = [59]\<rparr>, FM_Terminate]"
  have nul: "no_nul [59]"
    by (simp add: no_nul_def)
  have "Query_Encode \<lparr>query_String = [59]\<rparr> [] = Inr [81, 0, 0, 0, 6, 59, 0]"
    by (simp add: query.encode frame_def no_nul_def maxMessageBodyLen_def AppendUint32_def)
  then have "Frontend_Flush (fold Frontend_Send ?ms idle_endpoint) =
      (None, idle_endpoint\<lparr>ep_w := \<lparr>w_out = [81, 0, 0, 0, 6, 59, 0, 88, 0, 0, 0, 4], w_script = []\<rparr>\<rparr>)"
    by (simp add: idle_defs Frontend_Flush_def Frontend_Send_def Terminate_Encode_def)
  from client_to_server [OF _ _ _ this, of 0 "[([81, 0, 0], None), ([0, 6, 59, 0, 88, 0, 0, 0, 4], None)]"
      init_pools quiet_writer]
  show ?thesis
    using nul by (simp add: idle_defs reader_bytes_def reliable_reader_def wf_init_pools numeral_2_eq_2)
qed


text \<open>
  C9: resumption. The reader may fail at any points in between, any number of times. Repeated \<open>Receive\<close>
  calls of the client never deliver anything but a prefix of the sent messages, each once and in order,
  and none of the calls panics; and every message is delivered: as many calls as there are messages and
  failing reads are enough to receive exactly the messages that were sent.
\<close>

theorem client_resumes:
  fixes b :: "('r, 'z) endpoint_scheme"
  assumes "\<forall>m\<in>set ms. wf_BackendMessage m" and "ep_wbuf b = []" and "w_out (ep_w b) = []"
    and "Backend_Flush (fold Backend_Send ms b) = (None, b')"
    and "reader_bytes rd = w_out (ep_w b')" and "proper_reader rd" and "wf_pools ps"
  shows "\<exists>f. NewFrontend rd w ps = Inr f
    \<and> (\<forall>k. prefix (received (fst (receive_n (Frontend_Receive chunkReader_Next) k f))) ms
         \<and> Inl GoPanic \<notin> set (fst (receive_n (Frontend_Receive chunkReader_Next) k f))
         \<and> (length ms + reader_faults rd \<le> k \<longrightarrow>
              received (fst (receive_n (Frontend_Receive chunkReader_Next) k f)) = ms))"
proof -
  obtain fs where fs: "w_out (ep_w b') = wires fs"
    "list_all2 (decodes_to TYPE(chunkReader Frontend)) fs ms"
    "\<forall>(t, b)\<in>set fs. length b + 4 \<le> maxMessageBodyLen"
    using assms(1-4) by (rule server_flush_frames)
  obtain r where "newChunkReader rd 0 ps = Inr r"
    using assms(7,6) by (rule newChunkReader_ok)
  then obtain f where f: "NewFrontend rd w ps = Inr f"
    by (simp add: NewFrontend_def)
  have ex: "frontend_expects cr_stream wf_chunkReader f ms" "cr_r (ep_cr f) = rd"
    using NewFrontend_expects [OF assms(7,6) f _ fs(2,3)] fs(1) assms(5) by simp_all
  have "prefix (received (fst (receive_n (Frontend_Receive chunkReader_Next) k f))) ms
      \<and> Inl GoPanic \<notin> set (fst (receive_n (Frontend_Receive chunkReader_Next) k f))
      \<and> (length ms + reader_faults rd \<le> k \<longrightarrow>
           received (fst (receive_n (Frontend_Receive chunkReader_Next) k f)) = ms)" for k
    using chunks.fe.run_prefix [OF ex(1), of k] chunks.fe.run_delivers [OF ex(1), of k] ex(2)
    by (cases "receive_n (Frontend_Receive chunkReader_Next) k f") auto
  with f show ?thesis by blast
qed

theorem client_resumes_witness:
  "\<exists>f. NewFrontend [([50, 0], Some (IOErr ''timeout'')), ([0, 0, 4], Some (IOErr ''timeout'')), ([90], None),
         ([], Some (IOErr ''reset'')), ([0, 0, 0, 5, 73], None)] quiet_writer init_pools = Inr f
    \<and> received (fst (receive_n (Frontend_Receive chunkReader_Next) 5 f))
        = [BM_BindComplete, BM_ReadyForQuery \<lparr>rfq_TxStatus = 73\<rparr>]"
proof -
  define ms where "ms = [BM_BindComplete, BM_ReadyForQuery \<lparr>rfq_TxStatus = 73\<rparr>]"
  define rd :: reader where "rd = [([50, 0], Some (IOErr ''timeout'')), ([0, 0, 4], Some (IOErr ''timeout'')),
      ([90], None), ([], Some (IOErr ''reset'')), ([0, 0, 0, 5, 73], None)]"
  define b where "b = idle_endpoint\<lparr>ep_w := \<lparr>w_out = [50, 0, 0, 0, 4, 90, 0, 0, 0, 5, 73], w_script = []\<rparr>\<rparr>"
  have flush: "Backend_Flush (fold Backend_Send ms idle_endpoint) = (None, b)"
    by (simp add: idle_defs Backend_Flush_def Backend_Send_def BindComplete_Encode_def
        ReadyForQuery_Encode_def ms_def b_def)
  have rd: "reader_bytes rd = w_out (ep_w b)" "proper_reader rd" "length ms + reader_faults rd = 5"
    by (simp_all add: rd_def b_def ms_def reader_bytes_def proper_reader_def reader_faults_def)
  have "\<forall>m\<in>set ms. wf_BackendMessage m" "ep_wbuf idle_endpoint = []" "w_out (ep_w idle_endpoint) = []"
    by (simp_all add: ms_def idle_defs)
  from client_resumes [OF this flush rd(1,2) wf_init_pools, of quiet_writer]
  have "\<exists>f. NewFrontend rd quiet_writer init_pools = Inr f
    \<and> received (fst (receive_n (Frontend_Receive chunkReader_Next) 5 f)) = ms"
    unfolding rd(3) by blast
  then show ?thesis
    unfolding rd_def ms_def .
qed

text \<open>
  C10: no input panics the client. From any state whose reader satisfies its invariant, whatever bytes
  arrive, \<open>Receive\<close> returns a message or an error, and the invariant holds again.
\<close>

theorem client_receive_safe:
  assumes "wf_chunkReader (ep_cr f)"
  shows "safe (fst (Frontend_Receive chunkReader_Next f))
    \<and> wf_chunkReader (ep_cr (snd (Frontend_Receive chunkReader_Next f)))"
  using chunks.Frontend_Receive_safe [OF assms] by (cases "Frontend_Receive chunkReader_Next f") auto

definition tiny_reader :: "reader \<Rightarrow> chunkReader" where
  "tiny_reader rd = \<lparr>cr_r = rd, cr_buf = \<lparr>buf_arr = [0], buf_len = 1\<rparr>, cr_rp = 0, cr_wp = 0,
     cr_minBufSize = 1, cr_pools = init_pools\<rparr>"

lemma wf_tiny_reader: "proper_reader rd \<Longrightarrow> wf_chunkReader (tiny_reader rd)"
  by (simp add: tiny_reader_def wf_chunkReader_def wf_init_pools)

definition tiny_frontend :: "reader \<Rightarrow> chunkReader Frontend" where
  "tiny_frontend rd = \<lparr>ep_cr = tiny_reader rd, ep_w = quiet_writer, ep_wbuf = [], ep_encodeError = None,
     ep_bodyLen = 0, ep_maxBodyLen = 0, ep_msgType = 0, ep_partialMsg = False, ep_authType = 0,
     fe_dataRow = \<lparr>dr_array = [], dr_len = 0\<rparr>\<rparr>"

definition tiny_backend :: "reader \<Rightarrow> chunkReader Backend" where
  "tiny_backend rd = \<lparr>ep_cr = tiny_reader rd, ep_w = quiet_writer, ep_wbuf = [], ep_encodeError = None,
     ep_bodyLen = 0, ep_maxBodyLen = 0, ep_msgType = 0, ep_partialMsg = False, ep_authType = 0\<rparr>"

theorem client_receive_safe_witness:
  "safe (fst (Frontend_Receive chunkReader_Next (tiny_frontend [([68, 0, 0, 0, 5, 9], None)])))
    \<and> wf_chunkReader (ep_cr (snd (Frontend_Receive chunkReader_Next (tiny_frontend [([68, 0, 0, 0, 5, 9], None)]))))"
  by (rule client_receive_safe) (simp add: tiny_frontend_def wf_tiny_reader proper_reader_def)

text \<open>C11: no input panics the server, neither the start-up packet nor any later message.\<close>

theorem server_receive_safe:
  assumes "wf_chunkReader (ep_cr b)"
  shows "safe (fst (Backend_Receive chunkReader_Next b)) \<and> safe (fst (ReceiveStartupMessage chunkReader_Next b))
    \<and> wf_chunkReader (ep_cr (snd (Backend_Receive chunkReader_Next b)))
    \<and> wf_chunkReader (ep_cr (snd (ReceiveStartupMessage chunkReader_Next b)))"
  using chunks.Backend_Receive_safe [OF assms] chunks.ReceiveStartupMessage_safe [OF assms]
  by (cases "Backend_Receive chunkReader_Next b"; cases "ReceiveStartupMessage chunkReader_Next b") auto

theorem server_receive_safe_witness:
  "safe (fst (Backend_Receive chunkReader_Next (tiny_backend [([66, 0, 0, 0, 4], None)])))
    \<and> safe (fst (ReceiveStartupMessage chunkReader_Next (tiny_backend [([66, 0, 0, 0, 4], None)])))
    \<and> wf_chunkReader (ep_cr (snd (Backend_Receive chunkReader_Next (tiny_backend [([66, 0, 0, 0, 4], None)]))))
    \<and> wf_chunkReader (ep_cr (snd (ReceiveStartupMessage chunkReader_Next (tiny_backend [([66, 0, 0, 0, 4], None)]))))"
  by (rule server_receive_safe) (simp add: tiny_backend_def wf_tiny_reader proper_reader_def)

text \<open>
  C12: start-up. A start-up message of protocol 3.0 or 3.2 with at least one parameter, whose names are
  distinct and whose strings have no zero byte, and that fits the limit of a start-up packet, is received by
  \<open>ReceiveStartupMessage\<close> as it was sent, however it is chunked, and what follows it stays in the stream.
  (Without any parameter it is not: see \<open>startup_without_parameters\<close>.)
\<close>

theorem startup_received:
  assumes "wf_StartupMessage m" and "StartupMessage_Encode m [] = Inr out" and "length out \<le> 10004"
    and "reader_bytes rd = out @ rest" and "reliable_reader rd" and "wf_pools ps"
  shows "\<exists>b b'. NewBackend rd w ps = Inr b
    \<and> ReceiveStartupMessage chunkReader_Next b = (Inr (FM_StartupMessage m), b')
    \<and> cr_stream (ep_cr b') = rest"
proof -
  let ?body = "StartupMessage_body m"
  have out: "out = be32 (of_nat (length ?body + 4)) @ ?body"
    using startupMessage.encode_framed [OF assms(1,2)] by simp
  then have len: "length ?body \<le> 10000" "4 \<le> length ?body"
    using assms(3) by (simp_all add: StartupMessage_body_def)
  obtain r where r: "newChunkReader rd 0 ps = Inr r" "wf_chunkReader r" "cr_stream r = reader_bytes rd"
    "cr_r r = rd"
    using assms(6) reliable_proper [OF assms(5)] by (rule newChunkReader_ok)
  obtain r1 where r1: "chunkReader_Next 4 r = (Inr (be32 (of_nat (length ?body + 4))), r1)"
    "wf_chunkReader r1" "reliable_reader (cr_r r1)" "cr_stream r1 = ?body @ rest"
    using r assms(4,5) out
    by (rule_tac chunks.next_append [of r "be32 (of_nat (length ?body + 4))" "?body @ rest" 4])
      (auto simp: reliable_faults)
  obtain r2 where r2: "chunkReader_Next (length ?body) r1 = (Inr ?body, r2)" "cr_stream r2 = rest"
    using r1 by (rule_tac chunks.next_append [of r1 ?body rest "length ?body"])
      (auto simp: reliable_faults)
  have "(of_nat (length ?body + 4) :: u32) - 4 = of_nat (length ?body)"
    by simp
  then have size: "sint ((of_nat (length ?body + 4) :: u32) - 4) = int (length ?body)"
    using len(1) sint_of_nat_len [of "length ?body"] by simp
  have code: "Uint32 ?body = Inr (sm_ProtocolVersion m)"
    by (simp add: StartupMessage_body_def)
  obtain b where b: "NewBackend rd w ps = Inr b" "ep_cr b = r"
    using r(1) by (simp add: NewBackend_def)
  have "ReceiveStartupMessage chunkReader_Next b = (Inr (FM_StartupMessage m), b\<lparr>ep_cr := r2\<rparr>)"
    using b(2) r1(1) r2(1) size len code assms(1) startupMessage.decode [OF assms(1)]
    by (auto simp: ReceiveStartupMessage_def minStartupPacketLen_def maxStartupPacketLen_def
        wf_StartupMessage_def)
  with b(1) r2(2) show ?thesis by auto
qed

theorem startup_received_witness:
  "\<exists>b b'. NewBackend [([0, 0, 0, 13, 0, 3, 0], None), ([0, 117, 0, 118, 0, 0, 81], None)] quiet_writer init_pools
       = Inr b
    \<and> ReceiveStartupMessage chunkReader_Next b =
        (Inr (FM_StartupMessage \<lparr>sm_ProtocolVersion = 196608, sm_Parameters = [([117], [118])]\<rparr>), b')
    \<and> cr_stream (ep_cr b') = [81]"
proof -
  let ?m = "\<lparr>sm_ProtocolVersion = 196608, sm_Parameters = [([117], [118])]\<rparr> :: StartupMessage"
  have wf: "wf_StartupMessage ?m"
    by (simp add: wf_StartupMessage_def ProtocolVersion30_def no_nul_def)
  have enc: "StartupMessage_Encode ?m [] = Inr [0, 0, 0, 13, 0, 3, 0, 0, 117, 0, 118, 0, 0]"
    by (simp add: startupMessage.encode [OF wf] frame_def StartupMessage_body_def put_param_def
        maxMessageBodyLen_def AppendUint32_def)
  show ?thesis
    by (rule startup_received [OF wf enc])
      (simp_all add: reader_bytes_def reliable_reader_def wf_init_pools)
qed


text \<open>
  C13: what \<open>Flush\<close> reports is what happened. Whatever the writer does, the buffer and the encode error are
  cleared, the bytes written are a prefix of the buffer; success means all of it was written, and an
  error that claims to be safe to retry means that none of it was.
\<close>

theorem flush_reports:
  "case Frontend_Flush s of (err, s') \<Rightarrow>
     ep_wbuf s' = [] \<and> ep_encodeError s' = None
   \<and> (\<exists>q. prefix q (ep_wbuf s) \<and> w_out (ep_w s') = w_out (ep_w s) @ q)
   \<and> (err = None \<longleftrightarrow> ep_encodeError s = None \<and> (ep_wbuf s = [] \<or> fst (endpoint_write (ep_wbuf s) s) = None))
   \<and> (err = None \<longrightarrow> w_out (ep_w s') = w_out (ep_w s) @ ep_wbuf s)
   \<and> (\<forall>e. err = Some (WriteError e True) \<longrightarrow> w_out (ep_w s') = w_out (ep_w s))"
proof (cases "Frontend_Flush s")
  case (Pair err s')
  obtain e1 s1 where w: "endpoint_write (ep_wbuf s) s = (e1, s1)"
    by fastforce
  have "\<exists>q. prefix q (ep_wbuf s) \<and> w_out (ep_w s') = w_out (ep_w s) @ q"
    using Pair endpoint_write_spec(4) [OF w] w
    by (auto simp: Frontend_Flush_def split: option.splits if_splits)
  moreover have "err = None \<longleftrightarrow>
      ep_encodeError s = None \<and> (ep_wbuf s = [] \<or> fst (endpoint_write (ep_wbuf s) s) = None)"
    using Pair w by (auto simp: Frontend_Flush_def split: option.splits if_splits)
  ultimately show ?thesis
    using Pair Flush_empties [OF Pair] Flush_writes [of s s'] Flush_safe_to_retry [of s _ s'] by auto
qed

theorem flush_reports_witness:
  "case Frontend_Flush (idle_endpoint\<lparr>ep_wbuf := [1, 2]\<rparr>) of (err, s') \<Rightarrow>
     ep_wbuf s' = [] \<and> (err = None \<longrightarrow> w_out (ep_w s') = [1, 2])"
  using flush_reports [of "idle_endpoint\<lparr>ep_wbuf := [1, 2]\<rparr>"]
  by (auto simp: idle_defs)

text \<open>
  C14: the limit on message bodies. With a positive limit, a header is accepted only if the body it
  announces is within the limit, so the client never asks its reader for more.
\<close>

theorem header_respects_limit:
  assumes "receive_header nxt s = (None, s')" and "\<not> ep_partialMsg s" and "0 < ep_maxBodyLen s"
  shows "ep_partialMsg s' \<and> int (ep_bodyLen s') \<le> ep_maxBodyLen s' \<and> ep_maxBodyLen s' = ep_maxBodyLen s"
  using assms by (auto simp: receive_header_def Let_def split: prod.splits sum.splits if_splits)

theorem header_respects_limit_witness:
  "\<exists>s'. receive_header (\<lambda>n r. (Inr [90, 0, 0, 0, 5], r)) (idle_endpoint\<lparr>ep_maxBodyLen := 3\<rparr>) = (None, s')
    \<and> int (ep_bodyLen s') \<le> 3"
proof -
  let ?s = "idle_endpoint\<lparr>ep_maxBodyLen := 3\<rparr>"
  have "receive_header (\<lambda>n r. (Inr [90, 0, 0, 0, 5], r)) ?s =
      (None, ?s\<lparr>ep_msgType := 90, ep_bodyLen := 1, ep_partialMsg := True\<rparr>)"
    by (simp add: receive_header_def idle_endpoint_def)
  from header_respects_limit [OF this] this show ?thesis
    by (simp add: idle_endpoint_def)
qed

text \<open>
  C15: decoding a row does not depend on the rows before it. \<open>DataRow.Decode\<close> reuses the array of the
  flyweight it decodes into; the values and the error are those of a fresh flyweight.
\<close>

theorem data_row_flyweight:
  "DataRow_result dst src = DataRow_result \<lparr>dr_array = [], dr_len = 0\<rparr> src"
  by (simp only: DataRow_result_parse)


section \<open>Behaviour worth knowing\<close>

text \<open>
  \<open>SendUnbufferedEncodedCopyData\<close> flushes the buffer and then writes the message; when the second write
  fails before its first byte, the error claims to be safe to retry although the flushed bytes are out.
\<close>

lemma unbuffered_copy_claims_retry:
  "\<exists>s s' :: unit endpoint. SendUnbufferedEncodedCopyData [2] s = (Some (WriteError e True), s')
     \<and> w_out (ep_w s') = w_out (ep_w s) @ [1]"
proof -
  let ?s = "idle_endpoint\<lparr>ep_wbuf := [1], ep_w := \<lparr>w_out = [], w_script = [None, Some (0, e)]\<rparr>\<rparr>"
  have "SendUnbufferedEncodedCopyData [2] ?s =
      (Some (WriteError e True), ?s\<lparr>ep_wbuf := [], ep_w := \<lparr>w_out = [1], w_script = []\<rparr>\<rparr>)"
    by (simp add: SendUnbufferedEncodedCopyData_def Frontend_Flush_def idle_defs)
  then show ?thesis by fastforce
qed

text \<open>
  A message of unknown type stops the server for good: its header is recorded, its body never read, and
  every later \<open>Receive\<close> fails in the same way without touching the stream.
\<close>

lemma unknown_type_sticks:
  assumes "Backend_Receive nxt b = (res, b')" and "receive_header nxt b = (None, b1)"
    and "frontend_decoder (ep_authType b1) (ep_msgType b1) = None" and "ep_partialMsg b1"
  shows "res = Inl (Errorf ''unknown message type: %c'' (uint (ep_msgType b1)))
    \<and> Backend_Receive nxt b' = (res, b')"
proof -
  have "b' = b1" "res = Inl (Errorf ''unknown message type: %c'' (uint (ep_msgType b1)))"
    using assms by (auto simp: Backend_Receive_def)
  moreover have "receive_header nxt b1 = (None, b1)"
    using assms(4) by (simp add: receive_header_def)
  ultimately show ?thesis
    using assms(3) by (simp add: Backend_Receive_def)
qed

text \<open>
  A start-up message without parameters encodes to a packet that \<open>Decode\<close> rejects: it looks for a key
  before it looks for the terminator.
\<close>

lemma startup_without_parameters:
  assumes "v = ProtocolVersion30 \<or> v = ProtocolVersion32"
  shows "StartupMessage_Encode \<lparr>sm_ProtocolVersion = v, sm_Parameters = []\<rparr> [] =
      Inr (be32 9 @ be32 v @ [0])"
    and "\<not> (\<exists>m. StartupMessage_Decode (be32 v @ [0]) = Inr m)"
proof -
  show "StartupMessage_Encode \<lparr>sm_ProtocolVersion = v, sm_Parameters = []\<rparr> [] = Inr (be32 9 @ be32 v @ [0])"
    by (simp add: StartupMessage_encode frame_def StartupMessage_body_def maxMessageBodyLen_def)
  show "\<not> (\<exists>m. StartupMessage_Decode (be32 v @ [0]) = Inr m)"
    using assms by (auto simp: StartupMessage_Decode_def StartupMessage_loop.simps [of "[0]"] cut_string_def)
qed

end
