(* ===== verification/Stmt_Cache.thy ===== *)
theory Stmt_Cache
  imports Pgx_Prelude "HOL-Library.Multiset"
begin

text \<open>
  What a statement cache promises (\<open>internal/stmtcache/stmtcache.go\<close>): the entries in order of use, most
  recent first, and the entries invalidated since the last \<open>RemoveInvalidated\<close>. The interface
  \<open>stmt_cache\<close> states that an implementation simulates these operations; its consequences for whole
  sequences of calls are proved once, inside it.
\<close>

text \<open>The descriptions of \<open>pgconn\<close>; the result columns are those of the protocol message, copied.\<close>

record pgconn_FieldDescription =
  col_Name :: bytes
  col_TableOID :: u32
  col_TableAttributeNumber :: u16
  col_DataTypeOID :: u32
  col_DataTypeSize :: u16
  col_TypeModifier :: u32
  col_Format :: u16

record StatementDescription =
  sd_Name :: bytes
  sd_SQL :: bytes
  sd_ParamOIDs :: "u32 list"
  sd_Fields :: "pgconn_FieldDescription list"

record spec_cache =
  sc_entries :: "StatementDescription list"
  sc_invalid :: "StatementDescription list"

section \<open>The specified operations\<close>

definition lookup_sql :: "bytes \<Rightarrow> StatementDescription list \<Rightarrow> StatementDescription option" where
  "lookup_sql k es = find (\<lambda>sd. sd_SQL sd = k) es"

definition without_sql :: "bytes \<Rightarrow> StatementDescription list \<Rightarrow> StatementDescription list" where
  "without_sql k es = filter (\<lambda>sd. sd_SQL sd \<noteq> k) es"

definition spec_Get :: "bytes \<Rightarrow> spec_cache \<Rightarrow> StatementDescription option \<times> spec_cache" where
  "spec_Get k a =
     (case lookup_sql k (sc_entries a) of
        None \<Rightarrow> (None, a)
      | Some sd \<Rightarrow> (Some sd, a\<lparr>sc_entries := sd # without_sql k (sc_entries a)\<rparr>))"

definition spec_evict :: "spec_cache \<Rightarrow> spec_cache" where
  "spec_evict a =
     (if sc_entries a = [] then a
      else a\<lparr>sc_entries := butlast (sc_entries a), sc_invalid := sc_invalid a @ [last (sc_entries a)]\<rparr>)"

definition spec_Put :: "int \<Rightarrow> StatementDescription \<Rightarrow> spec_cache \<Rightarrow> spec_cache" where
  "spec_Put cap sd a =
     (if sd_SQL sd \<in> sd_SQL ` set (sc_entries a) \<or> sd_SQL sd \<in> sd_SQL ` set (sc_invalid a) then a
      else
        let a' = (if int (length (sc_entries a)) = cap then spec_evict a else a)
        in a'\<lparr>sc_entries := sd # sc_entries a'\<rparr>)"

definition spec_Invalidate :: "bytes \<Rightarrow> spec_cache \<Rightarrow> spec_cache" where
  "spec_Invalidate k a =
     (case lookup_sql k (sc_entries a) of
        None \<Rightarrow> a
      | Some sd \<Rightarrow> a\<lparr>sc_entries := without_sql k (sc_entries a), sc_invalid := sc_invalid a @ [sd]\<rparr>)"

definition spec_InvalidateAll :: "spec_cache \<Rightarrow> spec_cache" where
  "spec_InvalidateAll a = \<lparr>sc_entries = [], sc_invalid = sc_invalid a @ sc_entries a\<rparr>"

definition spec_RemoveInvalidated :: "spec_cache \<Rightarrow> spec_cache" where
  "spec_RemoveInvalidated a = a\<lparr>sc_invalid := []\<rparr>"

datatype cache_op =
    Op_Get bytes
  | Op_Put StatementDescription
  | Op_Invalidate bytes
  | Op_InvalidateAll
  | Op_RemoveInvalidated

fun spec_step :: "int \<Rightarrow> cache_op \<Rightarrow> spec_cache \<Rightarrow> spec_cache" where
  "spec_step cap (Op_Get k) a = snd (spec_Get k a)"
| "spec_step cap (Op_Put sd) a = spec_Put cap sd a"
| "spec_step cap (Op_Invalidate k) a = spec_Invalidate k a"
| "spec_step cap Op_InvalidateAll a = spec_InvalidateAll a"
| "spec_step cap Op_RemoveInvalidated a = spec_RemoveInvalidated a"

text \<open>A call that does not panic by contract: \<open>Put\<close> wants a non-empty SQL text.\<close>

fun proper_op :: "cache_op \<Rightarrow> bool" where
  "proper_op (Op_Put sd) \<longleftrightarrow> sd_SQL sd \<noteq> []"
| "proper_op _ \<longleftrightarrow> True"

section \<open>The invariant of the specification\<close>

text \<open>
  The SQL texts of cached and invalidated statements are all different, so that no statement is
  handed out that is about to be deallocated, and the capacity is respected.
\<close>

definition spec_inv :: "int \<Rightarrow> spec_cache \<Rightarrow> bool" where
  "spec_inv cap a \<longleftrightarrow>
     distinct (map sd_SQL (sc_entries a @ sc_invalid a)) \<and> (0 < cap \<longrightarrow> int (length (sc_entries a)) \<le> cap)"

definition empty_cache :: spec_cache where
  "empty_cache = \<lparr>sc_entries = [], sc_invalid = []\<rparr>"

lemma spec_inv_empty: "spec_inv cap empty_cache"
  by (simp add: spec_inv_def empty_cache_def)

lemma lookup_sql_Some:
  "lookup_sql k es = Some sd \<longleftrightarrow> (\<exists>xs ys. es = xs @ sd # ys \<and> sd_SQL sd = k \<and> k \<notin> sd_SQL ` set xs)"
proof
  show "lookup_sql k es = Some sd \<Longrightarrow> \<exists>xs ys. es = xs @ sd # ys \<and> sd_SQL sd = k \<and> k \<notin> sd_SQL ` set xs"
  proof (induction es)
    case (Cons e es)
    show ?case
    proof (cases "sd_SQL e = k")
      case True
      with Cons.prems show ?thesis
        by (intro exI [of _ "[]"] exI [of _ es]) (simp add: lookup_sql_def)
    next
      case False
      with Cons obtain xs ys where "es = xs @ sd # ys" "sd_SQL sd = k" "k \<notin> sd_SQL ` set xs"
        by (auto simp: lookup_sql_def)
      with False show ?thesis
        by (intro exI [of _ "e # xs"] exI [of _ ys]) auto
    qed
  qed (simp add: lookup_sql_def)
next
  assume "\<exists>xs ys. es = xs @ sd # ys \<and> sd_SQL sd = k \<and> k \<notin> sd_SQL ` set xs"
  then obtain xs ys where es: "es = xs @ sd # ys" "sd_SQL sd = k" "k \<notin> sd_SQL ` set xs" by blast
  then show "lookup_sql k es = Some sd"
    by (induction xs arbitrary: es) (auto simp: lookup_sql_def)
qed

lemma lookup_sql_None: "lookup_sql k es = None \<longleftrightarrow> k \<notin> sd_SQL ` set es"
  by (auto simp: lookup_sql_def find_None_iff)

lemma without_sql_split:
  "distinct (map sd_SQL (xs @ sd # ys)) \<Longrightarrow> without_sql (sd_SQL sd) (xs @ sd # ys) = xs @ ys"
  by (auto simp: without_sql_def image_iff intro!: arg_cong2 [of _ _ _ _ append] filter_True)

lemma lookup_split:
  assumes "lookup_sql k es = Some sd" and "distinct (map sd_SQL es)"
  obtains xs ys where "es = xs @ sd # ys" and "sd_SQL sd = k" and "without_sql k es = xs @ ys"
  using assms without_sql_split by (auto simp: lookup_sql_Some)

text \<open>All the statements a cache knows; most operations only rearrange them.\<close>

definition sc_all :: "spec_cache \<Rightarrow> StatementDescription multiset" where
  "sc_all a = mset (sc_entries a @ sc_invalid a)"

lemma distinct_map_mset: "mset xs = mset ys \<Longrightarrow> distinct (map f xs) = distinct (map f ys)"
  by (metis mset_eq_imp_distinct_iff mset_map)

lemma spec_inv_rearrange:
  assumes "spec_inv cap a" and "sc_all a' = sc_all a"
    and "length (sc_entries a') \<le> length (sc_entries a)"
  shows "spec_inv cap a'"
  using assms distinct_map_mset [of "sc_entries a' @ sc_invalid a'" "sc_entries a @ sc_invalid a" sd_SQL]
  by (auto simp: spec_inv_def sc_all_def)

lemma spec_evict_all: "sc_all (spec_evict a) = sc_all a"
  by (cases "sc_entries a" rule: rev_cases) (simp_all add: spec_evict_def sc_all_def)

lemma spec_Get_all:
  "distinct (map sd_SQL (sc_entries a)) \<Longrightarrow> sc_all (snd (spec_Get k a)) = sc_all a
     \<and> length (sc_entries (snd (spec_Get k a))) = length (sc_entries a)"
  by (auto simp: spec_Get_def sc_all_def split: option.splits elim!: lookup_split)

lemma spec_Invalidate_all:
  "distinct (map sd_SQL (sc_entries a)) \<Longrightarrow> sc_all (spec_Invalidate k a) = sc_all a
     \<and> length (sc_entries (spec_Invalidate k a)) \<le> length (sc_entries a)"
  by (auto simp: spec_Invalidate_def sc_all_def split: option.splits elim!: lookup_split)

lemma spec_inv_insert:
  assumes "spec_inv cap a" and "sd_SQL sd \<notin> sd_SQL ` set_mset (sc_all a)"
    and "0 < cap \<longrightarrow> int (length (sc_entries a)) < cap"
  shows "spec_inv cap (a\<lparr>sc_entries := sd # sc_entries a\<rparr>)"
  using assms by (auto simp: spec_inv_def sc_all_def image_Un)

lemma spec_evict_length:
  "sc_entries a \<noteq> [] \<Longrightarrow> length (sc_entries (spec_evict a)) = length (sc_entries a) - 1"
  by (simp add: spec_evict_def)

lemma spec_inv_Put:
  assumes "spec_inv cap a"
  shows "spec_inv cap (spec_Put cap sd a)"
proof (cases "sd_SQL sd \<in> sd_SQL ` set_mset (sc_all a)")
  case True
  with assms show ?thesis by (auto simp: spec_Put_def sc_all_def)
next
  case False
  define a' where "a' = (if int (length (sc_entries a)) = cap then spec_evict a else a)"
  have all: "sc_all a' = sc_all a"
    by (simp add: a'_def spec_evict_all)
  moreover have "length (sc_entries a') \<le> length (sc_entries a)"
    by (simp add: a'_def spec_evict_def)
  ultimately have "spec_inv cap a'"
    using assms by (blast intro: spec_inv_rearrange)
  moreover have "0 < cap \<longrightarrow> int (length (sc_entries a')) < cap"
    using assms by (auto simp: a'_def spec_inv_def spec_evict_length)
  ultimately show ?thesis
    using False all spec_inv_insert [of cap a' sd]
    by (auto simp: spec_Put_def a'_def sc_all_def Let_def)
qed

lemma spec_inv_step:
  assumes "spec_inv cap a"
  shows "spec_inv cap (spec_step cap op a)"
proof (cases op)
  case (Op_Get k)
  have "distinct (map sd_SQL (sc_entries a))"
    using assms by (simp add: spec_inv_def)
  from spec_Get_all [OF this, of k] assms Op_Get show ?thesis
    by (auto intro: spec_inv_rearrange)
next
  case (Op_Put sd)
  with assms show ?thesis by (simp add: spec_inv_Put)
next
  case (Op_Invalidate k)
  have "distinct (map sd_SQL (sc_entries a))"
    using assms by (simp add: spec_inv_def)
  from spec_Invalidate_all [OF this, of k] assms Op_Invalidate show ?thesis
    by (auto intro: spec_inv_rearrange)
next
  case Op_InvalidateAll
  with assms show ?thesis
    by (auto simp: spec_InvalidateAll_def sc_all_def intro: spec_inv_rearrange)
next
  case Op_RemoveInvalidated
  with assms show ?thesis
    by (auto simp: spec_RemoveInvalidated_def spec_inv_def)
qed

section \<open>The interface\<close>

primrec run_ops :: "(cache_op \<Rightarrow> 'c \<Rightarrow> 'c result) \<Rightarrow> cache_op list \<Rightarrow> 'c \<Rightarrow> 'c result" where
  "run_ops step [] c = Inr c"
| "run_ops step (op # ops) c = bindE (step op c) (run_ops step ops)"

locale stmt_cache =
  fixes rel :: "'c \<Rightarrow> spec_cache \<Rightarrow> bool"
    and init :: 'c
    and step :: "cache_op \<Rightarrow> 'c \<Rightarrow> 'c result"
    and get :: "bytes \<Rightarrow> 'c \<Rightarrow> (StatementDescription option \<times> 'c) result"
    and len :: "'c \<Rightarrow> int"
    and cap :: int
  assumes init: "rel init empty_cache"
    and sim: "rel c a \<Longrightarrow> proper_op op \<Longrightarrow> \<exists>c'. step op c = Inr c' \<and> rel c' (spec_step cap op a)"
    and sim_get: "rel c a \<Longrightarrow> \<exists>c'. get k c = Inr (fst (spec_Get k a), c') \<and> rel c' (snd (spec_Get k a))"
    and len: "rel c a \<Longrightarrow> len c = int (length (sc_entries a))"
begin

lemma run_sim:
  "rel c a \<Longrightarrow> \<forall>op\<in>set ops. proper_op op \<Longrightarrow>
     \<exists>c'. run_ops step ops c = Inr c' \<and> rel c' (fold (spec_step cap) ops a)"
proof (induction ops arbitrary: c a)
  case (Cons op ops)
  then obtain c1 where "step op c = Inr c1" "rel c1 (spec_step cap op a)"
    using sim by (meson list.set_intros(1))
  with Cons.IH [of c1 "spec_step cap op a"] Cons.prems(2) show ?case by auto
qed simp

lemma spec_inv_run: "spec_inv cap a \<Longrightarrow> spec_inv cap (fold (spec_step cap) ops a)"
  by (induction ops arbitrary: a) (simp_all add: spec_inv_step)

text \<open>From a new cache, no sequence of proper calls panics, and the capacity is never exceeded.\<close>

lemma run_init:
  assumes "\<forall>op\<in>set ops. proper_op op"
  obtains c where "run_ops step ops init = Inr c"
    and "rel c (fold (spec_step cap) ops empty_cache)"
    and "spec_inv cap (fold (spec_step cap) ops empty_cache)"
    and "0 < cap \<Longrightarrow> len c \<le> cap"
proof -
  obtain c where c: "run_ops step ops init = Inr c" "rel c (fold (spec_step cap) ops empty_cache)"
    using run_sim [OF init assms] by blast
  moreover have inv: "spec_inv cap (fold (spec_step cap) ops empty_cache)"
    by (rule spec_inv_run) (rule spec_inv_empty)
  moreover have "len c \<le> cap" if "0 < cap"
    using inv that len [OF c(2)] by (simp add: spec_inv_def)
  ultimately show ?thesis by (intro that)
qed

lemma get_after_put:
  assumes "rel c a" and "sd_SQL sd \<noteq> []"
    and "sd_SQL sd \<notin> sd_SQL ` set (sc_entries a)" and "sd_SQL sd \<notin> sd_SQL ` set (sc_invalid a)"
  obtains c1 c2 where "step (Op_Put sd) c = Inr c1" and "get (sd_SQL sd) c1 = Inr (Some sd, c2)"
proof -
  obtain c1 where c1: "step (Op_Put sd) c = Inr c1" "rel c1 (spec_Put cap sd a)"
    using sim [OF assms(1), of "Op_Put sd"] assms(2) by auto
  moreover obtain c2 where "get (sd_SQL sd) c1 = Inr (fst (spec_Get (sd_SQL sd) (spec_Put cap sd a)), c2)"
    using sim_get [OF c1(2)] by blast
  moreover have "fst (spec_Get (sd_SQL sd) (spec_Put cap sd a)) = Some sd"
    using assms(3,4) by (auto simp: spec_Put_def spec_Get_def lookup_sql_def Let_def)
  ultimately show ?thesis by (intro that) auto
qed

end

end
