(* ===== verification/Lru_Cache.thy ===== *)
theory Lru_Cache
  imports Stmt_Cache
begin

text \<open>
  The LRU statement cache of \<open>internal/stmtcache/lru_cache.go\<close> with its pointers: a doubly linked list
  between two sentinels, a free list of nodes and a map from SQL texts to nodes. The heap is
  split by field; an address is a node, \<open>None\<close> is \<open>nil\<close>, and following \<open>nil\<close> panics. The cache is shown
  to simulate the specification of \<open>Stmt_Cache\<close>.
\<close>

section \<open>The state\<close>

record LRUCache =
  c_m :: "bytes \<rightharpoonup> nat"
  c_head :: nat
  c_tail :: nat
  c_len :: int
  c_cap :: int
  c_freelist :: "nat option"
  c_invalidStmts :: "StatementDescription list"
  c_invalidSet :: "bytes set"
  c_sd :: "nat \<Rightarrow> StatementDescription option"
  c_prev :: "nat \<Rightarrow> nat option"
  c_next :: "nat \<Rightarrow> nat option"
  c_fresh :: nat

definition deref :: "'a option \<Rightarrow> 'a result" where
  "deref p = (case p of None \<Rightarrow> Inl GoPanic | Some x \<Rightarrow> Inr x)"

lemma deref_simps [simp]: "deref (Some x) = Inr x" "deref None = Inl GoPanic"
  by (simp_all add: deref_def)

definition NewLRUCache :: "int \<Rightarrow> LRUCache" where
  "NewLRUCache cap =
     \<lparr>c_m = Map.empty, c_head = 0, c_tail = 1, c_len = 0, c_cap = cap, c_freelist = None,
      c_invalidStmts = [], c_invalidSet = {}, c_sd = (\<lambda>_. None),
      c_prev = (\<lambda>_. None)(1 := Some 0), c_next = (\<lambda>_. None)(0 := Some 1), c_fresh = 2\<rparr>"

section \<open>List operations\<close>

definition insertAfter :: "nat \<Rightarrow> nat \<Rightarrow> LRUCache \<Rightarrow> LRUCache result" where
  "insertAfter at_node node c =
     (let c = c\<lparr>c_prev := (c_prev c)(node := Some at_node)\<rparr>;
          c = c\<lparr>c_next := (c_next c)(node := c_next c at_node)\<rparr>
      in bindE (deref (c_next c at_node)) (\<lambda>nx.
           let c = c\<lparr>c_prev := (c_prev c)(nx := Some node)\<rparr>
           in Inr (c\<lparr>c_next := (c_next c)(at_node := Some node)\<rparr>)))"

definition unlink :: "nat \<Rightarrow> LRUCache \<Rightarrow> LRUCache result" where
  "unlink node c =
     bindE (deref (c_prev c node)) (\<lambda>pv.
       let c = c\<lparr>c_next := (c_next c)(pv := c_next c node)\<rparr>
       in bindE (deref (c_next c node)) (\<lambda>nx.
            Inr (c\<lparr>c_prev := (c_prev c)(nx := c_prev c node)\<rparr>)))"

definition moveToFront :: "nat \<Rightarrow> LRUCache \<Rightarrow> LRUCache result" where
  "moveToFront node c =
     (if c_prev c node = Some (c_head c) then Inr c
      else bindE (unlink node c) (insertAfter (c_head c) node))"

definition allocNode :: "LRUCache \<Rightarrow> nat \<times> LRUCache" where
  "allocNode c =
     (case c_freelist c of
        Some node \<Rightarrow>
          (node, c\<lparr>c_freelist := c_next c node, c_next := (c_next c)(node := None),
                   c_prev := (c_prev c)(node := None)\<rparr>)
      | None \<Rightarrow>
          (c_fresh c,
           c\<lparr>c_fresh := Suc (c_fresh c), c_sd := (c_sd c)(c_fresh c := None),
             c_prev := (c_prev c)(c_fresh c := None), c_next := (c_next c)(c_fresh c := None)\<rparr>))"

definition freeNode :: "nat \<Rightarrow> LRUCache \<Rightarrow> LRUCache" where
  "freeNode node c =
     c\<lparr>c_sd := (c_sd c)(node := None), c_prev := (c_prev c)(node := None),
       c_next := (c_next c)(node := c_freelist c), c_freelist := Some node\<rparr>"

section \<open>The cache operations\<close>

definition LRUCache_Get :: "bytes \<Rightarrow> LRUCache \<Rightarrow> (StatementDescription option \<times> LRUCache) result" where
  "LRUCache_Get key c =
     (case c_m c key of
        None \<Rightarrow> Inr (None, c)
      | Some node \<Rightarrow> bindE (moveToFront node c) (\<lambda>c. Inr (c_sd c node, c)))"

definition invalidateOldest :: "LRUCache \<Rightarrow> LRUCache result" where
  "invalidateOldest c =
     bindE (deref (c_prev c (c_tail c))) (\<lambda>node.
       if node = c_head c then Inr c
       else bindE (deref (c_sd c node)) (\<lambda>sd.
         let c = c\<lparr>c_invalidStmts := c_invalidStmts c @ [sd],
                   c_invalidSet := insert (sd_SQL sd) (c_invalidSet c),
                   c_m := (c_m c)(sd_SQL sd := None)\<rparr>
         in bindE (unlink node c) (\<lambda>c.
              Inr (freeNode node (c\<lparr>c_len := c_len c - 1\<rparr>)))))"

definition LRUCache_Put :: "StatementDescription \<Rightarrow> LRUCache \<Rightarrow> LRUCache result" where
  "LRUCache_Put sd c =
     (if sd_SQL sd = [] then Inl GoPanic
      else if c_m c (sd_SQL sd) \<noteq> None then Inr c
      else if sd_SQL sd \<in> c_invalidSet c then Inr c
      else
        bindE (if c_len c = c_cap c then invalidateOldest c else Inr c) (\<lambda>c.
          let (node, c) = allocNode c;
              c = c\<lparr>c_sd := (c_sd c)(node := Some sd)\<rparr>
          in bindE (insertAfter (c_head c) node c) (\<lambda>c.
               Inr (c\<lparr>c_m := (c_m c)(sd_SQL sd := Some node), c_len := c_len c + 1\<rparr>))))"

definition LRUCache_Invalidate :: "bytes \<Rightarrow> LRUCache \<Rightarrow> LRUCache result" where
  "LRUCache_Invalidate sql c =
     (case c_m c sql of
        None \<Rightarrow> Inr c
      | Some node \<Rightarrow>
          let c = c\<lparr>c_m := (c_m c)(sql := None)\<rparr>
          in bindE (deref (c_sd c node)) (\<lambda>sd.
               let c = c\<lparr>c_invalidStmts := c_invalidStmts c @ [sd],
                         c_invalidSet := insert sql (c_invalidSet c)\<rparr>
               in bindE (unlink node c) (\<lambda>c.
                    Inr (freeNode node (c\<lparr>c_len := c_len c - 1\<rparr>)))))"

text \<open>
  The loop of \<open>InvalidateAll\<close>; that it ends is a property of the list, so it is a partial function:
  \<open>None\<close> is a run that does not return.
\<close>

partial_function (option) InvalidateAll_loop :: "nat option \<Rightarrow> LRUCache \<Rightarrow> LRUCache result option" where
  "InvalidateAll_loop p c =
     (if p = Some (c_tail c) then Some (Inr c)
      else case p of
        None \<Rightarrow> Some (Inl GoPanic)
      | Some node \<Rightarrow>
          (case c_sd c node of
             None \<Rightarrow> Some (Inl GoPanic)
           | Some sd \<Rightarrow>
               InvalidateAll_loop (c_next c node)
                 (freeNode node
                   (c\<lparr>c_invalidStmts := c_invalidStmts c @ [sd],
                      c_invalidSet := insert (sd_SQL sd) (c_invalidSet c)\<rparr>))))"

definition LRUCache_InvalidateAll :: "LRUCache \<Rightarrow> LRUCache result option" where
  "LRUCache_InvalidateAll c =
     (case InvalidateAll_loop (c_next c (c_head c)) c of
        None \<Rightarrow> None
      | Some (Inl e) \<Rightarrow> Some (Inl e)
      | Some (Inr c) \<Rightarrow>
          Some (Inr (c\<lparr>c_m := Map.empty, c_next := (c_next c)(c_head c := Some (c_tail c)),
                      c_prev := (c_prev c)(c_tail c := Some (c_head c)), c_len := 0\<rparr>)))"

definition LRUCache_GetInvalidated :: "LRUCache \<Rightarrow> StatementDescription list" where
  "LRUCache_GetInvalidated c = c_invalidStmts c"

definition LRUCache_RemoveInvalidated :: "LRUCache \<Rightarrow> LRUCache" where
  "LRUCache_RemoveInvalidated c = c\<lparr>c_invalidStmts := [], c_invalidSet := {}\<rparr>"

definition LRUCache_Len :: "LRUCache \<Rightarrow> int" where
  "LRUCache_Len c = c_len c"

definition LRUCache_Cap :: "LRUCache \<Rightarrow> int" where
  "LRUCache_Cap c = c_cap c"

text \<open>One call; a run of \<open>InvalidateAll\<close> that does not return is no result at all, here an error.\<close>

fun LRUCache_step :: "cache_op \<Rightarrow> LRUCache \<Rightarrow> LRUCache result" where
  "LRUCache_step (Op_Get k) c = bindE (LRUCache_Get k c) (\<lambda>(_, c). Inr c)"
| "LRUCache_step (Op_Put sd) c = LRUCache_Put sd c"
| "LRUCache_step (Op_Invalidate k) c = LRUCache_Invalidate k c"
| "LRUCache_step Op_InvalidateAll c =
     (case LRUCache_InvalidateAll c of None \<Rightarrow> Inl GoPanic | Some r \<Rightarrow> r)"
| "LRUCache_step Op_RemoveInvalidated c = Inr (LRUCache_RemoveInvalidated c)"

section \<open>Doubly linked lists\<close>

fun dll :: "(nat \<Rightarrow> nat option) \<Rightarrow> (nat \<Rightarrow> nat option) \<Rightarrow> nat \<Rightarrow> nat list \<Rightarrow> nat \<Rightarrow> bool" where
  "dll n p a [] z \<longleftrightarrow> n a = Some z \<and> p z = Some a"
| "dll n p a (b # bs) z \<longleftrightarrow> n a = Some b \<and> p b = Some a \<and> dll n p b bs z"

lemma dll_append: "dll n p a (xs @ b # ys) z \<longleftrightarrow> dll n p a xs b \<and> dll n p b ys z"
  by (induction xs arbitrary: a) auto

lemma dll_next_upd [simp]: "x \<notin> set (a # xs) \<Longrightarrow> dll (n(x := v)) p a xs z = dll n p a xs z"
  by (induction xs arbitrary: a) auto

lemma dll_prev_upd [simp]: "x \<notin> set (xs @ [z]) \<Longrightarrow> dll n (p(x := v)) a xs z = dll n p a xs z"
  by (induction xs arbitrary: a) auto

lemma dll_first: "dll n p a xs z \<Longrightarrow> n a = Some (hd (xs @ [z]))"
  by (cases xs) auto

lemma dll_last: "dll n p a xs z \<Longrightarrow> p z = Some (last (a # xs))"
  by (induction xs arbitrary: a) auto

lemma dll_set_first:
  assumes "dll n p a xs z" and "distinct (a # xs @ [z])" and "b \<notin> set (xs @ [z])"
  shows "dll (n(b := Some (hd (xs @ [z])))) (p(hd (xs @ [z]) := Some b)) b xs z"
  using assms by (cases xs) auto

lemma dll_relink:
  assumes "dll n p a xs b" and "dll n p b ys z" and "distinct (a # xs @ b # ys @ [z])"
  shows "dll (n(last (a # xs) := n b)) (p(hd (ys @ [z]) := p b)) a (xs @ ys) z"
proof (cases xs rule: rev_cases)
  case Nil
  then show ?thesis
    using assms dll_first [OF assms(2)] dll_set_first [of n p b ys z a] by auto
next
  case (snoc us u)
  then have us: "dll n p a us u" and u: "n u = Some b" "p b = Some u"
    using assms(1) by (auto simp: dll_append)
  have "dll (n(u := n b)) (p(hd (ys @ [z]) := Some u)) u ys z"
    using assms snoc dll_first [OF assms(2)] dll_set_first [of n p b ys z u] by auto
  moreover have "dll (n(u := n b)) (p(hd (ys @ [z]) := Some u)) a us u"
    using us assms(3) snoc by (cases ys) auto
  ultimately show ?thesis
    using snoc u by (simp add: dll_append)
qed

text \<open>The free list.\<close>

fun flist :: "(nat \<Rightarrow> nat option) \<Rightarrow> nat option \<Rightarrow> nat list \<Rightarrow> bool" where
  "flist n q [] \<longleftrightarrow> q = None"
| "flist n q (b # bs) \<longleftrightarrow> q = Some b \<and> flist n (n b) bs"

lemma flist_upd [simp]: "x \<notin> set xs \<Longrightarrow> flist (n(x := v)) q xs = flist n q xs"
  by (induction xs arbitrary: q) auto


lemma dll_insert:
  assumes "dll n p a xs z" and "distinct (a # xs @ [z])" and "b \<notin> set (a # xs @ [z])"
  shows "dll (n(b := n a, a := Some b)) (p(b := Some a, hd (xs @ [z]) := Some b)) a (b # xs) z"
proof -
  have "dll (n(b := Some (hd (xs @ [z])))) (p(hd (xs @ [z]) := Some b)) b xs z"
    using assms by (intro dll_set_first) auto
  moreover have "hd (xs @ [z]) \<noteq> b"
    using assms(3) by (cases xs) auto
  then have "p(b := Some a, hd (xs @ [z]) := Some b) = p(hd (xs @ [z]) := Some b, b := Some a)"
    by (rule fun_upd_twist [OF not_sym])
  ultimately show ?thesis
    using assms dll_first [OF assms(1)] by simp
qed

section \<open>The invariant\<close>

text \<open>
  \<open>ps\<close> are the nodes of the list with their statements, most recently used first; \<open>fs\<close> the free nodes.
\<close>

definition lru_nodes :: "LRUCache \<Rightarrow> (nat \<times> StatementDescription) list \<Rightarrow> nat list \<Rightarrow> bool" where
  "lru_nodes c ps fs \<longleftrightarrow>
     dll (c_next c) (c_prev c) (c_head c) (map fst ps) (c_tail c)
   \<and> distinct (c_head c # c_tail c # map fst ps @ fs)
   \<and> flist (c_next c) (c_freelist c) fs
   \<and> (\<forall>x\<in>set (c_head c # c_tail c # map fst ps @ fs). x < c_fresh c)
   \<and> (\<forall>(x, sd)\<in>set ps. c_sd c x = Some sd)"

definition lru_index :: "LRUCache \<Rightarrow> (nat \<times> StatementDescription) list \<Rightarrow> bool" where
  "lru_index c ps \<longleftrightarrow>
     (\<forall>k x. c_m c k = Some x \<longleftrightarrow> (\<exists>sd. (x, sd) \<in> set ps \<and> sd_SQL sd = k))
   \<and> c_len c = int (length ps)
   \<and> c_invalidSet c = sd_SQL ` set (c_invalidStmts c)
   \<and> distinct (map sd_SQL (map snd ps @ c_invalidStmts c))"

lemma unlink_ok:
  assumes "lru_nodes c (xs @ (b, sd) # ys) fs"
  obtains c' where "unlink b c = Inr c'" and "c' = c\<lparr>c_next := c_next c', c_prev := c_prev c'\<rparr>"
    and "lru_nodes c' (xs @ ys) fs" and "c_sd c b = Some sd" and "c_next c' b = c_next c b"
proof -
  let ?n = "c_next c" and ?p = "c_prev c" and ?a = "c_head c" and ?z = "c_tail c"
  define u v where uv: "u = last (?a # map fst xs)" "v = hd (map fst ys @ [?z])"
  have l: "dll ?n ?p ?a (map fst xs) b" and r: "dll ?n ?p b (map fst ys) ?z"
    and dist: "distinct (?a # map fst xs @ b # map fst ys @ [?z])"
    and dfs: "distinct ((?a # map fst xs) @ b # fs)"
    using assms by (auto simp: lru_nodes_def dll_append)
  have "u \<in> set (?a # map fst xs)"
    unfolding uv by (rule last_in_set) simp
  with dfs have out: "b \<notin> set fs" "u \<notin> set fs" "b \<noteq> u"
    by (metis disjoint_iff distinct.simps(2) distinct_append list.set_intros(1) list.set_intros(2))+
  have "?p b = Some u" "?n b = Some v"
    using dll_last [OF l] dll_first [OF r] uv by auto
  then have "unlink b c = Inr (c\<lparr>c_next := ?n(u := ?n b), c_prev := ?p(v := ?p b)\<rparr>)"
    using out(3) by (simp add: unlink_def)
  moreover have "dll (?n(u := ?n b)) (?p(v := ?p b)) ?a (map fst xs @ map fst ys) ?z"
    using dll_relink [OF l r dist] unfolding uv .
  ultimately show ?thesis
    using assms out by (intro that [of "c\<lparr>c_next := ?n(u := ?n b), c_prev := ?p(v := ?p b)\<rparr>"])
      (simp_all add: lru_nodes_def)
qed

lemma insertAfter_ok:
  assumes "lru_nodes c ps fs" and "b \<notin> set (c_head c # c_tail c # map fst ps @ fs)"
    and "b < c_fresh c" and "c_sd c b = Some sd"
  obtains c' where "insertAfter (c_head c) b c = Inr c'"
    and "c' = c\<lparr>c_next := c_next c', c_prev := c_prev c'\<rparr>" and "lru_nodes c' ((b, sd) # ps) fs"
proof -
  let ?n = "c_next c" and ?p = "c_prev c" and ?a = "c_head c" and ?z = "c_tail c"
  define v where "v = hd (map fst ps @ [?z])"
  have d: "dll ?n ?p ?a (map fst ps) ?z" "distinct (?a # map fst ps @ [?z])"
    using assms(1) by (auto simp: lru_nodes_def)
  have "?n ?a = Some v" "b \<noteq> ?a"
    using dll_first [OF d(1)] assms(2) v_def by auto
  then have "insertAfter ?a b c =
      Inr (c\<lparr>c_next := ?n(b := ?n ?a, ?a := Some b), c_prev := ?p(b := Some ?a, v := Some b)\<rparr>)"
    by (simp add: insertAfter_def Let_def)
  moreover have "dll (?n(b := ?n ?a, ?a := Some b)) (?p(b := Some ?a, v := Some b)) ?a (map fst ((b, sd) # ps)) ?z"
    using assms(2) dll_insert [OF d, of b] v_def by simp
  moreover have "flist (?n(b := ?n ?a, ?a := Some b)) (c_freelist c) fs"
    "distinct (?a # ?z # map fst ((b, sd) # ps) @ fs)"
    using assms by (auto simp: lru_nodes_def)
  ultimately show ?thesis
    using assms
    by (intro that [of "c\<lparr>c_next := ?n(b := ?n ?a, ?a := Some b), c_prev := ?p(b := Some ?a, v := Some b)\<rparr>"])
      (simp_all add: lru_nodes_def del: dll.simps)
qed

lemma moveToFront_ok:
  assumes "lru_nodes c (xs @ (b, sd) # ys) fs"
  obtains c' where "moveToFront b c = Inr c'" and "c' = c\<lparr>c_next := c_next c', c_prev := c_prev c'\<rparr>"
    and "lru_nodes c' ((b, sd) # xs @ ys) fs"
proof (cases "c_prev c b = Some (c_head c)")
  case True
  have l: "dll (c_next c) (c_prev c) (c_head c) (map fst xs) b"
    and dist: "distinct (c_head c # map fst xs)"
    using assms by (auto simp: lru_nodes_def dll_append)
  have "xs = []"
    using dll_last [OF l] True dist by (cases xs rule: rev_cases) auto
  with True assms show ?thesis
    by (intro that [of c]) (simp_all add: moveToFront_def)
next
  case False
  obtain c1 where c1: "unlink b c = Inr c1" "c1 = c\<lparr>c_next := c_next c1, c_prev := c_prev c1\<rparr>"
    "lru_nodes c1 (xs @ ys) fs" "c_sd c b = Some sd"
    using assms by (rule unlink_ok)
  have same: "c_head c1 = c_head c" "c_tail c1 = c_tail c" "c_fresh c1 = c_fresh c" "c_sd c1 = c_sd c"
    by (subst c1(2), simp)+
  have "b \<notin> set (c_head c1 # c_tail c1 # map fst (xs @ ys) @ fs)" "b < c_fresh c1"
    using assms same by (auto simp: lru_nodes_def)
  then obtain c2 where c2: "insertAfter (c_head c1) b c1 = Inr c2"
    "c2 = c1\<lparr>c_next := c_next c2, c_prev := c_prev c2\<rparr>" "lru_nodes c2 ((b, sd) # xs @ ys) fs"
    using insertAfter_ok [OF c1(3), of b sd] c1(4) same by auto
  have "c2 = c\<lparr>c_next := c_next c2, c_prev := c_prev c2\<rparr>"
    by (subst c2(2), subst c1(2), simp)
  with False c1 c2 same show ?thesis
    by (intro that [of c2]) (simp_all add: moveToFront_def)
qed


text \<open>The fields that the linked structure does not depend on.\<close>

lemma lru_nodes_cong [simp]:
  "lru_nodes (c\<lparr>c_m := m\<rparr>) = lru_nodes c" "lru_nodes (c\<lparr>c_len := l\<rparr>) = lru_nodes c"
  "lru_nodes (c\<lparr>c_invalidStmts := i\<rparr>) = lru_nodes c" "lru_nodes (c\<lparr>c_invalidSet := s\<rparr>) = lru_nodes c"
  by (simp_all add: lru_nodes_def fun_eq_iff)

lemma freeNode_ok:
  assumes "lru_nodes c ps fs" and "b \<notin> set (c_head c # c_tail c # map fst ps @ fs)" and "b < c_fresh c"
  shows "lru_nodes (freeNode b c) ps (b # fs)"
proof -
  have "\<forall>(x, sd)\<in>set ps. x \<noteq> b"
    using assms(2) by force
  with assms show ?thesis
    by (auto simp: lru_nodes_def freeNode_def)
qed

lemma drop_node:
  assumes "lru_nodes c (xs @ (b, sd) # ys) fs"
  obtains c1 where "unlink b c = Inr c1" and "lru_nodes (freeNode b (c1\<lparr>c_len := l\<rparr>)) (xs @ ys) (b # fs)"
    and "c_m c1 = c_m c" and "c_len c1 = c_len c" and "c_cap c1 = c_cap c"
    and "c_invalidStmts c1 = c_invalidStmts c" and "c_invalidSet c1 = c_invalidSet c"
    and "c_sd c b = Some sd"
proof -
  obtain c1 where c1: "unlink b c = Inr c1" "c1 = c\<lparr>c_next := c_next c1, c_prev := c_prev c1\<rparr>"
    "lru_nodes c1 (xs @ ys) fs" "c_sd c b = Some sd"
    using assms by (rule unlink_ok)
  have same: "c_head c1 = c_head c" "c_tail c1 = c_tail c" "c_fresh c1 = c_fresh c" "c_m c1 = c_m c"
    "c_len c1 = c_len c" "c_cap c1 = c_cap c" "c_invalidStmts c1 = c_invalidStmts c"
    "c_invalidSet c1 = c_invalidSet c"
    by (subst c1(2), simp)+
  have "lru_nodes (freeNode b (c1\<lparr>c_len := l\<rparr>)) (xs @ ys) (b # fs)"
    using assms same c1(3) by (intro freeNode_ok) (auto simp: lru_nodes_def [of c])
  with c1 same show ?thesis by (intro that)
qed

lemma freeNode_fields [simp]:
  "c_m (freeNode b c) = c_m c" "c_len (freeNode b c) = c_len c" "c_cap (freeNode b c) = c_cap c"
  "c_invalidStmts (freeNode b c) = c_invalidStmts c" "c_invalidSet (freeNode b c) = c_invalidSet c"
  "c_head (freeNode b c) = c_head c" "c_tail (freeNode b c) = c_tail c"
  by (simp_all add: freeNode_def)

lemma index_split:
  assumes "lru_index c ps" and "c_m c k = Some x"
  obtains xs sd ys where "ps = xs @ (x, sd) # ys" and "sd_SQL sd = k"
  using assms unfolding lru_index_def by (meson split_list)

lemma index_remove:
  assumes "lru_index c (xs @ (x, sd) # ys)"
    and "c_m c' = (c_m c)(sd_SQL sd := None)" and "c_len c' = c_len c - 1"
    and "c_invalidStmts c' = c_invalidStmts c @ [sd]"
    and "c_invalidSet c' = insert (sd_SQL sd) (c_invalidSet c)"
  shows "lru_index c' (xs @ ys)"
proof -
  let ?ps = "xs @ (x, sd) # ys"
  have dist: "distinct (map sd_SQL (map snd ?ps @ c_invalidStmts c))"
    using assms(1) by (simp add: lru_index_def)
  have "sd_SQL sd' \<noteq> sd_SQL sd" if "(y, sd') \<in> set (xs @ ys)" for y sd'
    using dist that by (force simp: image_iff)
  then have "c_m c' k = Some y \<longleftrightarrow> (\<exists>sd'. (y, sd') \<in> set (xs @ ys) \<and> sd_SQL sd' = k)" for k y
    using assms(1,2) by (auto simp: lru_index_def)
  moreover have "distinct (map sd_SQL (map snd (xs @ ys) @ c_invalidStmts c'))"
    using dist distinct_map_mset [of "map snd ?ps @ c_invalidStmts c"
      "map snd (xs @ ys) @ c_invalidStmts c @ [sd]" sd_SQL] assms(4) by simp
  ultimately show ?thesis
    using assms by (auto simp: lru_index_def)
qed

section \<open>The simulation\<close>

definition lru_rel :: "int \<Rightarrow> LRUCache \<Rightarrow> spec_cache \<Rightarrow> bool" where
  "lru_rel cap c a \<longleftrightarrow>
     (\<exists>ps fs. lru_nodes c ps fs \<and> lru_index c ps \<and> sc_entries a = map snd ps)
   \<and> sc_invalid a = c_invalidStmts c \<and> c_cap c = cap"

lemma lru_relI:
  "lru_nodes c ps fs \<Longrightarrow> lru_index c ps \<Longrightarrow> sc_entries a = map snd ps \<Longrightarrow>
   sc_invalid a = c_invalidStmts c \<Longrightarrow> c_cap c = cap \<Longrightarrow> lru_rel cap c a"
  by (auto simp: lru_rel_def)

lemma lookup_index:
  assumes "lru_index c ps"
  shows "lookup_sql k (map snd ps) = None \<longleftrightarrow> c_m c k = None"
    and "ps = xs @ (x, sd) # ys \<Longrightarrow> sd_SQL sd = k \<Longrightarrow>
      lookup_sql k (map snd ps) = Some sd \<and> without_sql k (map snd ps) = map snd (xs @ ys)"
proof -
  show "lookup_sql k (map snd ps) = None \<longleftrightarrow> c_m c k = None"
    using assms unfolding lookup_sql_None lru_index_def
    by (auto simp: image_iff) (metis not_None_eq snd_conv)+
  assume ps: "ps = xs @ (x, sd) # ys" "sd_SQL sd = k"
  have "distinct (map sd_SQL (map snd xs @ sd # map snd ys))"
    using assms unfolding ps(1) lru_index_def by (simp add: Int_Un_distrib)
  moreover from this have "lookup_sql k (map snd ps) = Some sd"
    unfolding lookup_sql_Some ps(1)
    by (intro exI [of _ "map snd xs"] exI [of _ "map snd ys"] conjI) (use ps(2) in auto)
  ultimately show "lookup_sql k (map snd ps) = Some sd \<and> without_sql k (map snd ps) = map snd (xs @ ys)"
    using ps without_sql_split [of "map snd xs" sd "map snd ys"] by simp
qed

lemma Get_sim:
  assumes "lru_rel cap c a"
  shows "\<exists>c'. LRUCache_Get k c = Inr (fst (spec_Get k a), c') \<and> lru_rel cap c' (snd (spec_Get k a))"
proof -
  obtain ps fs where inv: "lru_nodes c ps fs" "lru_index c ps" "sc_entries a = map snd ps"
    and rest: "sc_invalid a = c_invalidStmts c" "c_cap c = cap"
    using assms by (auto simp: lru_rel_def)
  show ?thesis
  proof (cases "c_m c k")
    case None
    with inv lookup_index(1) [OF inv(2), of k] assms show ?thesis
      by (simp add: LRUCache_Get_def spec_Get_def)
  next
    case (Some x)
    then obtain xs sd ys where ps: "ps = xs @ (x, sd) # ys" "sd_SQL sd = k"
      using inv(2) by (elim index_split)
    obtain c' where c': "moveToFront x c = Inr c'" "c' = c\<lparr>c_next := c_next c', c_prev := c_prev c'\<rparr>"
      "lru_nodes c' ((x, sd) # xs @ ys) fs"
      using inv(1) unfolding ps(1) by (rule moveToFront_ok)
    have same: "c_m c' = c_m c" "c_len c' = c_len c" "c_cap c' = c_cap c" "c_sd c' = c_sd c"
      "c_invalidStmts c' = c_invalidStmts c" "c_invalidSet c' = c_invalidSet c"
      by (subst c'(2), simp)+
    have "lru_index c' ((x, sd) # xs @ ys)"
      using inv(2) ps distinct_map_mset [of "map snd ps @ c_invalidStmts c"
        "map snd ((x, sd) # xs @ ys) @ c_invalidStmts c" sd_SQL] same
      by (auto simp: lru_index_def)
    moreover have "c_sd c x = Some sd"
      using inv(1) ps by (auto simp: lru_nodes_def)
    ultimately show ?thesis
      using Some c' same rest inv(3) lookup_index(2) [OF inv(2) ps]
      by (auto simp: LRUCache_Get_def spec_Get_def intro!: lru_relI)
  qed
qed

lemma Invalidate_sim:
  assumes "lru_rel cap c a"
  shows "\<exists>c'. LRUCache_Invalidate k c = Inr c' \<and> lru_rel cap c' (spec_Invalidate k a)"
proof -
  obtain ps fs where inv: "lru_nodes c ps fs" "lru_index c ps" "sc_entries a = map snd ps"
    and rest: "sc_invalid a = c_invalidStmts c" "c_cap c = cap"
    using assms by (auto simp: lru_rel_def)
  show ?thesis
  proof (cases "c_m c k")
    case None
    with inv lookup_index(1) [OF inv(2), of k] assms show ?thesis
      by (simp add: LRUCache_Invalidate_def spec_Invalidate_def)
  next
    case (Some x)
    then obtain xs sd ys where ps: "ps = xs @ (x, sd) # ys" "sd_SQL sd = k"
      using inv(2) by (elim index_split)
    let ?c = "c\<lparr>c_m := (c_m c)(k := None), c_invalidStmts := c_invalidStmts c @ [sd],
       c_invalidSet := insert k (c_invalidSet c)\<rparr>"
    have "lru_nodes ?c (xs @ (x, sd) # ys) fs"
      using inv(1) ps by simp
    then obtain c1 where c1: "unlink x ?c = Inr c1"
      "lru_nodes (freeNode x (c1\<lparr>c_len := c_len c - 1\<rparr>)) (xs @ ys) (x # fs)"
      "c_m c1 = c_m ?c" "c_len c1 = c_len c" "c_cap c1 = c_cap c"
      "c_invalidStmts c1 = c_invalidStmts ?c" "c_invalidSet c1 = c_invalidSet ?c" "c_sd c x = Some sd"
      by (rule drop_node [where l = "c_len c - 1"]) auto
    let ?c' = "freeNode x (c1\<lparr>c_len := c_len c - 1\<rparr>)"
    have "lru_index ?c' (xs @ ys)"
      using inv(2) ps c1 by (intro index_remove [of c xs x sd ys]) auto
    moreover have "LRUCache_Invalidate k c = Inr ?c'"
      using Some c1 by (simp add: LRUCache_Invalidate_def)
    ultimately show ?thesis
      using c1 rest inv(3) lookup_index(2) [OF inv(2) ps]
      by (auto simp: spec_Invalidate_def intro!: lru_relI)
  qed
qed


lemma invalidateOldest_sim:
  assumes "lru_nodes c ps fs" and "lru_index c ps" and "ps \<noteq> []"
  obtains c' fs' where "invalidateOldest c = Inr c'" and "lru_nodes c' (butlast ps) fs'"
    and "lru_index c' (butlast ps)" and "c_cap c' = c_cap c"
    and "c_invalidStmts c' = c_invalidStmts c @ [snd (last ps)]"
proof -
  obtain xs x sd where ps: "ps = xs @ [(x, sd)]"
    using assms(3) by (cases ps rule: rev_cases) auto
  have "c_prev c (c_tail c) = Some x" "x \<noteq> c_head c"
    using assms(1) dll_last [of "c_next c" "c_prev c" "c_head c" "map fst ps" "c_tail c"]
    by (auto simp: lru_nodes_def ps)
  moreover let ?c = "c\<lparr>c_invalidStmts := c_invalidStmts c @ [sd],
     c_invalidSet := insert (sd_SQL sd) (c_invalidSet c), c_m := (c_m c)(sd_SQL sd := None)\<rparr>"
  have "lru_nodes ?c (xs @ (x, sd) # []) fs"
    using assms(1) ps by simp
  then obtain c1 where c1: "unlink x ?c = Inr c1"
    "lru_nodes (freeNode x (c1\<lparr>c_len := c_len c - 1\<rparr>)) (xs @ []) (x # fs)"
    "c_m c1 = c_m ?c" "c_len c1 = c_len c" "c_cap c1 = c_cap c"
    "c_invalidStmts c1 = c_invalidStmts ?c" "c_invalidSet c1 = c_invalidSet ?c" "c_sd c x = Some sd"
    by (rule drop_node [where l = "c_len c - 1"]) auto
  moreover have "lru_index (freeNode x (c1\<lparr>c_len := c_len c - 1\<rparr>)) (xs @ [])"
    using assms(2) ps c1 by (intro index_remove [of c xs x sd "[]"]) auto
  ultimately show ?thesis
    using ps by (intro that [of "freeNode x (c1\<lparr>c_len := c_len c - 1\<rparr>)" "x # fs"])
      (simp_all add: invalidateOldest_def)
qed

lemma allocNode_ok:
  assumes "lru_nodes c ps fs" and "allocNode c = (b, c')"
  obtains fs' where "lru_nodes c' ps fs'" and "b \<notin> set (c_head c' # c_tail c' # map fst ps @ fs')"
    and "b < c_fresh c'" and "c_m c' = c_m c" and "c_len c' = c_len c" and "c_cap c' = c_cap c"
    and "c_invalidStmts c' = c_invalidStmts c" and "c_invalidSet c' = c_invalidSet c"
proof (cases fs)
  case Nil
  have old: "\<forall>x\<in>set (c_head c # c_tail c # map fst ps). x < c_fresh c"
    using assms(1) by (auto simp: lru_nodes_def)
  then have new: "c_fresh c \<notin> set (c_head c # c_tail c # map fst ps)" "\<forall>(x, sd)\<in>set ps. x \<noteq> c_fresh c"
    by force+
  have c': "b = c_fresh c" "c' = c\<lparr>c_fresh := Suc (c_fresh c), c_sd := (c_sd c)(c_fresh c := None),
       c_prev := (c_prev c)(c_fresh c := None), c_next := (c_next c)(c_fresh c := None)\<rparr>"
    using assms Nil by (auto simp: allocNode_def lru_nodes_def)
  have "lru_nodes c' ps []"
    using assms(1) Nil old new unfolding c' by (auto simp: lru_nodes_def less_SucI)
  with new c' show ?thesis
    by (intro that [of "[]"]) auto
next
  case (Cons y fs')
  then have fl: "c_freelist c = Some y" "flist (c_next c) (c_next c y) fs'" "y \<notin> set fs'"
    "y \<notin> set (c_head c # c_tail c # map fst ps)" "y < c_fresh c"
    using assms(1) by (auto simp: lru_nodes_def)
  have c': "b = y" "c' = c\<lparr>c_freelist := c_next c y, c_next := (c_next c)(y := None),
       c_prev := (c_prev c)(y := None)\<rparr>"
    using assms(2) fl(1) by (auto simp: allocNode_def)
  have "lru_nodes c' ps fs'"
    using assms(1) Cons fl unfolding c' by (auto simp: lru_nodes_def)
  with fl c' show ?thesis
    by (intro that [of fs']) auto
qed

lemma lru_nodes_sd:
  assumes "lru_nodes c ps fs" and "b \<notin> set (map fst ps)"
  shows "lru_nodes (c\<lparr>c_sd := (c_sd c)(b := v)\<rparr>) ps fs"
proof -
  have "\<forall>(x, sd)\<in>set ps. x \<noteq> b"
    using assms(2) by force
  with assms(1) show ?thesis
    by (auto simp: lru_nodes_def)
qed

text \<open>Adding a new statement at the front, with its key in the map.\<close>

lemma add_node:
  assumes "lru_nodes c ps fs" and "lru_index c ps" and "c_m c (sd_SQL sd) = None"
    and "sd_SQL sd \<notin> c_invalidSet c"
  obtains c' fs' where
    "(let (node, c) = allocNode c; c = c\<lparr>c_sd := (c_sd c)(node := Some sd)\<rparr>
      in bindE (insertAfter (c_head c) node c) (\<lambda>c.
           Inr (c\<lparr>c_m := (c_m c)(sd_SQL sd := Some node), c_len := c_len c + 1\<rparr>))) = Inr c'"
    and "\<exists>b. lru_nodes c' ((b, sd) # ps) fs' \<and> lru_index c' ((b, sd) # ps)"
    and "c_cap c' = c_cap c" and "c_invalidStmts c' = c_invalidStmts c"
proof -
  obtain b c1 where alloc: "allocNode c = (b, c1)" by fastforce
  obtain fs1 where c1: "lru_nodes c1 ps fs1" "b \<notin> set (c_head c1 # c_tail c1 # map fst ps @ fs1)"
    "b < c_fresh c1" "c_m c1 = c_m c" "c_len c1 = c_len c" "c_cap c1 = c_cap c"
    "c_invalidStmts c1 = c_invalidStmts c" "c_invalidSet c1 = c_invalidSet c"
    using allocNode_ok [OF assms(1) alloc] by metis
  let ?c2 = "c1\<lparr>c_sd := (c_sd c1)(b := Some sd)\<rparr>"
  have "lru_nodes ?c2 ps fs1"
    using c1(1,2) by (intro lru_nodes_sd) auto
  then obtain c3 where c3: "insertAfter (c_head ?c2) b ?c2 = Inr c3"
    "c3 = ?c2\<lparr>c_next := c_next c3, c_prev := c_prev c3\<rparr>" "lru_nodes c3 ((b, sd) # ps) fs1"
    by (rule insertAfter_ok [of _ _ _ b sd]) (use c1 in auto)
  have same: "c_m c3 = c_m c" "c_len c3 = c_len c" "c_cap c3 = c_cap c"
    "c_invalidStmts c3 = c_invalidStmts c" "c_invalidSet c3 = c_invalidSet c"
    by (subst c3(2), simp add: c1)+
  let ?c' = "c3\<lparr>c_m := (c_m c3)(sd_SQL sd := Some b), c_len := c_len c3 + 1\<rparr>"
  have fresh: "sd_SQL sd' \<noteq> sd_SQL sd" if "(x, sd') \<in> set ps" for x sd'
    using assms(2,3) that unfolding lru_index_def by (metis option.distinct(1))
  then have "sd_SQL sd \<notin> sd_SQL ` set (map snd ps @ c_invalidStmts c)"
    using assms(2,4) fresh by (force simp: lru_index_def)
  then have "lru_index ?c' ((b, sd) # ps)"
    using assms(2) fresh by (auto simp: lru_index_def same)
  with alloc c3 same show ?thesis
    by (intro that [of ?c' fs1]) auto
qed

lemma lru_rel_fields:
  assumes "lru_rel cap c a"
  shows "k \<in> sd_SQL ` set (sc_entries a) \<longleftrightarrow> c_m c k \<noteq> None"
    and "k \<in> sd_SQL ` set (sc_invalid a) \<longleftrightarrow> k \<in> c_invalidSet c"
    and "c_len c = int (length (sc_entries a))" and "c_cap c = cap"
proof -
  obtain ps fs where inv: "lru_nodes c ps fs" "lru_index c ps" "sc_entries a = map snd ps"
    and rest: "sc_invalid a = c_invalidStmts c" "c_cap c = cap"
    using assms by (auto simp: lru_rel_def)
  show "k \<in> sd_SQL ` set (sc_entries a) \<longleftrightarrow> c_m c k \<noteq> None"
    using lookup_index(1) [OF inv(2), of k] inv(3) by (auto simp: lookup_sql_None)
  show "k \<in> sd_SQL ` set (sc_invalid a) \<longleftrightarrow> k \<in> c_invalidSet c"
    "c_len c = int (length (sc_entries a))" "c_cap c = cap"
    using inv rest by (simp_all add: lru_index_def)
qed

lemma evict_sim:
  assumes "lru_rel cap c a"
  shows "\<exists>c'. invalidateOldest c = Inr c' \<and> lru_rel cap c' (spec_evict a)"
proof -
  obtain ps fs where inv: "lru_nodes c ps fs" "lru_index c ps" "sc_entries a = map snd ps"
    and rest: "sc_invalid a = c_invalidStmts c" "c_cap c = cap"
    using assms by (auto simp: lru_rel_def)
  show ?thesis
  proof (cases "ps = []")
    case True
    with inv(1) have "c_prev c (c_tail c) = Some (c_head c)"
      by (simp add: lru_nodes_def)
    with True inv(3) assms show ?thesis
      by (simp add: invalidateOldest_def spec_evict_def)
  next
    case False
    then obtain c' fs' where "invalidateOldest c = Inr c'" "lru_nodes c' (butlast ps) fs'"
      "lru_index c' (butlast ps)" "c_cap c' = c_cap c"
      "c_invalidStmts c' = c_invalidStmts c @ [snd (last ps)]"
      using invalidateOldest_sim [OF inv(1,2)] by metis
    with False inv(3) rest show ?thesis
      by (auto simp: spec_evict_def map_butlast last_map intro!: lru_relI)
  qed
qed

lemma Put_sim:
  assumes "lru_rel cap c a" and "sd_SQL sd \<noteq> []"
  shows "\<exists>c'. LRUCache_Put sd c = Inr c' \<and> lru_rel cap c' (spec_Put cap sd a)"
proof (cases "c_m c (sd_SQL sd) \<noteq> None \<or> sd_SQL sd \<in> c_invalidSet c")
  case True
  with assms lru_rel_fields [OF assms(1)] show ?thesis
    by (auto simp: LRUCache_Put_def spec_Put_def)
next
  case False
  note fields = lru_rel_fields [OF assms(1)]
  define a1 where "a1 = (if int (length (sc_entries a)) = cap then spec_evict a else a)"
  have "\<exists>c1. (if c_len c = c_cap c then invalidateOldest c else Inr c) = Inr c1 \<and> lru_rel cap c1 a1"
    using evict_sim [OF assms(1)] assms(1) fields(3,4) by (simp add: a1_def)
  then obtain c1 where c1: "(if c_len c = c_cap c then invalidateOldest c else Inr c) = Inr c1"
    "lru_rel cap c1 a1" by blast
  have "sc_all a1 = sc_all a"
    by (simp add: a1_def spec_evict_all)
  then have "set_mset (sc_all a1) = set_mset (sc_all a)"
    by simp
  then have all: "set (sc_entries a1) \<union> set (sc_invalid a1) = set (sc_entries a) \<union> set (sc_invalid a)"
    by (simp add: sc_all_def)
  have new: "sd_SQL sd \<notin> sd_SQL ` (set (sc_entries a) \<union> set (sc_invalid a))"
    using False fields(1,2) [of "sd_SQL sd"] by (auto simp: image_Un)
  then have "sd_SQL sd \<notin> sd_SQL ` set (sc_entries a1)" "sd_SQL sd \<notin> sd_SQL ` set (sc_invalid a1)"
    unfolding all [symmetric] by auto
  with lru_rel_fields(1,2) [OF c1(2), of "sd_SQL sd"]
  have absent: "c_m c1 (sd_SQL sd) = None" "sd_SQL sd \<notin> c_invalidSet c1"
    by auto
  obtain ps fs where inv: "lru_nodes c1 ps fs" "lru_index c1 ps" "sc_entries a1 = map snd ps"
    and rest: "sc_invalid a1 = c_invalidStmts c1" "c_cap c1 = cap"
    using c1(2) by (auto simp: lru_rel_def)
  obtain c2 fs2 where c2:
    "(let (node, c) = allocNode c1; c = c\<lparr>c_sd := (c_sd c)(node := Some sd)\<rparr>
      in bindE (insertAfter (c_head c) node c) (\<lambda>c.
           Inr (c\<lparr>c_m := (c_m c)(sd_SQL sd := Some node), c_len := c_len c + 1\<rparr>))) = Inr c2"
    "\<exists>b. lru_nodes c2 ((b, sd) # ps) fs2 \<and> lru_index c2 ((b, sd) # ps)"
    "c_cap c2 = c_cap c1" "c_invalidStmts c2 = c_invalidStmts c1"
    by (rule add_node [OF inv(1,2) absent])
  have "LRUCache_Put sd c = Inr c2"
    using False assms(2) c1(1) c2(1) by (simp add: LRUCache_Put_def)
  moreover have "spec_Put cap sd a = a1\<lparr>sc_entries := sd # sc_entries a1\<rparr>"
    using new by (auto simp: spec_Put_def a1_def Let_def image_Un)
  ultimately show ?thesis
    using c2(2-) inv(3) rest by (auto intro!: lru_relI)
qed


section \<open>Invalidating everything\<close>

fun path :: "(nat \<Rightarrow> nat option) \<Rightarrow> nat option \<Rightarrow> nat list \<Rightarrow> nat \<Rightarrow> bool" where
  "path n q [] z \<longleftrightarrow> q = Some z"
| "path n q (b # bs) z \<longleftrightarrow> q = Some b \<and> path n (n b) bs z"

lemma dll_path: "dll n p a xs z \<Longrightarrow> path n (n a) xs z"
  by (induction xs arbitrary: a) auto

lemma path_upd [simp]: "x \<notin> set xs \<Longrightarrow> path (n(x := v)) q xs z = path n q xs z"
  by (induction xs arbitrary: q) auto

lemma InvalidateAll_loop_ok:
  assumes "path (c_next c) q (map fst ps) (c_tail c)" and "c_tail c \<notin> set (map fst ps)"
    and "distinct (map fst ps @ fs)" and "flist (c_next c) (c_freelist c) fs"
    and "\<forall>(x, sd)\<in>set ps. c_sd c x = Some sd"
  shows "\<exists>c'. InvalidateAll_loop q c = Some (Inr c')
    \<and> c_invalidStmts c' = c_invalidStmts c @ map snd ps
    \<and> c_invalidSet c' = c_invalidSet c \<union> sd_SQL ` set (map snd ps)
    \<and> flist (c_next c') (c_freelist c') (rev (map fst ps) @ fs)
    \<and> c_head c' = c_head c \<and> c_tail c' = c_tail c \<and> c_fresh c' = c_fresh c \<and> c_cap c' = c_cap c"
  using assms
proof (induction ps arbitrary: q c fs)
  case Nil
  then show ?case
    by (simp add: InvalidateAll_loop.simps)
next
  case (Cons e ps)
  obtain x sd where e: "e = (x, sd)" by (cases e)
  let ?c = "freeNode x (c\<lparr>c_invalidStmts := c_invalidStmts c @ [sd],
      c_invalidSet := insert (sd_SQL sd) (c_invalidSet c)\<rparr>)"
  have step: "InvalidateAll_loop q c = InvalidateAll_loop (c_next c x) ?c"
    using Cons.prems e by (subst InvalidateAll_loop.simps) auto
  have x: "x \<notin> set (map fst ps)" "x \<notin> set fs"
    using Cons.prems(3) e by auto
  then have other: "\<forall>(y, sd')\<in>set ps. y \<noteq> x" by force
  have "path (c_next ?c) (c_next c x) (map fst ps) (c_tail ?c)"
    using Cons.prems(1) e x by (simp add: freeNode_def)
  moreover have "flist (c_next ?c) (c_freelist ?c) (x # fs)"
    using Cons.prems(4) x by (simp add: freeNode_def)
  moreover have "\<forall>(y, sd')\<in>set ps. c_sd ?c y = Some sd'"
    using Cons.prems(5) other by (auto simp: freeNode_def)
  moreover have "c_tail ?c \<notin> set (map fst ps)" "distinct (map fst ps @ x # fs)"
    using Cons.prems(2,3) e by auto
  ultimately obtain c' where c': "InvalidateAll_loop (c_next c x) ?c = Some (Inr c')"
    "c_invalidStmts c' = c_invalidStmts ?c @ map snd ps"
    "c_invalidSet c' = c_invalidSet ?c \<union> sd_SQL ` set (map snd ps)"
    "flist (c_next c') (c_freelist c') (rev (map fst ps) @ x # fs)"
    "c_head c' = c_head ?c" "c_tail c' = c_tail ?c" "c_fresh c' = c_fresh ?c" "c_cap c' = c_cap ?c"
    using Cons.IH [of ?c "c_next c x" "x # fs"] by blast
  moreover have "c_fresh ?c = c_fresh c"
    by (simp add: freeNode_def)
  ultimately show ?case
    using step e by auto
qed

lemma InvalidateAll_sim:
  assumes "lru_rel cap c a"
  shows "\<exists>c'. LRUCache_InvalidateAll c = Some (Inr c') \<and> lru_rel cap c' (spec_InvalidateAll a)"
proof -
  obtain ps fs where inv: "lru_nodes c ps fs" "lru_index c ps" "sc_entries a = map snd ps"
    and rest: "sc_invalid a = c_invalidStmts c" "c_cap c = cap"
    using assms by (auto simp: lru_rel_def)
  have "path (c_next c) (c_next c (c_head c)) (map fst ps) (c_tail c)" "c_tail c \<notin> set (map fst ps)"
    "distinct (map fst ps @ fs)" "flist (c_next c) (c_freelist c) fs" "\<forall>(x, sd)\<in>set ps. c_sd c x = Some sd"
    using inv(1) by (auto simp: lru_nodes_def intro: dll_path)
  then obtain c' where c': "InvalidateAll_loop (c_next c (c_head c)) c = Some (Inr c')"
    "c_invalidStmts c' = c_invalidStmts c @ map snd ps"
    "c_invalidSet c' = c_invalidSet c \<union> sd_SQL ` set (map snd ps)"
    "flist (c_next c') (c_freelist c') (rev (map fst ps) @ fs)"
    "c_head c' = c_head c" "c_tail c' = c_tail c" "c_fresh c' = c_fresh c" "c_cap c' = c_cap c"
    using InvalidateAll_loop_ok by blast
  let ?c = "c'\<lparr>c_m := Map.empty, c_next := (c_next c')(c_head c' := Some (c_tail c')),
      c_prev := (c_prev c')(c_tail c' := Some (c_head c')), c_len := 0\<rparr>"
  have "lru_nodes ?c [] (rev (map fst ps) @ fs)"
    using inv(1) c'(4-) by (auto simp: lru_nodes_def)
  moreover have "lru_index ?c []"
    using inv(2) c'(2,3) distinct_map_mset [of "map snd ps @ c_invalidStmts c"
      "c_invalidStmts c @ map snd ps" sd_SQL]
    by (auto simp: lru_index_def)
  ultimately have "lru_rel cap ?c (spec_InvalidateAll a)"
    using c'(2,8) rest inv(3) by (intro lru_relI) (simp_all add: spec_InvalidateAll_def)
  then show ?thesis
    using c'(1) by (simp add: LRUCache_InvalidateAll_def)
qed

section \<open>The cache implements its interface\<close>

lemma NewLRUCache_rel: "lru_rel cap (NewLRUCache cap) empty_cache"
  by (intro lru_relI [of _ "[]" "[]"])
    (simp_all add: NewLRUCache_def lru_nodes_def lru_index_def empty_cache_def)

lemma RemoveInvalidated_rel:
  assumes "lru_rel cap c a"
  shows "lru_rel cap (LRUCache_RemoveInvalidated c) (spec_RemoveInvalidated a)"
proof -
  obtain ps fs where inv: "lru_nodes c ps fs" "lru_index c ps" "sc_entries a = map snd ps"
    using assms by (auto simp: lru_rel_def)
  then show ?thesis
    using assms by (intro lru_relI [of _ ps fs])
      (auto simp: LRUCache_RemoveInvalidated_def spec_RemoveInvalidated_def lru_index_def lru_rel_def)
qed

interpretation lru: stmt_cache "lru_rel cap" "NewLRUCache cap" LRUCache_step LRUCache_Get LRUCache_Len cap
  for cap
proof
  show "lru_rel cap (NewLRUCache cap) empty_cache"
    by (rule NewLRUCache_rel)
next
  fix c a op
  assume rel: "lru_rel cap c a" and "proper_op op"
  then show "\<exists>c'. LRUCache_step op c = Inr c' \<and> lru_rel cap c' (spec_step cap op a)"
  proof (cases op)
    case (Op_Get k)
    with Get_sim [OF rel, of k] show ?thesis by fastforce
  next
    case Op_InvalidateAll
    with InvalidateAll_sim [OF rel] show ?thesis by auto
  qed (use \<open>proper_op op\<close> Put_sim [OF rel] Invalidate_sim [OF rel] RemoveInvalidated_rel [OF rel] in auto)
next
  fix c a k
  assume "lru_rel cap c a"
  then show "\<exists>c'. LRUCache_Get k c = Inr (fst (spec_Get k a), c') \<and> lru_rel cap c' (snd (spec_Get k a))"
    by (rule Get_sim)
next
  fix c a
  assume "lru_rel cap c a"
  then show "LRUCache_Len c = int (length (sc_entries a))"
    using lru_rel_fields(3) by (simp add: LRUCache_Len_def)
qed


section \<open>Properties\<close>

text \<open>
  C16: refinement. No sequence of calls (with a non-empty SQL text in every \<open>Put\<close>) makes a new cache panic;
  its length, its invalidated statements and the result of every \<open>Get\<close> are those of the
  specification, and a positive capacity is never exceeded.
\<close>

theorem lru_refines:
  assumes "\<forall>op\<in>set ops. proper_op op"
  shows "\<exists>c. run_ops LRUCache_step ops (NewLRUCache cap) = Inr c
    \<and> LRUCache_Len c = int (length (sc_entries (fold (spec_step cap) ops empty_cache)))
    \<and> LRUCache_GetInvalidated c = sc_invalid (fold (spec_step cap) ops empty_cache)
    \<and> (\<forall>k. \<exists>c'. LRUCache_Get k c = Inr (fst (spec_Get k (fold (spec_step cap) ops empty_cache)), c'))
    \<and> (0 < cap \<longrightarrow> LRUCache_Len c \<le> LRUCache_Cap c)"
proof -
  obtain c where c: "run_ops LRUCache_step ops (NewLRUCache cap) = Inr c"
    "lru_rel cap c (fold (spec_step cap) ops empty_cache)" "0 < cap \<longrightarrow> LRUCache_Len c \<le> cap"
    using lru.run_init [OF assms, of cap] by blast
  moreover have "\<forall>k. \<exists>c'. LRUCache_Get k c = Inr (fst (spec_Get k (fold (spec_step cap) ops empty_cache)), c')"
    using lru.sim_get [OF c(2)] by blast
  moreover have "LRUCache_Cap c = cap" "LRUCache_GetInvalidated c = sc_invalid (fold (spec_step cap) ops empty_cache)"
    using c(2) by (auto simp: lru_rel_def LRUCache_Cap_def LRUCache_GetInvalidated_def)
  ultimately show ?thesis
    using lru.len [OF c(2)] by auto
qed

abbreviation stmt :: "byte \<Rightarrow> StatementDescription" where
  "stmt b \<equiv> \<lparr>sd_Name = [], sd_SQL = [b], sd_ParamOIDs = [], sd_Fields = []\<rparr>"

theorem lru_refines_witness:
  "\<exists>c. run_ops LRUCache_step [Op_Put (stmt 1), Op_Put (stmt 2), Op_Get [1], Op_Put (stmt 3)] (NewLRUCache 2) = Inr c
    \<and> LRUCache_Len c = 2 \<and> LRUCache_GetInvalidated c = [stmt 2]
    \<and> (\<exists>c'. LRUCache_Get [1] c = Inr (Some (stmt 1), c'))"
proof -
  let ?ops = "[Op_Put (stmt 1), Op_Put (stmt 2), Op_Get [1], Op_Put (stmt 3)]"
  have spec: "fold (spec_step 2) ?ops empty_cache = \<lparr>sc_entries = [stmt 3, stmt 1], sc_invalid = [stmt 2]\<rparr>"
    by (simp add: empty_cache_def spec_Put_def spec_Get_def spec_evict_def lookup_sql_def without_sql_def)
  have get: "fst (spec_Get [1] \<lparr>sc_entries = [stmt 3, stmt 1], sc_invalid = [stmt 2]\<rparr>) = Some (stmt 1)"
    by (simp add: spec_Get_def lookup_sql_def)
  have "\<forall>op\<in>set ?ops. proper_op op" by simp
  from lru_refines [OF this, of 2] obtain c where c: "run_ops LRUCache_step ?ops (NewLRUCache 2) = Inr c"
    "LRUCache_Len c = int (length [stmt 3, stmt 1])" "LRUCache_GetInvalidated c = [stmt 2]"
    "\<exists>c'. LRUCache_Get [1] c = Inr (fst (spec_Get [1] \<lparr>sc_entries = [stmt 3, stmt 1], sc_invalid = [stmt 2]\<rparr>), c')"
    unfolding spec spec_cache.select_convs by blast
  from c(4) have "\<exists>c'. LRUCache_Get [1] c = Inr (Some (stmt 1), c')"
    unfolding get .
  moreover from c(2) have "LRUCache_Len c = 2" by simp
  ultimately show ?thesis
    using c(1,3) by blast
qed

text \<open>
  C17: no statement is handed out that is to be deallocated: after any sequence of calls, what \<open>Get\<close>
  returns has the SQL text asked for, which is not among those of the invalidated statements.
\<close>

theorem lru_get_fresh:
  assumes "\<forall>op\<in>set ops. proper_op op" and "run_ops LRUCache_step ops (NewLRUCache cap) = Inr c"
    and "LRUCache_Get k c = Inr (Some sd, c')"
  shows "sd_SQL sd = k \<and> k \<notin> sd_SQL ` set (LRUCache_GetInvalidated c)"
proof -
  let ?a = "fold (spec_step cap) ops empty_cache"
  obtain d where "run_ops LRUCache_step ops (NewLRUCache cap) = Inr d" "lru_rel cap d ?a" "spec_inv cap ?a"
    using assms(1) by (rule lru.run_init)
  with assms(2) have rel: "lru_rel cap c ?a" and inv: "spec_inv cap ?a" by auto
  have "fst (spec_Get k ?a) = Some sd"
    using lru.sim_get [OF rel, of k] assms(3) by auto
  then have "sd \<in> set (sc_entries ?a)" "sd_SQL sd = k"
    by (auto simp: spec_Get_def lookup_sql_Some split: option.splits)
  with inv have "sd_SQL sd = k \<and> k \<notin> sd_SQL ` set (sc_invalid ?a)"
    by (auto simp: spec_inv_def)
  with rel show ?thesis
    by (simp add: lru_rel_def LRUCache_GetInvalidated_def)
qed

theorem lru_get_fresh_witness:
  "\<exists>c c'. run_ops LRUCache_step [Op_Put (stmt 1)] (NewLRUCache 1) = Inr c
    \<and> LRUCache_Get [1] c = Inr (Some (stmt 1), c') \<and> [1] \<notin> sd_SQL ` set (LRUCache_GetInvalidated c)"
proof -
  have "\<forall>op\<in>set [Op_Put (stmt 1)]. proper_op op" by simp
  moreover obtain c where c: "run_ops LRUCache_step [Op_Put (stmt 1)] (NewLRUCache 1) = Inr c"
    "lru_rel 1 c (fold (spec_step 1) [Op_Put (stmt 1)] empty_cache)"
    using calculation by (rule lru.run_init)
  moreover obtain c' where "LRUCache_Get [1] c = Inr (Some (stmt 1), c')"
    using lru.sim_get [OF c(2), of "[1]"]
    by (auto simp: empty_cache_def spec_Put_def spec_Get_def lookup_sql_def)
  ultimately show ?thesis
    using lru_get_fresh [of "[Op_Put (stmt 1)]" 1 c "[1]" "stmt 1" c'] by blast
qed

text \<open>
  C18: least recently used first. Statements with different SQL texts put into a cache of positive capacity
  leave the last \<open>cap\<close> of them cached, and the earlier ones invalidated in the order they came.
\<close>

lemma spec_puts:
  assumes "distinct (map sd_SQL sds)" and "0 < cap"
  shows "fold (spec_step (int cap)) (map Op_Put sds) empty_cache =
    \<lparr>sc_entries = rev (drop (length sds - cap) sds), sc_invalid = take (length sds - cap) sds\<rparr>"
  using assms(1)
proof (induction sds rule: rev_induct)
  case Nil
  then show ?case by (simp add: empty_cache_def)
next
  case (snoc sd sds)
  let ?n = "length sds - cap"
  have "set sds = set (drop ?n sds) \<union> set (take ?n sds)"
    by (metis Un_commute append_take_drop_id set_append)
  moreover have "sd_SQL sd \<notin> sd_SQL ` set sds"
    using snoc.prems by simp
  ultimately have new: "sd_SQL sd \<notin> sd_SQL ` set (drop ?n sds)" "sd_SQL sd \<notin> sd_SQL ` set (take ?n sds)"
    by blast+
  have IH: "fold (spec_step (int cap)) (map Op_Put sds) empty_cache =
      \<lparr>sc_entries = rev (drop ?n sds), sc_invalid = take ?n sds\<rparr>"
    using snoc by simp
  show ?case
  proof (cases "cap \<le> length sds")
    case True
    then have "drop ?n sds \<noteq> []" "Suc (length sds) - cap = Suc ?n" "hd (drop ?n sds) = sds ! ?n"
      using assms(2) by (auto simp: hd_drop_conv_nth)
    then show ?thesis
      using IH new True assms(2)
      by (simp add: spec_Put_def spec_evict_def take_Suc_conv_app_nth last_rev butlast_rev tl_drop drop_Suc
          flip: drop_Suc)
  next
    case False
    then show ?thesis
      using IH new by (simp add: spec_Put_def)
  qed
qed

theorem lru_evicts_oldest:
  assumes "distinct (map sd_SQL sds)" and "\<forall>sd\<in>set sds. sd_SQL sd \<noteq> []" and "0 < cap"
  shows "\<exists>c. run_ops LRUCache_step (map Op_Put sds) (NewLRUCache (int cap)) = Inr c
    \<and> LRUCache_GetInvalidated c = take (length sds - cap) sds
    \<and> (\<forall>sd\<in>set (drop (length sds - cap) sds). \<exists>c'. LRUCache_Get (sd_SQL sd) c = Inr (Some sd, c'))"
proof -
  let ?a = "\<lparr>sc_entries = rev (drop (length sds - cap) sds), sc_invalid = take (length sds - cap) sds\<rparr>"
  have "\<forall>op\<in>set (map Op_Put sds). proper_op op"
    using assms(2) by simp
  then obtain c where c: "run_ops LRUCache_step (map Op_Put sds) (NewLRUCache (int cap)) = Inr c"
    "lru_rel (int cap) c ?a" "spec_inv (int cap) ?a"
    unfolding spec_puts [OF assms(1,3), symmetric] by (rule lru.run_init)
  have "fst (spec_Get (sd_SQL sd) ?a) = Some sd" if "sd \<in> set (drop (length sds - cap) sds)" for sd
  proof -
    from that obtain xs ys where "sc_entries ?a = xs @ sd # ys"
      by (metis in_set_conv_decomp select_convs(1) set_rev spec_cache.select_convs(1))
    with c(3) have "lookup_sql (sd_SQL sd) (sc_entries ?a) = Some sd"
      unfolding lookup_sql_Some spec_inv_def by auto
    then show ?thesis by (simp add: spec_Get_def)
  qed
  then have "\<forall>sd\<in>set (drop (length sds - cap) sds). \<exists>c'. LRUCache_Get (sd_SQL sd) c = Inr (Some sd, c')"
    using lru.sim_get [OF c(2)] by metis
  moreover have "LRUCache_GetInvalidated c = take (length sds - cap) sds"
    using c(2) by (simp add: lru_rel_def LRUCache_GetInvalidated_def)
  ultimately show ?thesis
    using c(1) by blast
qed

theorem lru_evicts_oldest_witness:
  "\<exists>c. run_ops LRUCache_step (map Op_Put [stmt 1, stmt 2, stmt 3]) (NewLRUCache 2) = Inr c
    \<and> LRUCache_GetInvalidated c = [stmt 1]
    \<and> (\<forall>sd\<in>set [stmt 2, stmt 3]. \<exists>c'. LRUCache_Get (sd_SQL sd) c = Inr (Some sd, c'))"
proof -
  have "length [stmt 1, stmt 2, stmt 3] - 2 = 1" by simp
  with lru_evicts_oldest [of "[stmt 1, stmt 2, stmt 3]" 2] show ?thesis by simp
qed

text \<open>
  C19: \<open>InvalidateAll\<close> returns. In every reachable state its loop over the pointers ends; afterwards nothing is
  cached, and everything that was cached is invalidated.
\<close>

theorem lru_invalidate_all_returns:
  assumes "\<forall>op\<in>set ops. proper_op op" and "run_ops LRUCache_step ops (NewLRUCache cap) = Inr c"
  shows "\<exists>c'. LRUCache_InvalidateAll c = Some (Inr c') \<and> LRUCache_Len c' = 0
    \<and> (\<forall>k. LRUCache_Get k c' = Inr (None, c'))
    \<and> (\<forall>k sd d. LRUCache_Get k c = Inr (Some sd, d) \<longrightarrow> sd \<in> set (LRUCache_GetInvalidated c'))"
proof -
  let ?a = "fold (spec_step cap) ops empty_cache"
  obtain d where "run_ops LRUCache_step ops (NewLRUCache cap) = Inr d" "lru_rel cap d ?a"
    using assms(1) by (rule lru.run_init)
  with assms(2) have rel: "lru_rel cap c ?a" by simp
  obtain c' where c': "LRUCache_InvalidateAll c = Some (Inr c')" "lru_rel cap c' (spec_InvalidateAll ?a)"
    using InvalidateAll_sim [OF rel] by blast
  have "LRUCache_Get k c' = Inr (None, c')" for k
    using lru_rel_fields(1) [OF c'(2), of k] by (auto simp: spec_InvalidateAll_def LRUCache_Get_def)
  moreover have "LRUCache_Len c' = 0"
    using lru.len [OF c'(2)] by (simp add: spec_InvalidateAll_def)
  moreover have "sd \<in> set (LRUCache_GetInvalidated c')" if "LRUCache_Get k c = Inr (Some sd, d)" for k sd d
  proof -
    have "fst (spec_Get k ?a) = Some sd"
      using lru.sim_get [OF rel, of k] that by auto
    then have "sd \<in> set (sc_entries ?a)"
      by (auto simp: spec_Get_def lookup_sql_Some split: option.splits)
    with c'(2) show ?thesis
      by (simp add: lru_rel_def spec_InvalidateAll_def LRUCache_GetInvalidated_def)
         (metis Un_iff set_append)
  qed
  ultimately show ?thesis using c'(1) by blast
qed

theorem lru_invalidate_all_returns_witness:
  "\<exists>c'. LRUCache_InvalidateAll (NewLRUCache 1) = Some (Inr c') \<and> LRUCache_Len c' = 0"
  using lru_invalidate_all_returns [of "[]" 1 "NewLRUCache 1"] by auto

section \<open>Behaviour worth knowing\<close>

text \<open>
  With capacity 0 the cache is not bounded: the first \<open>Put\<close> finds nothing to evict, and after it the length
  never equals the capacity again.
\<close>

lemma lru_capacity_zero:
  "\<exists>c. run_ops LRUCache_step [Op_Put (stmt 1), Op_Put (stmt 2)] (NewLRUCache 0) = Inr c
    \<and> LRUCache_Cap c = 0 \<and> LRUCache_Len c = 2"
proof -
  have "\<forall>op\<in>set [Op_Put (stmt 1), Op_Put (stmt 2)]. proper_op op" by simp
  then obtain c where "run_ops LRUCache_step [Op_Put (stmt 1), Op_Put (stmt 2)] (NewLRUCache 0) = Inr c"
    "lru_rel 0 c (fold (spec_step 0) [Op_Put (stmt 1), Op_Put (stmt 2)] empty_cache)"
    by (rule lru.run_init)
  moreover have "fold (spec_step 0) [Op_Put (stmt 1), Op_Put (stmt 2)] empty_cache =
      \<lparr>sc_entries = [stmt 2, stmt 1], sc_invalid = []\<rparr>"
    by (simp add: empty_cache_def spec_Put_def spec_evict_def)
  ultimately show ?thesis
    using lru_rel_fields(3,4) by (fastforce simp: LRUCache_Cap_def LRUCache_Len_def)
qed

end
