(* ===== verification/Go_Utf8.thy ===== *)
theory Go_Utf8
  imports Pgx_Prelude
begin

text \<open>
  Go's \<open>utf8.DecodeRune\<close>/\<open>DecodeRuneInString\<close>: the first rune of a byte string and its width, with
  \<open>RuneError\<close> (U+FFFD) and width 0 on the empty string, and \<open>RuneError\<close> and width 1 on an invalid
  encoding. A correctly encoded U+FFFD has width 3.
\<close>

definition RuneError :: nat where
  "RuneError = 65533"

text \<open>
  The size of an encoding that starts with a given byte, and the range of its second byte; surrogates and
  overlong forms are excluded by that range.
\<close>

definition rune_start :: "byte \<Rightarrow> (nat \<times> nat \<times> nat) option" where
  "rune_start b = (let n = unat b in
     if 194 \<le> n \<and> n \<le> 223 then Some (2, 128, 191)
     else if n = 224 then Some (3, 160, 191)
     else if n = 237 then Some (3, 128, 159)
     else if 225 \<le> n \<and> n \<le> 239 then Some (3, 128, 191)
     else if n = 240 then Some (4, 144, 191)
     else if 241 \<le> n \<and> n \<le> 243 then Some (4, 128, 191)
     else if n = 244 then Some (4, 128, 143)
     else None)"

definition cont_byte :: "byte \<Rightarrow> bool" where
  "cont_byte b \<longleftrightarrow> 128 \<le> unat b \<and> unat b \<le> 191"

definition low6 :: "byte \<Rightarrow> nat" where
  "low6 b = unat b - 128"

fun DecodeRune :: "bytes \<Rightarrow> nat \<times> nat" where
  "DecodeRune [] = (RuneError, 0)"
| "DecodeRune (b0 # bs) =
     (if unat b0 < 128 then (unat b0, 1)
      else case rune_start b0 of
        None \<Rightarrow> (RuneError, 1)
      | Some (sz, lo, hi) \<Rightarrow>
          if length bs + 1 < sz \<or> unat (bs ! 0) < lo \<or> hi < unat (bs ! 0) then (RuneError, 1)
          else if sz = 2 then ((unat b0 - 192) * 64 + low6 (bs ! 0), 2)
          else if \<not> cont_byte (bs ! 1) then (RuneError, 1)
          else if sz = 3 then ((unat b0 - 224) * 4096 + low6 (bs ! 0) * 64 + low6 (bs ! 1), 3)
          else if \<not> cont_byte (bs ! 2) then (RuneError, 1)
          else ((unat b0 - 240) * 262144 + low6 (bs ! 0) * 4096 + low6 (bs ! 1) * 64 + low6 (bs ! 2), 4))"

declare DecodeRune.simps(2) [simp del]

text \<open>The result of a decoder that is not the error.\<close>

definition rune_ok :: "nat \<times> nat \<Rightarrow> bool" where
  "rune_ok rw \<longleftrightarrow> fst rw \<noteq> RuneError \<or> snd rw = 3"

lemma rune_start_size: "rune_start b = Some (sz, lo, hi) \<Longrightarrow> sz = 2 \<or> sz = 3 \<or> sz = 4"
  by (auto simp: rune_start_def Let_def split: if_splits)

lemma DecodeRune_ascii [simp]: "unat c < 128 \<Longrightarrow> DecodeRune (c # xs) = (unat c, 1)"
  by (simp add: DecodeRune.simps)

lemma DecodeRune_width:
  assumes "DecodeRune xs = (r, w)"
  shows "w \<le> length xs" and "xs \<noteq> [] \<Longrightarrow> 0 < w"
proof -
  have "w \<le> length xs \<and> (xs \<noteq> [] \<longrightarrow> 0 < w)"
  proof (cases xs)
    case (Cons b bs)
    then show ?thesis
      using assms rune_start_size [of b]
      by (auto simp: DecodeRune.simps(2) Suc_le_eq split: if_splits option.splits)
  qed (use assms in simp)
  then show "w \<le> length xs" and "xs \<noteq> [] \<Longrightarrow> 0 < w" by auto
qed

text \<open>An ASCII rune stands for the byte itself.\<close>

lemma DecodeRune_small:
  assumes "DecodeRune xs = (r, w)" and "r < 128"
  shows "\<exists>c ys. xs = c # ys \<and> unat c = r \<and> w = 1"
proof (cases xs)
  case Nil
  with assms show ?thesis by (simp add: RuneError_def)
next
  case (Cons b bs)
  then show ?thesis
    using assms
    by (auto simp: DecodeRune.simps(2) rune_start_def low6_def RuneError_def Let_def split: if_splits)
qed

text \<open>All bytes of a wider rune are outside ASCII.\<close>

lemma DecodeRune_wide:
  assumes "DecodeRune xs = (r, w)" and "128 \<le> r" and "c \<in> set (take w xs)"
  shows "128 \<le> unat c"
proof (cases xs)
  case Nil
  with assms show ?thesis by simp
next
  case (Cons b bs)
  obtain n where w: "w = Suc n"
    using DecodeRune_width(2) [OF assms(1)] Cons by (cases w) auto
  have b: "128 \<le> unat b"
    using assms(1,2) Cons by (auto simp: DecodeRune.simps split: if_splits)
  have rest: "\<forall>i<n. i < length bs \<longrightarrow> 128 \<le> unat (bs ! i)"
    using assms(1,2) Cons w b
    by (auto simp: DecodeRune.simps(2) rune_start_def cont_byte_def Let_def less_Suc_eq numeral_2_eq_2 numeral_3_eq_3
        split: if_splits)
  from assms(3) Cons w have "c = b \<or> c \<in> set (take n bs)" by simp
  with b rest show ?thesis
    by (auto simp: in_set_conv_nth)
qed

text \<open>
  What follows does not matter to a rune that is complete, nor to any rune before an ASCII byte.
\<close>

lemma DecodeRune_append_ok:
  assumes "DecodeRune xs = (r, w)" and "rune_ok (r, w)"
  shows "DecodeRune (xs @ ys) = (r, w)"
proof (cases xs)
  case Nil
  with assms show ?thesis by (simp add: rune_ok_def)
next
  case (Cons b bs)
  with assms have *: "DecodeRune (b # bs) = (r, w)" "rune_ok (r, w)" by simp_all
  show ?thesis
  proof (cases "unat b < 128")
    case True
    with * Cons show ?thesis by simp
  next
    case False
    with * obtain sz lo hi where st: "rune_start b = Some (sz, lo, hi)" "sz \<le> length bs + 1"
      by (auto simp: DecodeRune.simps(2) rune_ok_def split: option.splits if_splits)
    have "(bs @ ys) ! 0 = bs ! 0" "2 < sz \<Longrightarrow> (bs @ ys) ! 1 = bs ! 1" "3 < sz \<Longrightarrow> (bs @ ys) ! 2 = bs ! 2"
      using st(2) rune_start_size [OF st(1)] by (auto simp: nth_append)
    moreover have "sz = 2 \<or> 2 < sz" "sz \<noteq> 2 \<Longrightarrow> sz = 3 \<or> 3 < sz"
      using rune_start_size [OF st(1)] by auto
    ultimately show ?thesis
      using * st False Cons by (auto simp: DecodeRune.simps(2))
  qed
qed

lemma DecodeRune_take:
  assumes "DecodeRune xs = (r, w)" and "rune_ok (r, w)"
  shows "DecodeRune (take w xs) = (r, w)"
proof (cases xs)
  case Nil
  with assms show ?thesis by simp
next
  case (Cons b bs)
  with assms have *: "DecodeRune (b # bs) = (r, w)" "rune_ok (r, w)" by simp_all
  show ?thesis
  proof (cases "unat b < 128")
    case True
    with * Cons show ?thesis by auto
  next
    case False
    with * obtain sz lo hi where st: "rune_start b = Some (sz, lo, hi)" "sz \<le> length bs + 1"
      by (auto simp: DecodeRune.simps(2) rune_ok_def split: option.splits if_splits)
    then have "w = sz"
      using * False rune_start_size [OF st(1)] by (auto simp: DecodeRune.simps(2) rune_ok_def split: if_splits)
    note st = st this
    have "take w xs = b # take (w - 1) bs" "length (take (w - 1) bs) + 1 = sz"
      using st(2,3) rune_start_size [OF st(1)] Cons by (auto simp: take_Cons')
    moreover have "take (w - 1) bs ! 0 = bs ! 0" "2 < sz \<Longrightarrow> take (w - 1) bs ! 1 = bs ! 1"
      "3 < sz \<Longrightarrow> take (w - 1) bs ! 2 = bs ! 2"
      using st(2,3) rune_start_size [OF st(1)] by auto
    moreover have "sz = 2 \<or> 2 < sz" "sz \<noteq> 2 \<Longrightarrow> sz = 3 \<or> 3 < sz"
      using rune_start_size [OF st(1)] by auto
    ultimately show ?thesis
      using * st False by (auto simp: DecodeRune.simps(2) split: if_splits)
  qed
qed

lemma DecodeRune_before_ascii:
  assumes "unat c < 128" and "xs \<noteq> []"
  shows "DecodeRune (xs @ c # ys) = DecodeRune xs"
proof -
  obtain b bs where xs: "xs = b # bs" using assms(2) by (cases xs) auto
  consider "bs = []" | b1 where "bs = [b1]" | b1 b2 where "bs = [b1, b2]" | b1 b2 b3 cs where "bs = b1 # b2 # b3 # cs"
    by (metis list.exhaust)
  then show ?thesis
    using assms(1) xs
    by cases (auto simp: DecodeRune.simps(2) rune_start_def cont_byte_def Let_def nth_append split: if_splits)
qed

section \<open>Valid strings\<close>

function (sequential) valid_utf8 :: "bytes \<Rightarrow> bool" where
  "valid_utf8 [] = True"
| "valid_utf8 xs = (rune_ok (DecodeRune xs) \<and> valid_utf8 (drop (snd (DecodeRune xs)) xs))"
  by pat_completeness auto

termination
  by (relation "measure length") (use DecodeRune_width(2) [OF surjective_pairing] in simp_all)

declare valid_utf8.simps(2) [simp del]

lemma valid_utf8_rune:
  "valid_utf8 xs \<Longrightarrow> xs \<noteq> [] \<Longrightarrow> rune_ok (DecodeRune xs) \<and> valid_utf8 (drop (snd (DecodeRune xs)) xs)"
  by (cases xs) (simp_all add: valid_utf8.simps)

lemma valid_utf8_ascii [simp]: "unat c < 128 \<Longrightarrow> valid_utf8 (c # xs) = valid_utf8 xs"
  by (simp add: valid_utf8.simps rune_ok_def RuneError_def)

lemma valid_utf8_all_ascii: "\<forall>c\<in>set xs. unat c < 128 \<Longrightarrow> valid_utf8 xs"
  by (induction xs) simp_all

lemma valid_utf8_append: "valid_utf8 xs \<Longrightarrow> valid_utf8 ys \<Longrightarrow> valid_utf8 (xs @ ys)"
proof (induction xs rule: valid_utf8.induct)
  case (2 b bs)
  obtain r w where rw: "DecodeRune (b # bs) = (r, w)" by (cases "DecodeRune (b # bs)")
  have ok: "rune_ok (r, w)" "valid_utf8 (drop w (b # bs))"
    using "2.prems"(1) rw by (auto simp: valid_utf8.simps)
  have "DecodeRune ((b # bs) @ ys) = (r, w)"
    using DecodeRune_append_ok [OF rw ok(1)] .
  moreover have "drop w (b # bs @ ys) = drop w (b # bs) @ ys"
    using DecodeRune_width(1) [OF rw] by (cases w) auto
  moreover have "valid_utf8 (drop w (b # bs) @ ys)"
    using "2.IH" ok(2) rw "2.prems"(2) by simp
  ultimately show ?case
    using ok(1) by (simp only: append_Cons valid_utf8.simps(2) snd_conv simp_thms)
next
  case 1
  then show ?case by (simp only: append_Nil)
qed

text \<open>A valid string can be cut before any ASCII byte that is reached rune by rune, and its tail is valid.\<close>

lemma valid_utf8_split:
  "valid_utf8 (xs @ c # ys) \<Longrightarrow> unat c < 128 \<Longrightarrow> valid_utf8 xs \<and> valid_utf8 ys"
proof (induction xs rule: valid_utf8.induct)
  case (2 b bs)
  obtain r w where rw: "DecodeRune (b # bs) = (r, w)" by (cases "DecodeRune (b # bs)")
  have "DecodeRune ((b # bs) @ c # ys) = (r, w)"
    using DecodeRune_before_ascii [of c "b # bs" ys] "2.prems"(2) rw by simp
  moreover have "drop w (b # bs @ c # ys) = drop w (b # bs) @ c # ys"
    using DecodeRune_width(1) [OF rw] by (cases w) auto
  ultimately have ok: "rune_ok (r, w)" "valid_utf8 (drop w (b # bs) @ c # ys)"
    using valid_utf8_rune [OF "2.prems"(1)] by auto
  then have "valid_utf8 (drop w (b # bs)) \<and> valid_utf8 ys"
    using "2.IH" rw "2.prems"(2) by simp
  then show ?case
    using ok(1) rw by (simp add: valid_utf8.simps(2) [of b bs])
qed simp

end
