(* ===== verification/Sanitize.thy ===== *)
theory Sanitize
  imports Go_Utf8 Go_Strconv
begin

text \<open>
  The client-side interpolation of arguments into SQL text (\<open>internal/sanitize/sanitize.go\<close>): the lexer
  that finds the placeholders, one function per state of the lexer, and the rendering of the arguments as
  literals. Positions are those of the code. A query taken from a pool starts with no parts, like a new one.
\<close>

section \<open>Queries and arguments\<close>

datatype Part = Text bytes | Placeholder int

text \<open>
  The dynamic type of an argument. The formats of \<open>float64\<close> and \<open>time.Time\<close> are parameters of
  \<open>Query_Sanitize\<close>.
\<close>

datatype ('f, 't) arg =
    Nil_arg
  | Int64 u64
  | Float64 'f
  | Bool bool
  | Bytes bytes
  | String bytes
  | Time 't
  | Other_arg

record SQLQuery =
  q_Parts :: "Part list"

section \<open>Literals\<close>

fun quote_body :: "bytes \<Rightarrow> bytes" where
  "quote_body [] = []"
| "quote_body (c # cs) = (if c = chr CHR 0x27 then [c, c] else [c]) @ quote_body cs"

definition QuoteString :: "bytes \<Rightarrow> bytes \<Rightarrow> bytes" where
  "QuoteString dst s = dst @ [chr CHR 0x27] @ quote_body s @ [chr CHR 0x27]"

definition hex_digit :: "nat \<Rightarrow> byte" where
  "hex_digit n = (if n < 10 then 48 + of_nat n else 87 + of_nat n)"

text \<open>\<open>hex.Encode\<close>: two lower-case digits per byte.\<close>

definition hex_Encode :: "bytes \<Rightarrow> bytes" where
  "hex_Encode buf = concat (map (\<lambda>b. [hex_digit (unat b div 16), hex_digit (unat b mod 16)]) buf)"

definition QuoteBytes :: "bytes \<Rightarrow> bytes \<Rightarrow> bytes" where
  "QuoteBytes dst buf =
     (if length buf = 0 then dst @ [chr CHR 0x27, chr CHR 0x5C, chr CHR ''x'', chr CHR 0x27]
      else dst @ [chr CHR 0x27, chr CHR 0x5C, chr CHR ''x''] @ hex_Encode buf @ [chr CHR 0x27])"

section \<open>Rendering\<close>

text \<open>The bytes written for an argument, between the two spaces; \<open>None\<close> for a type that is refused.\<close>

fun literal :: "('f \<Rightarrow> bytes) \<Rightarrow> ('t \<Rightarrow> bytes) \<Rightarrow> ('f, 't) arg \<Rightarrow> bytes option" where
  "literal ff ft Nil_arg = Some (str ''null'')"
| "literal ff ft (Int64 i) = Some (Itoa (sint i))"
| "literal ff ft (Float64 f) = Some (ff f)"
| "literal ff ft (Bool b) = Some (if b then str ''true'' else str ''false'')"
| "literal ff ft (Bytes bs) = Some (QuoteBytes [] bs)"
| "literal ff ft (String s) = Some (QuoteString [] s)"
| "literal ff ft (Time t) = Some (ft t)"
| "literal ff ft Other_arg = None"

fun Sanitize_loop :: "('f \<Rightarrow> bytes) \<Rightarrow> ('t \<Rightarrow> bytes) \<Rightarrow> ('f, 't) arg list \<Rightarrow> Part list \<Rightarrow> bool list \<Rightarrow> bytes
    \<Rightarrow> (bool list \<times> bytes) result" where
  "Sanitize_loop ff ft args [] argUse buf = Inr (argUse, buf)"
| "Sanitize_loop ff ft args (Text s # ps) argUse buf = Sanitize_loop ff ft args ps argUse (buf @ s)"
| "Sanitize_loop ff ft args (Placeholder n # ps) argUse buf =
     (let argIdx = n - 1 in
      if argIdx < 0 then Inl (ErrorsNew ''first sql argument must be > 0'')
      else if argIdx \<ge> int (length args) then Inl (ErrorsNew ''insufficient arguments'')
      else case literal ff ft (args ! nat argIdx) of
        None \<Rightarrow> Inl (ErrorsNew ''invalid arg type'')
      | Some p \<Rightarrow> Sanitize_loop ff ft args ps (argUse[nat argIdx := True])
                    (buf @ [chr CHR '' ''] @ p @ [chr CHR '' '']))"

fun unused :: "bool list \<Rightarrow> nat \<Rightarrow> nat option" where
  "unused [] i = None"
| "unused (used # us) i = (if \<not> used then Some i else unused us (i + 1))"

definition Query_Sanitize :: "('f \<Rightarrow> bytes) \<Rightarrow> ('t \<Rightarrow> bytes) \<Rightarrow> SQLQuery \<Rightarrow> ('f, 't) arg list \<Rightarrow> bytes result" where
  "Query_Sanitize ff ft q args =
     bindE (Sanitize_loop ff ft args (q_Parts q) (replicate (length args) False) []) (\<lambda>(argUse, buf).
       case unused argUse 0 of
         Some i \<Rightarrow> Inl (Errorf ''unused argument: %d'' (int i))
       | None \<Rightarrow> Inr buf)"

section \<open>The lexer\<close>

datatype stateFn = rawState_fn | singleQuoteState_fn | doubleQuoteState_fn | placeholderState_fn
  | dollarQuoteState_fn | escapeStringState_fn | oneLineCommentState_fn | multilineCommentState_fn

record sqlLexer =
  l_src :: bytes
  l_start :: nat
  l_pos :: nat
  l_nested :: nat
  l_dollarTag :: bytes
  l_parts :: "Part list"

text \<open>
  \<open>l.src[l.pos:]\<close>, \<open>l.src[a:b]\<close> and \<open>l.pos += n\<close>. The invariant \<open>wf_lexer\<close> keeps every slice in range.
\<close>

abbreviation l_rest :: "sqlLexer \<Rightarrow> bytes" where
  "l_rest l \<equiv> drop (l_pos l) (l_src l)"

definition substr :: "bytes \<Rightarrow> nat \<Rightarrow> nat \<Rightarrow> bytes" where
  "substr s a b = take (b - a) (drop a s)"

definition advance :: "nat \<Rightarrow> sqlLexer \<Rightarrow> sqlLexer" where
  "advance n l = l\<lparr>l_pos := l_pos l + n\<rparr>"

text \<open>The end of the input, or an invalid encoding: what was read since the last part becomes a part.\<close>

definition finish :: "sqlLexer \<Rightarrow> stateFn option \<times> sqlLexer" where
  "finish l =
     (if l_pos l > l_start l
      then (None, l\<lparr>l_parts := l_parts l @ [Text (substr (l_src l) (l_start l) (l_pos l))], l_start := l_pos l\<rparr>)
      else (None, l))"

text \<open>The rune at the position, its width, and the lexer after reading it.\<close>

definition l_rune :: "sqlLexer \<Rightarrow> nat" where
  "l_rune l = fst (DecodeRune (l_rest l))"

definition l_width :: "sqlLexer \<Rightarrow> nat" where
  "l_width l = snd (DecodeRune (l_rest l))"

definition next_rune :: "sqlLexer \<Rightarrow> sqlLexer" where
  "next_rune l = advance (l_width l) l"

definition at_error :: "sqlLexer \<Rightarrow> bool" where
  "at_error l \<longleftrightarrow> l_rune l = RuneError \<and> l_width l \<noteq> 3"

definition is_digit_rune :: "nat \<Rightarrow> bool" where
  "is_digit_rune r \<longleftrightarrow> 48 \<le> r \<and> r \<le> 57"

definition isDollarTagRune :: "nat \<Rightarrow> bool \<Rightarrow> bool" where
  "isDollarTagRune r first \<longleftrightarrow>
     r = 95 \<or> 97 \<le> r \<and> r \<le> 122 \<or> 65 \<le> r \<and> r \<le> 90
     \<or> \<not> first \<and> is_digit_rune r \<or> r \<ge> 128 \<and> r \<noteq> RuneError"

lemma DecodeRune_pos: "(r, w) = DecodeRune xs \<Longrightarrow> xs \<noteq> [] \<Longrightarrow> 0 < w"
  using DecodeRune_width(2) [of xs r w] by simp

text \<open>The loop of \<open>scanDollarQuoteTag\<close> over what is left of the string, with the index reached.\<close>

function scanDollarQuoteTag_loop :: "bytes \<Rightarrow> nat \<Rightarrow> bool \<Rightarrow> nat option" where
  "scanDollarQuoteTag_loop src i first =
     (if src = [] then None
      else let (r, w) = DecodeRune src in
        if r = 36 then Some i
        else if \<not> isDollarTagRune r first then None
        else scanDollarQuoteTag_loop (drop w src) (i + w) False)"
  by pat_completeness auto

termination
  by (relation "measure (\<lambda>(src, i, first). length src)") (auto intro!: diff_less DecodeRune_pos)

definition scanDollarQuoteTag :: "bytes \<Rightarrow> nat option" where
  "scanDollarQuoteTag src = scanDollarQuoteTag_loop src 0 True"

text \<open>\<open>strings.Index\<close>.\<close>

fun strings_Index :: "bytes \<Rightarrow> bytes \<Rightarrow> nat option" where
  "strings_Index [] sub = (if sub = [] then Some 0 else None)"
| "strings_Index (c # s) sub =
     (if prefix sub (c # s) then Some 0 else map_option Suc (strings_Index s sub))"

lemma next_rune_le [termination_simp]: "length (l_src l) - l_pos (next_rune l) \<le> length (l_src l) - l_pos l"
  by (simp add: next_rune_def advance_def)

lemma next_rune_src [simp]: "l_src (next_rune l) = l_src l"
  by (simp add: next_rune_def advance_def)

text \<open>Reading a rune that is not the error makes progress.\<close>

lemma next_rune_less:
  assumes "\<not> at_error l"
  shows "length (l_src l) - l_pos (next_rune l) < length (l_src l) - l_pos l"
proof -
  have "l_rest l \<noteq> []"
    using assms by (auto simp: at_error_def l_rune_def l_width_def)
  then have "0 < l_width l" "l_pos l < length (l_src l)"
    using DecodeRune_width(2) [of "l_rest l" "l_rune l" "l_width l"]
    by (auto simp: l_rune_def l_width_def)
  then show ?thesis
    by (simp add: next_rune_def advance_def)
qed

lemma small_not_error: "l_rune l = r \<Longrightarrow> r < 128 \<Longrightarrow> \<not> at_error l"
  by (simp add: at_error_def RuneError_def)

lemma next_rune_less2:
  "\<not> at_error l \<Longrightarrow> length (l_src l) - l_pos (next_rune (next_rune l)) < length (l_src l) - l_pos l"
  using next_rune_less [of l] next_rune_le [of "next_rune l"] by simp

section \<open>The states\<close>

text \<open>
  One function per state; each loops until it hands over to another state or, at the end of the input,
  to none.
\<close>

function rawState :: "sqlLexer \<Rightarrow> stateFn option \<times> sqlLexer" where
  "rawState l =
     (let l1 = next_rune l in
      if at_error l then finish l1
      else if l_rune l = 101 \<or> l_rune l = 69 then
        (if l_rune l1 = 39 then (Some escapeStringState_fn, next_rune l1) else rawState l1)
      else if l_rune l = 39 then (Some singleQuoteState_fn, l1)
      else if l_rune l = 34 then (Some doubleQuoteState_fn, l1)
      else if l_rune l = 36 then
        (if is_digit_rune (l_rune l1) then
           (Some placeholderState_fn,
            (if l_pos l1 > l_start l1
             then l1\<lparr>l_parts := l_parts l1 @ [Text (substr (l_src l1) (l_start l1) (l_pos l1 - l_width l))]\<rparr>
             else l1)\<lparr>l_start := l_pos l1\<rparr>)
         else case scanDollarQuoteTag (l_rest l1) of
             Some tagLen \<Rightarrow>
               (Some dollarQuoteState_fn,
                advance (tagLen + 1) (l1\<lparr>l_dollarTag := substr (l_src l1) (l_pos l1) (l_pos l1 + tagLen)\<rparr>))
           | None \<Rightarrow> rawState l1)
      else if l_rune l = 45 then
        (if l_rune l1 = 45 then (Some oneLineCommentState_fn, next_rune l1) else rawState l1)
      else if l_rune l = 47 then
        (if l_rune l1 = 42 then (Some multilineCommentState_fn, next_rune l1) else rawState l1)
      else rawState l1)"
  by pat_completeness auto

termination
  by (relation "measure (\<lambda>l. length (l_rest l))") (simp_all add: next_rune_less)

function singleQuoteState :: "sqlLexer \<Rightarrow> stateFn option \<times> sqlLexer" where
  "singleQuoteState l =
     (let l1 = next_rune l in
      if at_error l then finish l1
      else if l_rune l = 39 then
        (if l_rune l1 \<noteq> 39 then (Some rawState_fn, l1) else singleQuoteState (next_rune l1))
      else singleQuoteState l1)"
  by pat_completeness auto

termination
  by (relation "measure (\<lambda>l. length (l_rest l))") (simp_all add: next_rune_less next_rune_less2)

function doubleQuoteState :: "sqlLexer \<Rightarrow> stateFn option \<times> sqlLexer" where
  "doubleQuoteState l =
     (let l1 = next_rune l in
      if at_error l then finish l1
      else if l_rune l = 34 then
        (if l_rune l1 \<noteq> 34 then (Some rawState_fn, l1) else doubleQuoteState (next_rune l1))
      else doubleQuoteState l1)"
  by pat_completeness auto

termination
  by (relation "measure (\<lambda>l. length (l_rest l))") (simp_all add: next_rune_less next_rune_less2)

text \<open>
  A number so large that the next digit could leave the range of \<open>int32\<close> is replaced by \<open>math.MaxInt32\<close>.
\<close>

definition MaxInt32 :: int where
  "MaxInt32 = 2147483647"

definition placeholder_digit :: "int \<Rightarrow> nat \<Rightarrow> int" where
  "placeholder_digit num r = (if num > (MaxInt32 - 9) div 10 then MaxInt32 else num * 10 + int (r - 48))"

function placeholder_loop :: "int \<Rightarrow> sqlLexer \<Rightarrow> stateFn option \<times> sqlLexer" where
  "placeholder_loop num l =
     (if is_digit_rune (l_rune l) then placeholder_loop (placeholder_digit num (l_rune l)) (next_rune l)
      else (Some rawState_fn, l\<lparr>l_parts := l_parts l @ [Placeholder num], l_start := l_pos l\<rparr>))"
  by pat_completeness auto

termination
  by (relation "measure (\<lambda>(num, l). length (l_rest l))")
     (auto intro!: next_rune_less small_not_error [OF refl] simp: is_digit_rune_def)

definition placeholderState :: "sqlLexer \<Rightarrow> stateFn option \<times> sqlLexer" where
  "placeholderState l = placeholder_loop 0 l"

definition dollarQuoteState :: "sqlLexer \<Rightarrow> stateFn option \<times> sqlLexer" where
  "dollarQuoteState l =
     (let closer = 36 # l_dollarTag l @ [36] in
      case strings_Index (l_rest l) closer of
        None \<Rightarrow>
          (None, (if length (l_src l) > l_start l
                  then l\<lparr>l_parts := l_parts l @ [Text (drop (l_start l) (l_src l))], l_start := length (l_src l)\<rparr>
                  else l)\<lparr>l_pos := length (l_src l)\<rparr>)
      | Some idx \<Rightarrow> (Some rawState_fn, (advance (idx + length closer) l)\<lparr>l_dollarTag := []\<rparr>))"

function escapeStringState :: "sqlLexer \<Rightarrow> stateFn option \<times> sqlLexer" where
  "escapeStringState l =
     (let l1 = next_rune l in
      if at_error l then finish l1
      else if l_rune l = 92 then escapeStringState (next_rune l1)
      else if l_rune l = 39 then
        (if l_rune l1 \<noteq> 39 then (Some rawState_fn, l1) else escapeStringState (next_rune l1))
      else escapeStringState l1)"
  by pat_completeness auto

termination
  by (relation "measure (\<lambda>l. length (l_rest l))") (simp_all add: next_rune_less next_rune_less2)

function oneLineCommentState :: "sqlLexer \<Rightarrow> stateFn option \<times> sqlLexer" where
  "oneLineCommentState l =
     (let l1 = next_rune l in
      if at_error l then finish l1
      else if l_rune l = 92 then oneLineCommentState (next_rune l1)
      else if l_rune l = 10 \<or> l_rune l = 13 then (Some rawState_fn, l1)
      else oneLineCommentState l1)"
  by pat_completeness auto

termination
  by (relation "measure (\<lambda>l. length (l_rest l))") (simp_all add: next_rune_less next_rune_less2)

function multilineCommentState :: "sqlLexer \<Rightarrow> stateFn option \<times> sqlLexer" where
  "multilineCommentState l =
     (let l1 = next_rune l in
      if at_error l then finish l1
      else if l_rune l = 47 then
        (if l_rune l1 = 42 then multilineCommentState ((next_rune l1)\<lparr>l_nested := l_nested l1 + 1\<rparr>)
         else multilineCommentState l1)
      else if l_rune l = 42 then
        (if l_rune l1 \<noteq> 47 then multilineCommentState l1
         else if l_nested l1 = 0 then (Some rawState_fn, next_rune l1)
         else multilineCommentState ((next_rune l1)\<lparr>l_nested := l_nested l1 - 1\<rparr>))
      else multilineCommentState l1)"
  by pat_completeness auto

termination
  by (relation "measure (\<lambda>l. length (l_rest l))") (simp_all add: next_rune_less next_rune_less2)

lemmas state_simps [simp del] =
  rawState.simps singleQuoteState.simps doubleQuoteState.simps placeholder_loop.simps
  escapeStringState.simps oneLineCommentState.simps multilineCommentState.simps scanDollarQuoteTag_loop.simps

fun run_state :: "stateFn \<Rightarrow> sqlLexer \<Rightarrow> stateFn option \<times> sqlLexer" where
  "run_state rawState_fn l = rawState l"
| "run_state singleQuoteState_fn l = singleQuoteState l"
| "run_state doubleQuoteState_fn l = doubleQuoteState l"
| "run_state placeholderState_fn l = placeholderState l"
| "run_state dollarQuoteState_fn l = dollarQuoteState l"
| "run_state escapeStringState_fn l = escapeStringState l"
| "run_state oneLineCommentState_fn l = oneLineCommentState l"
| "run_state multilineCommentState_fn l = multilineCommentState l"

section \<open>The loop over the states\<close>

text \<open>A state function keeps the source, and whoever hands over to another state has read something.\<close>

definition moved :: "sqlLexer \<Rightarrow> stateFn option \<times> sqlLexer \<Rightarrow> bool" where
  "moved l fl \<longleftrightarrow> l_src (snd fl) = l_src l
     \<and> (fst fl \<noteq> None \<longrightarrow> length (l_src l) - l_pos (snd fl) < length (l_src l) - l_pos l)"

lemma moved_later: "\<not> at_error l \<Longrightarrow> moved (next_rune l) fl \<Longrightarrow> moved l fl"
  using next_rune_less [of l] by (auto simp: moved_def)

lemma moved_later2: "\<not> at_error l \<Longrightarrow> moved (next_rune (next_rune l)) fl \<Longrightarrow> moved l fl"
  using next_rune_less2 [of l] by (auto simp: moved_def)

lemma moved_nested [simp]: "moved (l\<lparr>l_nested := n\<rparr>) fl = moved l fl"
  by (simp add: moved_def)

lemma moved_finish: "moved l (finish (next_rune l))"
  by (simp add: moved_def finish_def)

lemma moved_next: "\<not> at_error l \<Longrightarrow> moved l (Some f, next_rune l)"
  by (simp add: moved_def next_rune_less)

lemma moved_next2: "\<not> at_error l \<Longrightarrow> moved l (Some f, next_rune (next_rune l))"
  by (simp add: moved_def next_rune_less2)

lemmas moved_intros = moved_finish moved_next moved_next2

lemma moved_singleQuoteState: "moved l (singleQuoteState l)"
  by (induction l rule: singleQuoteState.induct, subst singleQuoteState.simps)
     (simp add: Let_def moved_intros moved_later moved_later2)

lemma moved_doubleQuoteState: "moved l (doubleQuoteState l)"
  by (induction l rule: doubleQuoteState.induct, subst doubleQuoteState.simps)
     (simp add: Let_def moved_intros moved_later moved_later2)

lemma moved_escapeStringState: "moved l (escapeStringState l)"
  by (induction l rule: escapeStringState.induct, subst escapeStringState.simps)
     (simp add: Let_def moved_intros moved_later moved_later2)

lemma moved_oneLineCommentState: "moved l (oneLineCommentState l)"
  by (induction l rule: oneLineCommentState.induct, subst oneLineCommentState.simps)
     (simp add: Let_def moved_intros moved_later moved_later2)

lemma moved_multilineCommentState: "moved l (multilineCommentState l)"
proof (induction "length (l_rest l)" arbitrary: l rule: less_induct)
  case less
  have step: "moved l (multilineCommentState (next_rune l))" if "\<not> at_error l"
    using less [of "next_rune l"] next_rune_less [OF that] moved_later [OF that] by simp
  have step2: "moved l (multilineCommentState ((next_rune (next_rune l))\<lparr>l_nested := n\<rparr>))" if "\<not> at_error l" for n
    using less [of "(next_rune (next_rune l))\<lparr>l_nested := n\<rparr>"] next_rune_less2 [OF that] moved_later2 [OF that] by simp
  show ?case
    by (subst multilineCommentState.simps) (simp add: Let_def step step2 moved_intros)
qed

lemma moved_rawState: "moved l (rawState l)"
proof (induction "length (l_rest l)" arbitrary: l rule: less_induct)
  case less
  have step: "moved l (rawState (next_rune l))" if "\<not> at_error l"
    using less [of "next_rune l"] next_rune_less [OF that] moved_later [OF that] by simp
  have place: "moved l (Some f, (next_rune l)\<lparr>l_start := n\<rparr>)"
    "moved l (Some f, (next_rune l)\<lparr>l_parts := ps, l_start := n\<rparr>)" if "\<not> at_error l" for f n ps
    using that next_rune_less [of l] by (simp_all add: moved_def)
  have dollar: "moved l (Some f, advance n ((next_rune l)\<lparr>l_dollarTag := t\<rparr>))" if "\<not> at_error l" for f n t
    using next_rune_less [OF that] by (simp add: moved_def advance_def)
  show ?case
    by (subst rawState.simps)
       (simp add: Let_def step place dollar moved_intros split: option.split)
qed

lemma strings_Index_Some: "strings_Index s sub = Some i \<Longrightarrow> prefix sub (drop i s) \<and> i \<le> length s"
  by (induction s arbitrary: i) (auto split: if_splits)

lemma moved_dollarQuoteState: "moved l (dollarQuoteState l)"
proof (cases "strings_Index (l_rest l) (36 # l_dollarTag l @ [36])")
  case None
  then show ?thesis by (simp add: dollarQuoteState_def moved_def)
next
  case (Some idx)
  then have "l_rest l \<noteq> []" by (cases "l_rest l") auto
  with Some show ?thesis
    by (simp add: dollarQuoteState_def moved_def advance_def)
qed

lemma placeholder_loop_le:
  "l_src (snd (placeholder_loop num l)) = l_src l
   \<and> length (l_src l) - l_pos (snd (placeholder_loop num l)) \<le> length (l_src l) - l_pos l
   \<and> fst (placeholder_loop num l) = Some rawState_fn"
proof (induction num l rule: placeholder_loop.induct)
  case (1 num l)
  then show ?case
    using next_rune_le [of l] by (subst (1 2 3) placeholder_loop.simps) auto
qed

text \<open>
  The loop ends: the input left, counted double so that handing over from \<open>placeholderState\<close>, which may
  read nothing, counts as well.
\<close>

definition run_measure :: "stateFn option \<times> sqlLexer \<Rightarrow> nat" where
  "run_measure fl = (case fst fl of
       None \<Rightarrow> 0
     | Some f \<Rightarrow> 2 * length (l_rest (snd fl)) + (if f = placeholderState_fn then 2 else 1))"

lemma run_state_measure: "run_measure (run_state f l) < run_measure (Some f, l)"
proof (cases "f = placeholderState_fn")
  case True
  with placeholder_loop_le [of 0 l] show ?thesis
    by (auto simp: run_measure_def placeholderState_def)
next
  case False
  then have "moved l (run_state f l)"
    by (cases f)
       (simp_all add: moved_rawState moved_singleQuoteState moved_doubleQuoteState moved_dollarQuoteState
         moved_escapeStringState moved_oneLineCommentState moved_multilineCommentState)
  with False show ?thesis
    by (auto simp: run_measure_def moved_def split: option.splits)
qed

function lexer_run :: "stateFn option \<Rightarrow> sqlLexer \<Rightarrow> sqlLexer" where
  "lexer_run None l = l"
| "lexer_run (Some f) l = (case run_state f l of (f', l') \<Rightarrow> lexer_run f' l')"
  by pat_completeness auto

termination
proof (relation "measure run_measure")
  fix f l x y
  assume "(x, y) = run_state f l"
  then show "((x, y), Some f, l) \<in> measure run_measure"
    using run_state_measure [of f l] by simp
qed simp

declare lexer_run.simps(2) [simp del]

definition Query_init :: "SQLQuery \<Rightarrow> bytes \<Rightarrow> SQLQuery" where
  "Query_init q sql =
     q\<lparr>q_Parts := l_parts (lexer_run (Some rawState_fn)
        \<lparr>l_src = sql, l_start = 0, l_pos = 0, l_nested = 0, l_dollarTag = [], l_parts = []\<rparr>)\<rparr>"

definition NewQuery :: "bytes \<Rightarrow> SQLQuery" where
  "NewQuery sql = Query_init \<lparr>q_Parts = []\<rparr> sql"

definition SanitizeSQL :: "('f \<Rightarrow> bytes) \<Rightarrow> ('t \<Rightarrow> bytes) \<Rightarrow> bytes \<Rightarrow> ('f, 't) arg list \<Rightarrow> bytes result" where
  "SanitizeSQL ff ft sql args = Query_Sanitize ff ft (Query_init \<lparr>q_Parts = []\<rparr> sql) args"

end
