(* ===== verification/Sanitize_Lex.thy ===== *)
theory Sanitize_Lex
  imports Sanitize
begin

text \<open>
  A specification of the lexer of \<open>Sanitize\<close> without positions: a step function on the input that is left,
  the list of parts it yields, and the proof that the state functions of the code compute the same parts.
\<close>

section \<open>The automaton\<close>

datatype lexst = LRaw | LSingle | LDouble | LEscape | LLine | LMulti nat | LDollar bytes

text \<open>
  \<open>Halt n\<close>: the input ends here, after \<open>n\<close> more bytes. \<open>Move n st\<close>: \<open>n\<close> bytes belong to the current text.
  \<open>Open\<close>: a placeholder starts.
\<close>

datatype lex_act = Halt nat | Move nat lexst | Open

definition bad_rune :: "nat \<times> nat \<Rightarrow> bool" where
  "bad_rune rw \<longleftrightarrow> fst rw = RuneError \<and> snd rw \<noteq> 3"

fun rune_step :: "lexst \<Rightarrow> nat \<Rightarrow> nat \<Rightarrow> nat \<Rightarrow> nat \<Rightarrow> bytes \<Rightarrow> lex_act" where
  "rune_step LRaw r w r' w' ys =
     (if (r = 101 \<or> r = 69) \<and> r' = 39 then Move (w + w') LEscape
      else if r = 39 then Move w LSingle
      else if r = 34 then Move w LDouble
      else if r = 36 then
        (if is_digit_rune r' then Open
         else case scanDollarQuoteTag ys of
             Some n \<Rightarrow> Move (w + (n + 1)) (LDollar (take n ys))
           | None \<Rightarrow> Move w LRaw)
      else if r = 45 \<and> r' = 45 then Move (w + w') LLine
      else if r = 47 \<and> r' = 42 then Move (w + w') (LMulti 0)
      else Move w LRaw)"
| "rune_step LSingle r w r' w' ys =
     (if r = 39 then if r' = 39 then Move (w + w') LSingle else Move w LRaw else Move w LSingle)"
| "rune_step LDouble r w r' w' ys =
     (if r = 34 then if r' = 34 then Move (w + w') LDouble else Move w LRaw else Move w LDouble)"
| "rune_step LEscape r w r' w' ys =
     (if r = 92 then Move (w + w') LEscape
      else if r = 39 then if r' = 39 then Move (w + w') LEscape else Move w LRaw else Move w LEscape)"
| "rune_step LLine r w r' w' ys =
     (if r = 92 then Move (w + w') LLine else if r = 10 \<or> r = 13 then Move w LRaw else Move w LLine)"
| "rune_step (LMulti n) r w r' w' ys =
     (if r = 47 \<and> r' = 42 then Move (w + w') (LMulti (n + 1))
      else if r = 42 \<and> r' = 47 then Move (w + w') (if n = 0 then LRaw else LMulti (n - 1))
      else Move w (LMulti n))"
| "rune_step (LDollar t) r w r' w' ys = Move w (LDollar t)"

definition lex_step :: "lexst \<Rightarrow> bytes \<Rightarrow> lex_act" where
  "lex_step st xs = (case st of
       LDollar t \<Rightarrow> (case strings_Index xs (36 # t @ [36]) of
           None \<Rightarrow> Halt (length xs)
         | Some i \<Rightarrow> Move (i + (length t + 2)) LRaw)
     | _ \<Rightarrow>
       let (r, w) = DecodeRune xs; ys = drop w xs; (r', w') = DecodeRune ys in
       if bad_rune (r, w) then Halt w else rune_step st r w r' w' ys)"

definition text_part :: "bytes \<Rightarrow> Part list" where
  "text_part t = (if t = [] then [] else [Text t])"

definition placeholder_value :: "bytes \<Rightarrow> int" where
  "placeholder_value ds = fold (\<lambda>d n. placeholder_digit n (unat d)) ds 0"

lemma lex_step_decoded:
  assumes "\<nexists>t. st = LDollar t" and "DecodeRune xs = (r, w)" and "DecodeRune (drop w xs) = (r', w')"
  shows "lex_step st xs = (if bad_rune (r, w) then Halt w else rune_step st r w r' w' (drop w xs))"
  using assms by (cases st) (simp_all add: lex_step_def del: rune_step.simps)

lemma rune_step_pos: "rune_step st r w r' w' ys = Move n st' \<Longrightarrow> w \<le> n"
  by (cases st) (auto split: if_splits option.splits)

lemma lex_step_pos:
  assumes "lex_step st xs = Move n st'"
  shows "0 < n \<and> xs \<noteq> []"
proof (cases "\<exists>t. st = LDollar t")
  case True
  with assms show ?thesis by (cases xs) (auto simp: lex_step_def split: option.splits)
next
  case False
  obtain r w where rw: "DecodeRune xs = (r, w)" by (cases "DecodeRune xs")
  obtain r' w' where rw': "DecodeRune (drop w xs) = (r', w')" by (cases "DecodeRune (drop w xs)")
  have "\<not> bad_rune (r, w)" "rune_step st r w r' w' (drop w xs) = Move n st'"
    using assms lex_step_decoded [OF False rw rw'] by (auto split: if_splits)
  moreover from this(1) rw have "xs \<noteq> []"
    by (auto simp: bad_rune_def)
  ultimately show ?thesis
    using rune_step_pos [of st r w r' w'] DecodeRune_width(2) [OF rw] by (metis less_le_trans)
qed

lemma lex_step_Open: "lex_step st xs = Open \<Longrightarrow> xs \<noteq> []"
  by (cases xs) (auto simp: lex_step_def bad_rune_def split: lexst.splits option.splits)

function lexes :: "lexst \<Rightarrow> bytes \<Rightarrow> bytes \<Rightarrow> Part list" where
  "lexes st acc xs = (case lex_step st xs of
       Halt n \<Rightarrow> text_part (acc @ take n xs)
     | Move n st' \<Rightarrow> lexes st' (acc @ take n xs) (drop n xs)
     | Open \<Rightarrow>
         let ds = takeWhile is_digit (tl xs) in
         Text acc # Placeholder (placeholder_value ds) # lexes LRaw [] (drop (length ds + 1) xs))"
  by pat_completeness auto

termination
proof (relation "measure (\<lambda>(st, acc, xs). length xs)", goal_cases)
  case 1
  show ?case by simp
next
  case (2 st acc xs n st')
  then show ?case using lex_step_pos [of st xs n st'] by simp
next
  case (3 st acc xs x)
  then show ?case using lex_step_Open [of st xs] by simp
qed

declare lexes.simps [simp del]

section \<open>The code computes these parts\<close>

definition wf_lexer :: "sqlLexer \<Rightarrow> bool" where
  "wf_lexer l \<longleftrightarrow> l_start l \<le> l_pos l \<and> l_pos l \<le> length (l_src l)"

definition l_text :: "sqlLexer \<Rightarrow> bytes" where
  "l_text l = substr (l_src l) (l_start l) (l_pos l)"

fun lex_state :: "stateFn \<Rightarrow> sqlLexer \<Rightarrow> lexst" where
  "lex_state singleQuoteState_fn l = LSingle"
| "lex_state doubleQuoteState_fn l = LDouble"
| "lex_state escapeStringState_fn l = LEscape"
| "lex_state oneLineCommentState_fn l = LLine"
| "lex_state multilineCommentState_fn l = LMulti (l_nested l)"
| "lex_state dollarQuoteState_fn l = LDollar (l_dollarTag l)"
| "lex_state _ l = LRaw"

text \<open>The parts that a lexer about to run a state function will have at the end.\<close>

fun final_parts :: "stateFn option \<times> sqlLexer \<Rightarrow> Part list" where
  "final_parts (None, l) = l_parts l"
| "final_parts (Some f, l) = l_parts l @
     (if f = placeholderState_fn
      then let ds = takeWhile is_digit (l_rest l) in
        Placeholder (placeholder_value ds) # lexes LRaw [] (drop (length ds) (l_rest l))
      else lexes (lex_state f l) (l_text l) (l_rest l))"

text \<open>The nesting counter is zero outside of comments.\<close>

fun good_state :: "stateFn option \<times> sqlLexer \<Rightarrow> bool" where
  "good_state (fo, l) \<longleftrightarrow> wf_lexer l \<and> (fo \<noteq> Some multilineCommentState_fn \<and> fo \<noteq> None \<longrightarrow> l_nested l = 0)"

lemma wf_next_rune: "wf_lexer l \<Longrightarrow> wf_lexer (next_rune l)"
  using DecodeRune_width(1) [of "l_rest l" "l_rune l" "l_width l"]
  by (auto simp: wf_lexer_def next_rune_def advance_def l_rune_def l_width_def)

lemma l_text_advance:
  assumes "wf_lexer l"
  shows "l_text (advance n l) = l_text l @ take n (l_rest l)"
proof -
  have "l_pos l + n - l_start l = (l_pos l - l_start l) + n" "drop (l_pos l - l_start l) (drop (l_start l) (l_src l)) = l_rest l"
    using assms by (simp_all add: wf_lexer_def)
  then show ?thesis
    by (simp add: l_text_def advance_def substr_def take_add)
qed

lemma l_rest_advance: "l_rest (advance n l) = drop n (l_rest l)"
  by (simp add: advance_def add.commute)

definition refines :: "sqlLexer \<Rightarrow> lexst \<Rightarrow> stateFn option \<times> sqlLexer \<Rightarrow> bool" where
  "refines l st fl \<longleftrightarrow> good_state fl \<and> final_parts fl = l_parts l @ lexes st (l_text l) (l_rest l)"

lemma lex_step_rune:
  assumes "\<forall>t. st \<noteq> LDollar t"
  shows "lex_step st (l_rest l) =
    (if at_error l then Halt (l_width l)
     else rune_step st (l_rune l) (l_width l) (l_rune (next_rune l)) (l_width (next_rune l)) (l_rest (next_rune l)))"
proof -
  have "l_rest (next_rune l) = drop (l_width l) (l_rest l)"
    unfolding next_rune_def by (rule l_rest_advance)
  then show ?thesis
    using assms
    by (cases st)
       (simp_all add: lex_step_def l_rune_def l_width_def at_error_def bad_rune_def Let_def case_prod_beta
         del: rune_step.simps)
qed

lemma refines_finish:
  assumes "wf_lexer l" and "at_error l" and "\<forall>t. st \<noteq> LDollar t"
  shows "refines l st (finish (next_rune l))"
proof -
  have "lexes st (l_text l) (l_rest l) = text_part (l_text l @ take (l_width l) (l_rest l))"
    using lex_step_rune [OF assms(3), of l] assms(2) by (subst lexes.simps) simp
  also have "l_text l @ take (l_width l) (l_rest l) = l_text (next_rune l)"
    using l_text_advance [OF assms(1)] by (simp add: next_rune_def)
  finally show ?thesis
    using wf_next_rune [OF assms(1)]
    by (auto simp: refines_def finish_def wf_lexer_def l_text_def text_part_def substr_def next_rune_def advance_def)
qed

lemma refines_move:
  assumes "wf_lexer l" and "lex_step st (l_rest l) = Move n st'" and "refines l' st' fl"
    and "l_text l' = l_text (advance n l)" and "l_rest l' = l_rest (advance n l)" and "l_parts l' = l_parts l"
  shows "refines l st fl"
proof -
  have "lexes st (l_text l) (l_rest l) = lexes st' (l_text l') (l_rest l')"
    using assms(2,4,5) l_text_advance [OF assms(1), of n] l_rest_advance [of n l]
    by (subst lexes.simps) simp
  with assms(3,6) show ?thesis by (simp add: refines_def)
qed

lemma refines_hand:
  "wf_lexer l \<Longrightarrow> f \<noteq> placeholderState_fn \<Longrightarrow> f \<noteq> multilineCommentState_fn \<longrightarrow> l_nested l = 0 \<Longrightarrow>
     refines l (lex_state f l) (Some f, l)"
  by (simp add: refines_def)

text \<open>One rune, or two, inside a state.\<close>

lemma refines_next:
  assumes "wf_lexer l" and "lex_step st (l_rest l) = Move (l_width l) st'"
    and "wf_lexer (next_rune l) \<Longrightarrow> refines (next_rune l) st' fl"
  shows "refines l st fl"
  using refines_move [OF assms(1,2), of "next_rune l"] assms(3) wf_next_rune [OF assms(1)]
  by (simp add: next_rune_def advance_def)

lemma refines_next2:
  assumes "wf_lexer l" and "lex_step st (l_rest l) = Move (l_width l + l_width (next_rune l)) st'"
    and "wf_lexer (next_rune (next_rune l)) \<Longrightarrow> refines ((next_rune (next_rune l))\<lparr>l_nested := n\<rparr>) st' fl"
  shows "refines l st fl"
proof -
  have "l_text ((next_rune (next_rune l))\<lparr>l_nested := n\<rparr>) = l_text (advance (l_width l + l_width (next_rune l)) l)"
    and "l_rest ((next_rune (next_rune l))\<lparr>l_nested := n\<rparr>) = l_rest (advance (l_width l + l_width (next_rune l)) l)"
    and "l_parts ((next_rune (next_rune l))\<lparr>l_nested := n\<rparr>) = l_parts l"
    by (simp_all add: next_rune_def advance_def l_text_def add.assoc)
  with refines_move [OF assms(1,2)] assms(3) wf_next_rune [OF wf_next_rune [OF assms(1)]]
  show ?thesis by blast
qed

lemma nested_same [simp]: "l_nested l = n \<Longrightarrow> l\<lparr>l_nested := n\<rparr> = l"
  by (cases l) simp

lemma next_rune_fields [simp]:
  "l_nested (next_rune l) = l_nested l" "l_parts (next_rune l) = l_parts l" "l_start (next_rune l) = l_start l"
  "l_dollarTag (next_rune l) = l_dollarTag l"
  by (simp_all add: next_rune_def advance_def)

lemma wf_nested [simp]: "wf_lexer (l\<lparr>l_nested := n\<rparr>) = wf_lexer l"
  by (simp add: wf_lexer_def)



lemma to_raw:
  "wf_lexer l \<Longrightarrow> l_nested l = 0 \<Longrightarrow> lex_step st (l_rest l) = Move (l_width l) LRaw \<Longrightarrow>
     refines l st (Some rawState_fn, next_rune l)"
  by (rule refines_next) (use refines_hand [of "next_rune l" rawState_fn] in simp_all)

lemma singleQuoteState_refines:
  "wf_lexer l \<Longrightarrow> l_nested l = 0 \<Longrightarrow> refines l LSingle (singleQuoteState l)"
proof (induction "length (l_rest l)" arbitrary: l rule: less_induct)
  case less
  have one: "refines l LSingle (singleQuoteState (next_rune l))"
    if "\<not> at_error l" "lex_step LSingle (l_rest l) = Move (l_width l) LSingle"
    by (rule refines_next [OF less.prems(1) that(2)]) (use less next_rune_less [OF that(1)] in simp)
  have two: "refines l LSingle (singleQuoteState (next_rune (next_rune l)))"
    if "\<not> at_error l" "lex_step LSingle (l_rest l) = Move (l_width l + l_width (next_rune l)) LSingle"
    by (rule refines_next2 [OF less.prems(1) that(2), of 0]) (use less next_rune_less2 [OF that(1)] in simp)
  show ?case
    by (subst singleQuoteState.simps)
       (use less.prems in \<open>simp add: Let_def lex_step_rune refines_finish one two to_raw\<close>)
qed

lemma doubleQuoteState_refines:
  "wf_lexer l \<Longrightarrow> l_nested l = 0 \<Longrightarrow> refines l LDouble (doubleQuoteState l)"
proof (induction "length (l_rest l)" arbitrary: l rule: less_induct)
  case less
  have one: "refines l LDouble (doubleQuoteState (next_rune l))"
    if "\<not> at_error l" "lex_step LDouble (l_rest l) = Move (l_width l) LDouble"
    by (rule refines_next [OF less.prems(1) that(2)]) (use less next_rune_less [OF that(1)] in simp)
  have two: "refines l LDouble (doubleQuoteState (next_rune (next_rune l)))"
    if "\<not> at_error l" "lex_step LDouble (l_rest l) = Move (l_width l + l_width (next_rune l)) LDouble"
    by (rule refines_next2 [OF less.prems(1) that(2), of 0]) (use less next_rune_less2 [OF that(1)] in simp)
  show ?case
    by (subst doubleQuoteState.simps)
       (use less.prems in \<open>simp add: Let_def lex_step_rune refines_finish one two to_raw\<close>)
qed

lemma escapeStringState_refines:
  "wf_lexer l \<Longrightarrow> l_nested l = 0 \<Longrightarrow> refines l LEscape (escapeStringState l)"
proof (induction "length (l_rest l)" arbitrary: l rule: less_induct)
  case less
  have one: "refines l LEscape (escapeStringState (next_rune l))"
    if "\<not> at_error l" "lex_step LEscape (l_rest l) = Move (l_width l) LEscape"
    by (rule refines_next [OF less.prems(1) that(2)]) (use less next_rune_less [OF that(1)] in simp)
  have two: "refines l LEscape (escapeStringState (next_rune (next_rune l)))"
    if "\<not> at_error l" "lex_step LEscape (l_rest l) = Move (l_width l + l_width (next_rune l)) LEscape"
    by (rule refines_next2 [OF less.prems(1) that(2), of 0]) (use less next_rune_less2 [OF that(1)] in simp)
  show ?case
    by (subst escapeStringState.simps)
       (use less.prems in \<open>simp add: Let_def lex_step_rune refines_finish one two to_raw\<close>)
qed

lemma oneLineCommentState_refines:
  "wf_lexer l \<Longrightarrow> l_nested l = 0 \<Longrightarrow> refines l LLine (oneLineCommentState l)"
proof (induction "length (l_rest l)" arbitrary: l rule: less_induct)
  case less
  have one: "refines l LLine (oneLineCommentState (next_rune l))"
    if "\<not> at_error l" "lex_step LLine (l_rest l) = Move (l_width l) LLine"
    by (rule refines_next [OF less.prems(1) that(2)]) (use less next_rune_less [OF that(1)] in simp)
  have two: "refines l LLine (oneLineCommentState (next_rune (next_rune l)))"
    if "\<not> at_error l" "lex_step LLine (l_rest l) = Move (l_width l + l_width (next_rune l)) LLine"
    by (rule refines_next2 [OF less.prems(1) that(2), of 0]) (use less next_rune_less2 [OF that(1)] in simp)
  show ?case
    by (subst oneLineCommentState.simps)
       (use less.prems in \<open>simp add: Let_def lex_step_rune refines_finish one two to_raw\<close>)
qed

lemma to_raw2:
  "wf_lexer l \<Longrightarrow> l_nested l = 0 \<Longrightarrow> lex_step st (l_rest l) = Move (l_width l + l_width (next_rune l)) (lex_state f l) \<Longrightarrow>
     f = rawState_fn \<or> f = escapeStringState_fn \<or> f = oneLineCommentState_fn \<or> f = multilineCommentState_fn \<Longrightarrow>
     refines l st (Some f, next_rune (next_rune l))"
  by (rule refines_next2 [where n = 0], assumption, assumption)
     (use refines_hand [of "next_rune (next_rune l)" f] in auto)

lemma multilineCommentState_refines:
  "wf_lexer l \<Longrightarrow> refines l (LMulti (l_nested l)) (multilineCommentState l)"
proof (induction "length (l_rest l)" arbitrary: l rule: less_induct)
  case less
  have one: "refines l (LMulti m) (multilineCommentState (next_rune l))"
    if "\<not> at_error l" "l_nested l = m" "lex_step (LMulti m) (l_rest l) = Move (l_width l) (LMulti m)" for m
    by (rule refines_next [OF less.prems(1) that(3)])
       (use less.hyps [of "next_rune l"] next_rune_less [OF that(1)] that(2) in simp)
  have two: "refines l (LMulti m) (multilineCommentState ((next_rune (next_rune l))\<lparr>l_nested := n\<rparr>))"
    if "\<not> at_error l" "lex_step (LMulti m) (l_rest l) = Move (l_width l + l_width (next_rune l)) (LMulti n)" for m n
    by (rule refines_next2 [OF less.prems(1) that(2), of n])
       (use less.hyps [of "(next_rune (next_rune l))\<lparr>l_nested := n\<rparr>"] next_rune_less2 [OF that(1)] in simp)
  have raw: "refines l (LMulti 0) (Some rawState_fn, next_rune (next_rune l))"
    if "l_nested l = 0" "lex_step (LMulti 0) (l_rest l) = Move (l_width l + l_width (next_rune l)) LRaw"
    using to_raw2 [of l "LMulti 0" rawState_fn] that less.prems by simp
  show ?case
    by (subst multilineCommentState.simps)
       (use less.prems in \<open>simp add: Let_def lex_step_rune refines_finish one two raw\<close>)
qed

lemma dollarQuoteState_refines:
  assumes "wf_lexer l" and "l_nested l = 0"
  shows "refines l (LDollar (l_dollarTag l)) (dollarQuoteState l)"
proof (cases "strings_Index (l_rest l) (36 # l_dollarTag l @ [36])")
  case None
  have "l_text l @ l_rest l = drop (l_start l) (l_src l)"
    using assms(1) by (simp add: l_text_def substr_def wf_lexer_def)
       (metis append_take_drop_id drop_drop le_add_diff_inverse2)
  then show ?thesis
    using assms None
    by (subst refines_def, subst lexes.simps)
       (auto simp: dollarQuoteState_def lex_step_def text_part_def wf_lexer_def)
next
  case (Some i)
  let ?n = "i + (length (l_dollarTag l) + 2)"
  let ?l' = "(advance ?n l)\<lparr>l_dollarTag := []\<rparr>"
  have "?n \<le> length (l_rest l)"
    using strings_Index_Some [OF Some] prefix_length_le [of "36 # l_dollarTag l @ [36]"] by fastforce
  then have "wf_lexer ?l'"
    using assms(1) by (simp add: wf_lexer_def advance_def)
  then have "refines ?l' LRaw (Some rawState_fn, ?l')"
    using refines_hand [of ?l' rawState_fn] assms(2) by (simp add: advance_def)
  then have "refines l (LDollar (l_dollarTag l)) (Some rawState_fn, ?l')"
    using Some by (intro refines_move [OF assms(1), of _ ?n LRaw ?l'])
      (simp_all add: lex_step_def l_text_def advance_def)
  then show ?thesis
    using Some by (simp add: dollarQuoteState_def)
qed

lemma scan_loop_bound: "scanDollarQuoteTag_loop xs i first = Some n \<Longrightarrow> i \<le> n \<and> n < i + length xs"
proof (induction xs i first rule: scanDollarQuoteTag_loop.induct)
  case (1 xs i first)
  obtain r w where rw: "DecodeRune xs = (r, w)" by (cases "DecodeRune xs")
  show ?case
    using 1 rw DecodeRune_width [OF rw]
    by (subst (asm) (2) scanDollarQuoteTag_loop.simps) (fastforce split: if_splits)
qed

lemma scanDollarQuoteTag_bound: "scanDollarQuoteTag xs = Some n \<Longrightarrow> n < length xs"
  using scan_loop_bound by (fastforce simp: scanDollarQuoteTag_def)

lemma raw_placeholder:
  assumes wf: "wf_lexer l" and nested: "l_nested l = 0" and r: "l_rune l = 36" "is_digit_rune (l_rune (next_rune l))"
  shows "refines l LRaw (Some placeholderState_fn,
    (if l_pos (next_rune l) > l_start (next_rune l)
     then (next_rune l)\<lparr>l_parts := l_parts l @
        [Text (substr (l_src l) (l_start l) (l_pos (next_rune l) - l_width l))]\<rparr>
     else next_rune l)\<lparr>l_start := l_pos (next_rune l)\<rparr>)"
proof -
  obtain ys where ys: "l_rest l = 36 # ys" "l_width l = 1"
    using DecodeRune_small [of "l_rest l" "l_rune l" "l_width l"] r(1)
    by (auto simp: l_rune_def l_width_def word_unat_eq_iff)
  have rest: "l_rest (next_rune l) = ys" "l_pos (next_rune l) = l_pos l + 1"
    using ys l_rest_advance [of 1 l] by (simp_all add: next_rune_def advance_def)
  have err: "\<not> at_error l"
    using r(1) by (simp add: small_not_error)
  have "lex_step LRaw (l_rest l) = Open"
    using r err by (simp add: lex_step_rune)
  then have "lexes LRaw (l_text l) (l_rest l) = Text (l_text l) # Placeholder (placeholder_value (takeWhile is_digit ys))
      # lexes LRaw [] (drop (length (takeWhile is_digit ys)) ys)"
    using ys by (subst lexes.simps) (simp add: Let_def)
  moreover have "l_start l < l_pos (next_rune l)" "l_pos (next_rune l) - l_width l = l_pos l"
    using rest(2) ys(2) wf by (simp_all add: wf_lexer_def)
  ultimately show ?thesis
    using rest(1) nested wf_next_rune [OF wf]
    by (simp add: refines_def wf_lexer_def l_text_def Let_def)
qed

lemma raw_dollar:
  assumes wf: "wf_lexer l" and nested: "l_nested l = 0" and r: "l_rune l = 36" "\<not> is_digit_rune (l_rune (next_rune l))"
    and scan: "scanDollarQuoteTag (l_rest (next_rune l)) = Some n"
  shows "refines l LRaw (Some dollarQuoteState_fn,
    advance (n + 1) ((next_rune l)\<lparr>l_dollarTag := substr (l_src l) (l_pos (next_rune l)) (l_pos (next_rune l) + n)\<rparr>))"
proof -
  define l' where "l' = advance (n + 1) ((next_rune l)\<lparr>l_dollarTag := take n (l_rest (next_rune l))\<rparr>)"
  have err: "\<not> at_error l"
    using r(1) by (simp add: small_not_error)
  have step: "lex_step LRaw (l_rest l) = Move (l_width l + (n + 1)) (LDollar (take n (l_rest (next_rune l))))"
    using r err scan by (simp add: lex_step_rune)
  have "wf_lexer l'"
    using wf_next_rune [OF wf] scanDollarQuoteTag_bound [OF scan] by (auto simp: l'_def wf_lexer_def advance_def)
  then have "refines l' (LDollar (take n (l_rest (next_rune l)))) (Some dollarQuoteState_fn, l')"
    using refines_hand [of l' dollarQuoteState_fn] nested by (simp add: l'_def advance_def)
  then have "refines l LRaw (Some dollarQuoteState_fn, l')"
    by (rule refines_move [OF wf step]) (simp_all add: l'_def advance_def next_rune_def l_text_def add.assoc)
  then show ?thesis by (simp add: l'_def substr_def)
qed

lemma to_quote:
  assumes "wf_lexer l" "l_nested l = 0" "lex_step st (l_rest l) = Move (l_width l) (lex_state f l)"
    "f = singleQuoteState_fn \<or> f = doubleQuoteState_fn"
  shows "refines l st (Some f, next_rune l)"
  by (rule refines_next [OF assms(1,3)]) (use refines_hand [of "next_rune l" f] assms(2,4) in auto)

lemma rawState_refines: "wf_lexer l \<Longrightarrow> l_nested l = 0 \<Longrightarrow> refines l LRaw (rawState l)"
proof (induction "length (l_rest l)" arbitrary: l rule: less_induct)
  case less
  have one: "refines l LRaw (rawState (next_rune l))"
    if "\<not> at_error l" "lex_step LRaw (l_rest l) = Move (l_width l) LRaw"
    by (rule refines_next [OF less.prems(1) that(2)]) (use less next_rune_less [OF that(1)] in simp)
  note hand = to_quote [OF less.prems, of LRaw singleQuoteState_fn, simplified]
    to_quote [OF less.prems, of LRaw doubleQuoteState_fn, simplified]
    to_raw2 [OF less.prems, of LRaw escapeStringState_fn, simplified]
    to_raw2 [OF less.prems, of LRaw oneLineCommentState_fn, simplified]
    to_raw2 [OF less.prems, of LRaw multilineCommentState_fn, simplified less.prems lex_state.simps, simplified]
  show ?case
  proof (cases "l_rune l = 36")
    case True
    then have err: "\<not> at_error l" by (simp add: small_not_error)
    consider "is_digit_rune (l_rune (next_rune l))"
      | n where "\<not> is_digit_rune (l_rune (next_rune l))" "scanDollarQuoteTag (l_rest (next_rune l)) = Some n"
      | "\<not> is_digit_rune (l_rune (next_rune l))" "scanDollarQuoteTag (l_rest (next_rune l)) = None"
      by fastforce
    then show ?thesis
    proof cases
      case 1
      with True err raw_placeholder [OF less.prems] show ?thesis
        by (subst rawState.simps) (cases "l_start l < l_pos (next_rune l)"; simp add: Let_def)
    next
      case 2
      with True err raw_dollar [OF less.prems] show ?thesis
        by (subst rawState.simps) (simp add: Let_def)
    next
      case 3
      with True err show ?thesis
        by (subst rawState.simps) (simp add: Let_def one lex_step_rune)
    qed
  next
    case False
    then show ?thesis
      using less.prems by (subst rawState.simps) (simp add: Let_def lex_step_rune refines_finish one hand)
  qed
qed

text \<open>The digits of a placeholder.\<close>

lemma digit_rune_iff:
  assumes "DecodeRune xs = (r, w)"
  shows "is_digit_rune r \<longleftrightarrow> (\<exists>c ys. xs = c # ys \<and> is_digit c \<and> r = unat c \<and> w = 1)"
proof
  assume r: "is_digit_rune r"
  then have "r < 128" by (simp add: is_digit_rune_def)
  with DecodeRune_small [OF assms] obtain c ys where "xs = c # ys" "unat c = r" "w = 1" by blast
  with r show "\<exists>c ys. xs = c # ys \<and> is_digit c \<and> r = unat c \<and> w = 1"
    by (simp add: is_digit_rune_def is_digit_iff)
qed (auto simp: is_digit_rune_def is_digit_iff)

lemma takeWhile_no_digit:
  assumes "DecodeRune xs = (r, w)" and "\<not> is_digit_rune r"
  shows "takeWhile is_digit xs = []"
proof (cases xs)
  case (Cons c ys)
  have "\<not> is_digit c"
  proof
    assume "is_digit c"
    moreover from this have "DecodeRune xs = (unat c, 1)" using Cons by (simp add: is_digit_iff)
    ultimately show False using assms by (simp add: is_digit_rune_def is_digit_iff)
  qed
  with Cons show ?thesis by simp
qed simp

lemma l_decode: "DecodeRune (l_rest l) = (l_rune l, l_width l)"
  by (simp add: l_rune_def l_width_def)

lemma placeholder_loop_parts:
  assumes "wf_lexer l" and "l_nested l = 0"
  shows "good_state (placeholder_loop num l) \<and> final_parts (placeholder_loop num l) = l_parts l @
    (let ds = takeWhile is_digit (l_rest l) in
      Placeholder (fold (\<lambda>d n. placeholder_digit n (unat d)) ds num) # lexes LRaw [] (drop (length ds) (l_rest l)))"
  using assms
proof (induction num l rule: placeholder_loop.induct)
  case (1 num l)
  show ?case
  proof (cases "is_digit_rune (l_rune l)")
    case True
    then obtain c ys where c: "l_rest l = c # ys" "is_digit c" "l_rune l = unat c" "l_width l = 1"
      using digit_rune_iff [OF l_decode] by blast
    then have "l_rest (next_rune l) = ys"
      using l_rest_advance [of 1 l] by (simp add: next_rune_def)
    moreover have "placeholder_loop num l = placeholder_loop (placeholder_digit num (unat c)) (next_rune l)"
      using True c(3) by (subst placeholder_loop.simps) simp
    ultimately show ?thesis
      using "1.IH" [OF True] "1.prems" True c wf_next_rune [of l] by (simp add: Let_def)
  next
    case False
    then have "placeholder_loop num l = (Some rawState_fn, l\<lparr>l_parts := l_parts l @ [Placeholder num], l_start := l_pos l\<rparr>)"
      by (subst placeholder_loop.simps) simp
    then show ?thesis
      using "1.prems" takeWhile_no_digit [OF l_decode False] by (simp add: wf_lexer_def l_text_def substr_def)
  qed
qed

lemma run_state_parts:
  assumes "good_state (Some f, l)"
  shows "good_state (run_state f l) \<and> final_parts (run_state f l) = final_parts (Some f, l)"
proof (cases "f = placeholderState_fn")
  case True
  with assms placeholder_loop_parts [of l 0] show ?thesis
    by (simp add: placeholderState_def placeholder_value_def)
next
  case False
  with assms have "refines l (lex_state f l) (run_state f l)"
    by (cases f) (simp_all add: rawState_refines singleQuoteState_refines doubleQuoteState_refines
      dollarQuoteState_refines escapeStringState_refines oneLineCommentState_refines multilineCommentState_refines)
  with False show ?thesis by (simp add: refines_def)
qed

lemma lexer_run_parts: "good_state (fo, l) \<Longrightarrow> l_parts (lexer_run fo l) = final_parts (fo, l)"
proof (induction fo l rule: lexer_run.induct)
  case (2 f l)
  obtain f' l' where "run_state f l = (f', l')" by (cases "run_state f l")
  with 2 run_state_parts [of f l] show ?case
    by (simp add: lexer_run.simps(2) del: final_parts.simps good_state.simps)
qed simp

theorem Query_init_parts: "q_Parts (Query_init q sql) = lexes LRaw [] sql"
  by (simp add: Query_init_def lexer_run_parts wf_lexer_def l_text_def substr_def)

end
