(* ===== verification/Sanitize_Props.thy ===== *)
theory Sanitize_Props
  imports Sanitize_Lex
begin

text \<open>
  What the interpolation of arguments guarantees: the parts of a query are the text of the SQL cut at its
  placeholders; every literal is read from, and back to, the plain state of the lexer, whatever the argument
  holds; and the literals denote the arguments.
\<close>

section \<open>Reading without stopping\<close>

inductive passes :: "lexst \<Rightarrow> bytes \<Rightarrow> lexst \<Rightarrow> bytes \<Rightarrow> bool" where
  passes_refl: "passes st xs st xs"
| passes_step: "lex_step st xs = Move n st1 \<Longrightarrow> passes st1 (drop n xs) st2 ys \<Longrightarrow> passes st xs st2 ys"

inductive_cases passes_cases: "passes st xs st' ys"

lemma passes_trans: "passes st xs st1 ys \<Longrightarrow> passes st1 ys st2 zs \<Longrightarrow> passes st xs st2 zs"
  by (induction rule: passes.induct) (auto intro: passes_step)

lemma lex_step_bound:
  assumes "lex_step st xs = Move n st'"
  shows "n \<le> length xs"
proof (cases "\<exists>t. st = LDollar t")
  case True
  then obtain t where t: "st = LDollar t" ..
  with assms obtain i where i: "strings_Index xs (36 # t @ [36]) = Some i" "n = i + (length t + 2)"
    by (auto simp: lex_step_def split: option.splits)
  then have "length (36 # t @ [36]) \<le> length (drop i xs)"
    using strings_Index_Some prefix_length_le by metis
  with i strings_Index_Some [OF i(1)] show ?thesis by simp
next
  case False
  obtain r w where rw: "DecodeRune xs = (r, w)" by (cases "DecodeRune xs")
  obtain r' w' where rw': "DecodeRune (drop w xs) = (r', w')" by (cases "DecodeRune (drop w xs)")
  have "rune_step st r w r' w' (drop w xs) = Move n st'"
    using assms lex_step_decoded [OF False rw rw'] by (auto split: if_splits)
  moreover have "w + w' \<le> length xs"
    using DecodeRune_width(1) [OF rw] DecodeRune_width(1) [OF rw'] by simp
  moreover have "w + (k + 1) \<le> length xs" if "scanDollarQuoteTag (drop w xs) = Some k" for k
    using scanDollarQuoteTag_bound [OF that] by simp
  ultimately show ?thesis
    by (cases st) (auto split: if_splits option.splits)
qed

lemma passes_lexes:
  assumes "passes st xs st' ys"
  shows "\<exists>u. xs = u @ ys \<and> (\<forall>acc. lexes st acc xs = lexes st' (acc @ u) ys)"
  using assms
proof (induction rule: passes.induct)
  case (passes_refl st xs)
  show ?case by simp
next
  case (passes_step st xs n st1 st2 ys)
  then obtain u where u: "drop n xs = u @ ys" "\<forall>acc. lexes st1 acc (drop n xs) = lexes st2 (acc @ u) ys" by blast
  have "xs = (take n xs @ u) @ ys"
    using u(1) by (metis append.assoc append_take_drop_id)
  moreover have "lexes st acc xs = lexes st2 (acc @ take n xs @ u) ys" for acc
    using passes_step.hyps(1) u(2) by (subst lexes.simps) simp
  ultimately show ?case by blast
qed

section \<open>The text before a placeholder\<close>

lemma strings_Index_iff:
  "strings_Index s sub = Some i \<longleftrightarrow> i \<le> length s \<and> prefix sub (drop i s) \<and> (\<forall>j<i. \<not> prefix sub (drop j s))"
proof (induction s arbitrary: i)
  case (Cons c s)
  show ?case
  proof (cases i)
    case 0
    then show ?thesis by (simp add: Cons.IH)
  next
    case (Suc k)
    then show ?thesis
      using Cons.IH [of k] by (auto simp: less_Suc_eq_0_disj all_simps)
  qed
qed auto

lemma prefix_inside: "length sub \<le> length v \<Longrightarrow> prefix sub (v @ zs) \<longleftrightarrow> prefix sub v"
  by (metis prefix_length_prefix prefix_prefix prefixI)

lemma strings_Index_swap:
  assumes "strings_Index (u @ xs) sub = Some i" and "i + length sub \<le> length u"
  shows "strings_Index (u @ ys) sub = Some i"
proof -
  have "prefix sub (drop j (u @ zs)) \<longleftrightarrow> prefix sub (drop j u)" if "j \<le> i" for j zs
    using assms(2) that prefix_inside [of sub "drop j u" zs] by simp
  then show ?thesis
    using assms by (simp add: strings_Index_iff del: drop_append)
qed

lemma scan_loop_ascii:
  "c < 128 \<Longrightarrow> xs \<noteq> [] \<Longrightarrow> DecodeRune (xs @ c # ys) = (r, w) \<Longrightarrow> DecodeRune xs = (r, w) \<and> w \<le> length xs"
  using DecodeRune_before_ascii [of c xs ys] DecodeRune_width(1) [of xs r w]
  by (simp add: word_less_nat_alt)

lemma scan_loop_swap:
  assumes "c < 128"
  shows "scanDollarQuoteTag_loop (v @ 36 # zs) i first = None \<Longrightarrow> scanDollarQuoteTag_loop (v @ c # ys) i first = None"
    and "scanDollarQuoteTag_loop (v @ 36 # zs) i first = Some n \<Longrightarrow> n < i + length v \<Longrightarrow>
      scanDollarQuoteTag_loop (v @ c # ys) i first = Some n"
proof -
  have "(scanDollarQuoteTag_loop (v @ 36 # zs) i first = None \<longrightarrow> scanDollarQuoteTag_loop (v @ c # ys) i first = None)
    \<and> (\<forall>n. scanDollarQuoteTag_loop (v @ 36 # zs) i first = Some n \<longrightarrow> n < i + length v \<longrightarrow>
      scanDollarQuoteTag_loop (v @ c # ys) i first = Some n)"
  proof (induction "length v" arbitrary: v i first rule: less_induct)
    case less
    show ?case
    proof (cases "v = []")
      case True
      then show ?thesis
        by (subst (1 3) scanDollarQuoteTag_loop.simps) simp
    next
      case False
      obtain r w where rw: "DecodeRune v = (r, w)" by (cases "DecodeRune v")
      have dec: "DecodeRune (v @ 36 # zs) = (r, w)" "DecodeRune (v @ c # ys) = (r, w)"
        using DecodeRune_before_ascii [OF _ False] assms rw by (simp_all add: word_less_nat_alt)
      have w: "0 < w" "w \<le> length v"
        using DecodeRune_width [OF rw] False by auto
      have IH: "(scanDollarQuoteTag_loop (drop w v @ 36 # zs) (i + w) False = None
          \<longrightarrow> scanDollarQuoteTag_loop (drop w v @ c # ys) (i + w) False = None)
        \<and> (\<forall>n. scanDollarQuoteTag_loop (drop w v @ 36 # zs) (i + w) False = Some n \<longrightarrow> n < i + w + length (drop w v) \<longrightarrow>
          scanDollarQuoteTag_loop (drop w v @ c # ys) (i + w) False = Some n)"
        using less [of "drop w v"] w by simp
      have unf: "scanDollarQuoteTag_loop (v @ 36 # zs) i first = (if r = 36 then Some i
            else if \<not> isDollarTagRune r first then None
            else scanDollarQuoteTag_loop (drop w v @ 36 # zs) (i + w) False)"
        "scanDollarQuoteTag_loop (v @ c # ys) i first = (if r = 36 then Some i
            else if \<not> isDollarTagRune r first then None
            else scanDollarQuoteTag_loop (drop w v @ c # ys) (i + w) False)"
        using dec w by (subst scanDollarQuoteTag_loop.simps, simp)+
      show ?thesis
        unfolding unf using IH w by simp
    qed
  qed
  then show "scanDollarQuoteTag_loop (v @ 36 # zs) i first = None \<Longrightarrow> scanDollarQuoteTag_loop (v @ c # ys) i first = None"
    and "scanDollarQuoteTag_loop (v @ 36 # zs) i first = Some n \<Longrightarrow> n < i + length v \<Longrightarrow>
      scanDollarQuoteTag_loop (v @ c # ys) i first = Some n"
    by blast+
qed

text \<open>
  The text before a placeholder is read in the same way when a space follows instead of the dollar sign.
\<close>

lemma lex_step_swap:
  assumes step: "lex_step st (u @ 36 # zs) = Move n st'" and n: "n \<le> length u" and u: "u \<noteq> []"
  shows "lex_step st (u @ 32 # ys) = Move n st'"
proof (cases "\<exists>t. st = LDollar t")
  case True
  then obtain t where t: "st = LDollar t" ..
  with step obtain i where "strings_Index (u @ 36 # zs) (36 # t @ [36]) = Some i" "n = i + (length t + 2)" "st' = LRaw"
    by (auto simp: lex_step_def split: option.splits)
  moreover from this have "strings_Index (u @ 32 # ys) (36 # t @ [36]) = Some i"
    using n strings_Index_swap [of u "36 # zs" _ i "32 # ys"] by simp
  ultimately show ?thesis
    using t by (simp add: lex_step_def)
next
  case False
  obtain r w where rw: "DecodeRune u = (r, w)" by (cases "DecodeRune u")
  then have dec: "DecodeRune (u @ 36 # zs) = (r, w)" "DecodeRune (u @ 32 # ys) = (r, w)"
    using DecodeRune_before_ascii [OF _ u] by simp_all
  have w: "0 < w" "w \<le> length u"
    using DecodeRune_width [OF rw] u by auto
  let ?v = "drop w u"
  obtain r1 w1 where next1: "DecodeRune (?v @ 36 # zs) = (r1, w1)" by (cases "DecodeRune (?v @ 36 # zs)")
  obtain r2 w2 where next2: "DecodeRune (?v @ 32 # ys) = (r2, w2)" by (cases "DecodeRune (?v @ 32 # ys)")
  have same: "w + w1 \<le> length u \<and> r2 = r1 \<and> w2 = w1 \<or> length u < w + w1 \<and> r1 = 36 \<and> r2 = 32"
  proof (cases "?v = []")
    case True
    then have "(r1, w1) = (36, 1)" "(r2, w2) = (32, 1)"
      unfolding next1 [symmetric] next2 [symmetric] by simp_all
    with True show ?thesis using w by simp
  next
    case False
    have "DecodeRune (?v @ 36 # zs) = DecodeRune ?v" "DecodeRune (?v @ 32 # ys) = DecodeRune ?v"
      by (rule DecodeRune_before_ascii; use False in simp)+
    with next1 next2 have "DecodeRune ?v = (r1, w1)" "r2 = r1" "w2 = w1"
      by (metis, metis prod.inject, metis prod.inject)
    then show ?thesis using DecodeRune_width(1) [of ?v] w by fastforce
  qed
  have d1: "DecodeRune (drop w (u @ 36 # zs)) = (r1, w1)" and d2: "DecodeRune (drop w (u @ 32 # ys)) = (r2, w2)"
    using next1 next2 w(2) by simp_all
  have dr: "drop w (u @ 36 # zs) = ?v @ 36 # zs" "drop w (u @ 32 # ys) = ?v @ 32 # ys"
    using w(2) by simp_all
  note step1' = lex_step_decoded [OF False dec(1) d1] and step2' = lex_step_decoded [OF False dec(2) d2]
  have step1: "\<not> bad_rune (r, w)" "rune_step st r w r1 w1 (?v @ 36 # zs) = Move n st'"
    using step step1' dr(1) by (simp_all split: if_splits)
  have scan: "scanDollarQuoteTag (?v @ 32 # ys) = scanDollarQuoteTag (?v @ 36 # zs)"
    if "scanDollarQuoteTag (?v @ 36 # zs) = None \<or> (\<exists>k. scanDollarQuoteTag (?v @ 36 # zs) = Some k \<and> w + (k + 1) \<le> length u)"
    using that scan_loop_swap [of 32 ?v zs 0 True] w(2) by (auto simp: scanDollarQuoteTag_def)
  have eqs: "r2 = 39 \<longleftrightarrow> r1 = 39" "r2 = 34 \<longleftrightarrow> r1 = 34" "r2 = 45 \<longleftrightarrow> r1 = 45" "r2 = 42 \<longleftrightarrow> r1 = 42" "r2 = 47 \<longleftrightarrow> r1 = 47"
    "is_digit_rune r2 \<longleftrightarrow> is_digit_rune r1" and width: "w + w1 \<le> length u \<Longrightarrow> w2 = w1"
    using same by (auto simp: is_digit_rune_def)
  have "rune_step st r w r2 w2 (?v @ 32 # ys) = Move n st'"
    using step1(2) n False scan width
    by (cases st) (auto simp: eqs split: if_splits option.splits)
  then show ?thesis
    using step1(1) step2' dr(2) by simp
qed

lemma passes_swap:
  assumes "passes st (u @ 36 # zs) LRaw (36 # zs)"
  shows "passes st (u @ 32 # ys) LRaw (32 # ys)"
  using assms
proof (induction "length u" arbitrary: st u rule: less_induct)
  case less
  from less.prems show ?case
  proof (cases rule: passes.cases)
    case passes_refl
    then have "u = []" by simp
    with passes_refl show ?thesis by (simp add: passes.passes_refl)
  next
    case (passes_step n st1)
    obtain v where v: "drop n (u @ 36 # zs) = v @ 36 # zs"
      using passes_lexes [OF passes_step(2)] by blast
    then have "length (u @ 36 # zs) - n = length v + length (36 # zs)"
      by (metis length_append length_drop)
    with lex_step_pos [OF passes_step(1)] have n: "0 < n" "n \<le> length u" by auto
    with v have "v = drop n u" by simp
    with passes_step(2) v have "passes st1 (drop n u @ 36 # zs) LRaw (36 # zs)" by simp
    then have "passes st1 (drop n u @ 32 # ys) LRaw (32 # ys)"
      using less.hyps [of "drop n u"] n by simp
    moreover have "lex_step st (u @ 32 # ys) = Move n st1"
      using lex_step_swap [OF passes_step(1)] n by fastforce
    ultimately show ?thesis
      using n(2) passes.passes_step [of st "u @ 32 # ys" n st1 LRaw "32 # ys"] by simp
  qed
qed

section \<open>Literals\<close>

lemma lex_step_raw_plain:
  assumes "unat c < 128" and "c \<notin> {34, 36, 39, 47}" and "c = 45 \<longrightarrow> hd (xs @ [0]) \<noteq> 45"
    and "c \<in> {69, 101} \<longrightarrow> hd (xs @ [0]) \<noteq> 39"
  shows "lex_step LRaw (c # xs) = Move 1 LRaw"
proof -
  obtain r w where rw: "DecodeRune xs = (r, w)" by (cases "DecodeRune xs")
  have "hd (xs @ [0]) = of_nat r" if "r < 128"
    using DecodeRune_small [OF rw that] by auto
  then have "r = 45 \<longrightarrow> hd (xs @ [0]) = 45" "r = 39 \<longrightarrow> hd (xs @ [0]) = 39" by auto
  moreover have "unat c \<notin> {34, 36, 39, 47}" "unat c \<in> {69, 101} \<longleftrightarrow> c \<in> {69, 101}" "unat c = 45 \<longleftrightarrow> c = 45"
    using assms(2) by (auto simp: word_unat_eq_iff)
  ultimately show ?thesis
    using assms(1,3,4) rw by (auto simp: lex_step_def bad_rune_def RuneError_def)
qed

text \<open>Words such as numbers, \<open>null\<close> and \<open>true\<close>.\<close>

definition plain_char :: "byte \<Rightarrow> bool" where
  "plain_char c \<longleftrightarrow> is_digit c \<or> c \<in> {43, 45, 46} \<or> 65 \<le> c \<and> c \<le> 90 \<or> 97 \<le> c \<and> c \<le> 122"

fun plain_word :: "bytes \<Rightarrow> bool" where
  "plain_word [] = True"
| "plain_word (c # cs) = (plain_char c \<and> (c = 45 \<longrightarrow> cs = [] \<or> hd cs \<noteq> 45) \<and> plain_word cs)"

lemma plain_char_props: "plain_char c \<Longrightarrow> unat c < 128 \<and> c \<notin> {32, 34, 36, 39, 47}"
  by (auto simp: plain_char_def is_digit_def word_le_nat_alt word_less_nat_alt word_unat_eq_iff)

lemma passes_plain: "plain_word w \<Longrightarrow> passes LRaw (w @ 32 # ys) LRaw (32 # ys)"
proof (induction w)
  case Nil
  show ?case by (simp add: passes_refl)
next
  case (Cons c cs)
  have "hd ((cs @ 32 # ys) @ [0]) = (if cs = [] then 32 else hd cs)"
    by (cases cs) auto
  moreover have "cs \<noteq> [] \<Longrightarrow> hd cs \<noteq> 39"
    using Cons.prems plain_char_props by (cases cs) auto
  ultimately have "lex_step LRaw (c # cs @ 32 # ys) = Move 1 LRaw"
    using Cons.prems plain_char_props [of c] by (intro lex_step_raw_plain) auto
  from passes_step [OF this] Cons show ?case by simp
qed

lemma passes_space: "passes LRaw (32 # ys) LRaw ys"
  using passes_step [OF lex_step_raw_plain, of 32 ys LRaw ys] by (simp add: passes_refl)

text \<open>The inside of a quoted literal, for any valid string.\<close>

lemma lex_step_single_other:
  assumes "DecodeRune xs = (r, w)" and "rune_ok (r, w)" and "r \<noteq> 39"
  shows "lex_step LSingle xs = Move w LSingle"
  using assms by (cases "DecodeRune (drop w xs)") (auto simp: lex_step_def bad_rune_def rune_ok_def)

lemma quote_body_wide: "\<forall>c\<in>set xs. 128 \<le> unat c \<Longrightarrow> quote_body xs = xs"
  by (induction xs) (auto simp: word_unat_eq_iff)

lemma quote_body_append: "quote_body (xs @ ys) = quote_body xs @ quote_body ys"
  by (induction xs) simp_all

lemma passes_quote_body:
  "valid_utf8 s \<Longrightarrow> passes LSingle (quote_body s @ 39 # ys) LSingle (39 # ys)"
proof (induction s rule: valid_utf8.induct)
  case 1
  show ?case by (simp add: passes_refl)
next
  case (2 b bs)
  obtain r w where rw: "DecodeRune (b # bs) = (r, w)" by (cases "DecodeRune (b # bs)")
  have ok: "rune_ok (r, w)" "valid_utf8 (drop w (b # bs))"
    using valid_utf8_rune [OF "2.prems"] rw by auto
  have IH: "passes LSingle (quote_body (drop w (b # bs)) @ 39 # ys) LSingle (39 # ys)"
    using "2.IH" ok(2) rw by simp
  have split: "quote_body (b # bs) = quote_body (take w (b # bs)) @ quote_body (drop w (b # bs))"
    by (metis append_take_drop_id quote_body_append)
  show ?case
  proof (cases "r < 128")
    case True
    with DecodeRune_small [OF rw True] have b: "unat b = r" "w = 1" by auto
    show ?thesis
    proof (cases "b = 39")
      case True
      have "lex_step LSingle (39 # 39 # quote_body bs @ 39 # ys) = Move 2 LSingle"
        by (simp add: lex_step_def bad_rune_def RuneError_def)
      from passes_step [OF this] IH b True show ?thesis by simp
    next
      case False
      then have "r \<noteq> 39" using b by (auto simp: word_unat_eq_iff)
      moreover have "DecodeRune (b # quote_body bs @ 39 # ys) = (r, 1)"
        using b True by simp
      ultimately have "lex_step LSingle (b # quote_body bs @ 39 # ys) = Move 1 LSingle"
        using ok(1) b(2) by (intro lex_step_single_other) auto
      from passes_step [OF this] IH b False show ?thesis by simp
    qed
  next
    case False
    have w: "w \<le> length (b # bs)"
      using DecodeRune_width(1) [OF rw] .
    have "quote_body (take w (b # bs)) = take w (b # bs)"
      using DecodeRune_wide [OF rw] False by (intro quote_body_wide) auto
    moreover have "DecodeRune (take w (b # bs) @ zs) = (r, w)" for zs
      using DecodeRune_take [OF rw ok(1)] DecodeRune_append_ok [OF _ ok(1)] by blast
    ultimately have "lex_step LSingle (quote_body (b # bs) @ 39 # ys) = Move w LSingle"
      using ok(1) False unfolding split by (intro lex_step_single_other) auto
    moreover have "drop w (quote_body (b # bs) @ 39 # ys) = quote_body (drop w (b # bs)) @ 39 # ys"
      unfolding split \<open>quote_body (take w (b # bs)) = take w (b # bs)\<close> using w by simp
    ultimately show ?thesis
      using IH by (metis passes_step)
  qed
qed

lemma passes_quoted:
  assumes "valid_utf8 s"
  shows "passes LRaw (39 # quote_body s @ 39 # 32 # ys) LRaw (32 # ys)"
proof -
  have "lex_step LRaw (39 # quote_body s @ 39 # 32 # ys) = Move 1 LSingle"
    by (cases "DecodeRune (quote_body s @ 39 # 32 # ys)") (simp add: lex_step_def bad_rune_def RuneError_def)
  from passes_step [OF this] have "passes LRaw (39 # quote_body s @ 39 # 32 # ys) LSingle (39 # 32 # ys)"
    using passes_quote_body [OF assms] by simp
  moreover have "lex_step LSingle (39 # 32 # ys) = Move 1 LRaw"
    by (simp add: lex_step_def bad_rune_def RuneError_def)
  from passes_step [OF this] have "passes LSingle (39 # 32 # ys) LRaw (32 # ys)"
    by (simp add: passes_refl)
  ultimately show ?thesis by (rule passes_trans)
qed

lemma quote_body_id: "39 \<notin> set s \<Longrightarrow> quote_body s = s"
  by (induction s) auto

lemma hex_digit_ascii: "n < 16 \<Longrightarrow> unat (hex_digit n) < 128 \<and> hex_digit n \<noteq> 39"
  by (simp add: hex_digit_def word_unat_eq_iff unat_word_ariths unat_of_nat)

lemma nibbles: "unat b div 16 < 16" "unat b mod 16 < 16" for b :: byte
proof -
  have "unat b < 16 * 16"
    using unsigned_less [of b, where 'a = nat] by simp
  then show "unat b div 16 < 16" by (simp only: less_mult_imp_div_less)
qed simp

lemma hex_Encode_ascii: "c \<in> set (hex_Encode bs) \<Longrightarrow> unat c < 128 \<and> c \<noteq> 39"
proof -
  assume "c \<in> set (hex_Encode bs)"
  then obtain b :: byte where "c \<in> set [hex_digit (unat b div 16), hex_digit (unat b mod 16)]"
    unfolding hex_Encode_def set_concat set_map by blast
  then show ?thesis
    using hex_digit_ascii [OF nibbles(1) [of b]] hex_digit_ascii [OF nibbles(2) [of b]] by auto
qed

text \<open>
  The documented formats of the standard library: a \<open>float64\<close> is printed as a word, a time in quotes and
  without a quote inside.
\<close>

definition quoted_ascii :: "bytes \<Rightarrow> bool" where
  "quoted_ascii xs \<longleftrightarrow> 2 \<le> length xs \<and> hd xs = 39 \<and> last xs = 39
     \<and> (\<forall>c\<in>set (butlast (tl xs)). unat c < 128 \<and> c \<noteq> 39)"

fun valid_arg :: "('f, 't) arg \<Rightarrow> bool" where
  "valid_arg (String s) = valid_utf8 s"
| "valid_arg _ = True"

lemma quoted_ascii_cases:
  assumes "quoted_ascii xs"
  obtains s where "xs = 39 # quote_body s @ [39]" and "valid_utf8 s"
proof -
  obtain s where "xs = 39 # s @ [39]"
    using assms by (cases xs; cases "tl xs" rule: rev_cases) (auto simp: quoted_ascii_def)
  moreover from this have "quote_body s = s" "valid_utf8 s"
    using assms by (auto simp: quoted_ascii_def intro!: quote_body_id valid_utf8_all_ascii)
  ultimately show ?thesis using that by metis
qed

lemma plain_word_digits: "\<forall>c\<in>set w. is_digit c \<Longrightarrow> plain_word w"
  by (induction w) (auto simp: plain_char_def is_digit_def)

lemma plain_word_Itoa: "plain_word (Itoa i)"
proof (cases "i < 0")
  case True
  have "plain_word (format_nat n)" for n
    using format_nat_digits by (intro plain_word_digits) blast
  moreover have "hd (format_nat n) \<noteq> 45" for n
    by (rule hd_format_nat_not_sign)
  ultimately show ?thesis
    using True by (simp add: Itoa_def plain_char_def)
next
  case False
  then show ?thesis
    using format_nat_digits by (auto simp: Itoa_def intro: plain_word_digits)
qed

lemma passes_literal:
  assumes "\<And>f. plain_word (ff f)" and "\<And>t. quoted_ascii (ft t)" and "valid_arg a" and "literal ff ft a = Some lit"
  shows "passes LRaw (32 # lit @ 32 # ys) LRaw ys"
proof -
  have quoted: "passes LRaw (39 # s @ 39 # 32 # ys) LRaw (32 # ys)"
    if "\<forall>c\<in>set s. unat c < 128 \<and> c \<noteq> 39" for s
    using passes_quoted [of s ys] that quote_body_id [of s] valid_utf8_all_ascii [of s] by auto
  have "passes LRaw (lit @ 32 # ys) LRaw (32 # ys)"
  proof (cases a)
    case (Bytes bs)
    then show ?thesis
      using assms(4) quoted [of "92 # 120 # hex_Encode bs"] hex_Encode_ascii [of _ bs]
      by (auto simp: QuoteBytes_def hex_Encode_def split: if_splits)
  next
    case (String s)
    then show ?thesis
      using assms(3,4) passes_quoted [of s ys] by (auto simp: QuoteString_def)
  next
    case (Time t)
    then show ?thesis
      using quoted_ascii_cases [OF assms(2), of t] assms(4) passes_quoted by fastforce
  qed (use assms(1,4) in \<open>auto intro!: passes_plain simp: plain_word_Itoa plain_char_def is_digit_def\<close>)
  then show ?thesis
    using passes_space passes_trans by blast
qed

section \<open>The parts of a query\<close>

lemma valid_utf8_drop_rune: "valid_utf8 xs \<Longrightarrow> valid_utf8 (drop (snd (DecodeRune xs)) xs)"
  using valid_utf8_rune [of xs] by (cases xs) auto

lemma scan_loop_valid:
  "scanDollarQuoteTag_loop xs i first = Some n \<Longrightarrow> valid_utf8 xs \<Longrightarrow> valid_utf8 (drop (n - i + 1) xs)"
proof (induction xs i first rule: scanDollarQuoteTag_loop.induct)
  case (1 xs i first)
  obtain r w where rw: "DecodeRune xs = (r, w)" by (cases "DecodeRune xs")
  have xs: "xs \<noteq> []"
    using "1.prems"(1) by (subst (asm) scanDollarQuoteTag_loop.simps) (auto split: if_splits)
  show ?case
  proof (cases "r = 36")
    case True
    with DecodeRune_small [OF rw] obtain c ys where "xs = c # ys" "unat c = 36" by auto
    moreover have "n = i"
      using "1.prems"(1) True rw xs by (subst (asm) scanDollarQuoteTag_loop.simps) simp
    ultimately show ?thesis
      using "1.prems"(2) by simp
  next
    case False
    then have rec: "scanDollarQuoteTag_loop (drop w xs) (i + w) False = Some n" and tag: "isDollarTagRune r first"
      using "1.prems"(1) rw xs by (subst (asm) scanDollarQuoteTag_loop.simps, simp split: if_splits)+
    then have "valid_utf8 (drop (n - (i + w) + 1) (drop w xs))"
      using "1.IH" [OF xs rw [symmetric]] False "1.prems"(2) valid_utf8_drop_rune [of xs] rw by simp
    moreover have "n - (i + w) + 1 + w = n - i + 1"
      using scan_loop_bound [OF rec] by simp
    ultimately show ?thesis by simp
  qed
qed

lemma lex_step_valid:
  assumes "lex_step st xs = Move n st'" and "valid_utf8 xs"
  shows "valid_utf8 (drop n xs)"
proof (cases "\<exists>t. st = LDollar t")
  case True
  then obtain t where t: "st = LDollar t" ..
  with assms(1) obtain i where i: "strings_Index xs (36 # t @ [36]) = Some i" "n = i + (length t + 2)"
    by (auto simp: lex_step_def split: option.splits)
  then obtain zs where zs: "drop i xs = 36 # t @ 36 # zs"
    using strings_Index_Some [OF i(1)] by (auto simp: prefix_def)
  then have "xs = (take i xs @ 36 # t) @ 36 # zs"
    by (metis append_Cons append_assoc append_take_drop_id)
  then have "valid_utf8 zs"
    using assms(2) valid_utf8_split [of "take i xs @ 36 # t" 36 zs] by simp
  moreover have "drop n xs = zs"
    using arg_cong [OF zs, of "drop (length t + 2)"] i(2) by (simp add: add.commute)
  ultimately show ?thesis by simp
next
  case False
  obtain r w where rw: "DecodeRune xs = (r, w)" by (cases "DecodeRune xs")
  obtain r' w' where rw': "DecodeRune (drop w xs) = (r', w')" by (cases "DecodeRune (drop w xs)")
  have step: "rune_step st r w r' w' (drop w xs) = Move n st'"
    using assms lex_step_decoded [OF False rw rw'] by (auto split: if_splits)
  have one: "valid_utf8 (drop w xs)"
    using valid_utf8_drop_rune [OF assms(2)] rw by simp
  then have two: "valid_utf8 (drop (w + w') xs)"
    using valid_utf8_drop_rune [OF one] rw' by (simp add: add.commute)
  have tag: "valid_utf8 (drop (w + (k + 1)) xs)" if "scanDollarQuoteTag (drop w xs) = Some k" for k
    using scan_loop_valid [of "drop w xs" 0 True k] that one by (simp add: scanDollarQuoteTag_def add.commute)
  show ?thesis
    using step one two tag by (cases st) (auto split: if_splits option.splits)
qed

lemma lex_step_Open_cases:
  assumes "lex_step st xs = Open"
  shows "st = LRaw \<and> (\<exists>d rest. xs = 36 # d # rest \<and> is_digit d)"
proof -
  have nd: "\<nexists>t. st = LDollar t"
    using assms by (auto simp: lex_step_def split: option.splits)
  obtain r w where rw: "DecodeRune xs = (r, w)" by (cases "DecodeRune xs")
  obtain r' w' where rw': "DecodeRune (drop w xs) = (r', w')" by (cases "DecodeRune (drop w xs)")
  have "rune_step st r w r' w' (drop w xs) = Open"
    using assms lex_step_decoded [OF nd rw rw'] by (auto split: if_splits)
  then have "st = LRaw" "r = 36" "is_digit_rune r'"
    by (cases st; auto split: if_splits option.splits)+
  moreover from this obtain ys where "xs = 36 # ys" "w = 1"
    using DecodeRune_small [OF rw] by (auto simp: word_unat_eq_iff)
  moreover from calculation obtain d rest where "ys = d # rest" "is_digit d"
    using digit_rune_iff [OF rw'] by auto
  ultimately show ?thesis by blast
qed

lemma lex_step_Halt_valid: "lex_step st xs = Halt n \<Longrightarrow> valid_utf8 xs \<Longrightarrow> n = length xs"
proof -
  assume halt: "lex_step st xs = Halt n" and valid: "valid_utf8 xs"
  show ?thesis
  proof (cases "\<exists>t. st = LDollar t")
    case True
    with halt show ?thesis by (auto simp: lex_step_def split: option.splits)
  next
    case False
    obtain r w where rw: "DecodeRune xs = (r, w)" by (cases "DecodeRune xs")
    obtain r' w' where rw': "DecodeRune (drop w xs) = (r', w')" by (cases "DecodeRune (drop w xs)")
    have "rune_step st r w r' w' (drop w xs) \<noteq> Halt n"
      by (cases st) (auto split: option.splits)
    then have "bad_rune (r, w)" "n = w"
      using halt lex_step_decoded [OF False rw rw'] by (auto split: if_splits)
    then have "xs = []"
      using valid_utf8_rune [OF valid] rw by (auto simp: bad_rune_def rune_ok_def)
    then show ?thesis
      using rw \<open>n = w\<close> by simp
  qed
qed

text \<open>The lexer stops at the first placeholder or reads to the end.\<close>

definition stops_at :: "lexst \<Rightarrow> bytes \<Rightarrow> bytes \<Rightarrow> byte \<Rightarrow> bytes \<Rightarrow> bool" where
  "stops_at st xs t d rest \<longleftrightarrow> xs = t @ 36 # d # rest \<and> is_digit d \<and> passes st xs LRaw (36 # d # rest)
     \<and> (\<forall>acc. lexes st acc xs = Text (acc @ t) # Placeholder (placeholder_value (takeWhile is_digit (d # rest)))
           # lexes LRaw [] (dropWhile is_digit (d # rest)))"

definition reads_all :: "lexst \<Rightarrow> bytes \<Rightarrow> bytes \<Rightarrow> bytes \<Rightarrow> bool" where
  "reads_all st xs t zs \<longleftrightarrow> xs = t @ zs \<and> (valid_utf8 xs \<longrightarrow> zs = [])
     \<and> (\<forall>acc. lexes st acc xs = text_part (acc @ t))"

lemma lexes_fragment: "(\<exists>t d rest. stops_at st xs t d rest) \<or> (\<exists>t zs. reads_all st xs t zs)"
proof (induction "length xs" arbitrary: st xs rule: less_induct)
  case less
  show ?case
  proof (cases "lex_step st xs")
    case (Halt n)
    have "lexes st acc xs = text_part (acc @ take n xs)" for acc
      using Halt by (subst lexes.simps) simp
    then have "reads_all st xs (take n xs) (drop n xs)"
      using lex_step_Halt_valid [OF Halt] by (simp add: reads_all_def)
    then show ?thesis by blast
  next
    case Open
    then obtain d rest where xs: "st = LRaw" "xs = 36 # d # rest" "is_digit d"
      using lex_step_Open_cases by blast
    have "lexes st acc xs = Text acc # Placeholder (placeholder_value (takeWhile is_digit (d # rest)))
        # lexes LRaw [] (dropWhile is_digit (d # rest))" for acc
      using Open xs by (subst lexes.simps) (simp add: Let_def dropWhile_eq_drop)
    then have "stops_at st xs [] d rest"
      using xs by (simp add: stops_at_def passes_refl)
    then show ?thesis by blast
  next
    case (Move n st1)
    have n: "n \<le> length xs" and shorter: "length (drop n xs) < length xs"
      using lex_step_pos [OF Move] lex_step_bound [OF Move] by simp_all
    have step: "lexes st acc xs = lexes st1 (acc @ take n xs) (drop n xs)" for acc
      using Move by (subst lexes.simps) simp
    from less [OF shorter, of st1] show ?thesis
    proof (elim disjE exE)
      fix t d rest
      assume "stops_at st1 (drop n xs) t d rest"
      then have "stops_at st xs (take n xs @ t) d rest"
        unfolding stops_at_def using step passes_step [OF Move]
        by (metis append.assoc append_take_drop_id)
      then show ?thesis by blast
    next
      fix t zs
      assume "reads_all st1 (drop n xs) t zs"
      then have "reads_all st xs (take n xs @ t) zs"
        unfolding reads_all_def using step lex_step_valid [OF Move]
        by (metis append.assoc append_take_drop_id)
      then show ?thesis by blast
    qed
  qed
qed

text \<open>Reassembling the parts.\<close>

fun matches :: "Part list \<Rightarrow> bytes \<Rightarrow> bool" where
  "matches [] xs = (xs = [])"
| "matches (Text t # ps) xs = (prefix t xs \<and> matches ps (drop (length t) xs))"
| "matches (Placeholder n # ps) xs =
     (let ds = takeWhile is_digit (tl xs) in
      xs \<noteq> [] \<and> hd xs = 36 \<and> ds \<noteq> [] \<and> n = placeholder_value ds \<and> matches ps (drop (length ds + 1) xs))"

lemma valid_utf8_dropWhile_digit: "valid_utf8 xs \<Longrightarrow> valid_utf8 (dropWhile is_digit xs)"
  by (induction xs) (auto simp: is_digit_iff)

lemma stops_at_valid:
  assumes "stops_at st xs t d rest" and "valid_utf8 xs"
  shows "valid_utf8 (dropWhile is_digit (d # rest))" and "length (dropWhile is_digit (d # rest)) < length xs"
proof -
  have xs: "xs = t @ 36 # d # rest"
    using assms(1) by (simp add: stops_at_def)
  then have "valid_utf8 (d # rest)"
    using valid_utf8_split [of t 36 "d # rest"] assms(2) by simp
  then show "valid_utf8 (dropWhile is_digit (d # rest))"
    by (rule valid_utf8_dropWhile_digit)
  have "length (dropWhile is_digit (d # rest)) \<le> length (d # rest)"
    by (rule length_dropWhile_le)
  then show "length (dropWhile is_digit (d # rest)) < length xs"
    using xs by simp
qed

lemma lexes_matches: "valid_utf8 xs \<Longrightarrow> matches (lexes LRaw [] xs) xs"
proof (induction "length xs" arbitrary: xs rule: less_induct)
  case less
  from lexes_fragment [of LRaw xs] show ?case
  proof (elim disjE exE)
    fix t d rest
    assume stop: "stops_at LRaw xs t d rest"
    have "matches (lexes LRaw [] (dropWhile is_digit (d # rest))) (dropWhile is_digit (d # rest))"
      using less stops_at_valid [OF stop less.prems] by blast
    with stop show ?thesis
      by (auto simp: stops_at_def Let_def dropWhile_eq_drop)
  next
    fix t zs
    assume "reads_all LRaw xs t zs"
    with less.prems show ?thesis
      by (auto simp: reads_all_def text_part_def)
  qed
qed

section \<open>Rendering\<close>

fun render :: "('f \<Rightarrow> bytes) \<Rightarrow> ('t \<Rightarrow> bytes) \<Rightarrow> ('f, 't) arg list \<Rightarrow> Part list \<Rightarrow> bytes" where
  "render ff ft args [] = []"
| "render ff ft args (Text s # ps) = s @ render ff ft args ps"
| "render ff ft args (Placeholder n # ps) =
     32 # the (literal ff ft (args ! nat (n - 1))) @ 32 # render ff ft args ps"


text \<open>Every placeholder names an argument of a supported type.\<close>

definition covered :: "('f \<Rightarrow> bytes) \<Rightarrow> ('t \<Rightarrow> bytes) \<Rightarrow> ('f, 't) arg list \<Rightarrow> Part list \<Rightarrow> bool" where
  "covered ff ft args ps \<longleftrightarrow> (\<forall>p\<in>set ps. case p of
       Text s \<Rightarrow> True
     | Placeholder n \<Rightarrow> 1 \<le> n \<and> n \<le> int (length args) \<and> literal ff ft (args ! nat (n - 1)) \<noteq> None)"

definition arg_indices :: "Part list \<Rightarrow> nat set" where
  "arg_indices ps = {nat (n - 1) |n. Placeholder n \<in> set ps}"

lemma arg_indices_simps [simp]:
  "arg_indices [] = {}" "arg_indices (Text s # ps) = arg_indices ps"
  "arg_indices (Placeholder n # ps) = insert (nat (n - 1)) (arg_indices ps)"
  by (auto simp: arg_indices_def)

lemma covered_simps [simp]:
  "covered ff ft args []" "covered ff ft args (Text s # ps) = covered ff ft args ps"
  "covered ff ft args (Placeholder n # ps) \<longleftrightarrow>
     1 \<le> n \<and> n \<le> int (length args) \<and> literal ff ft (args ! nat (n - 1)) \<noteq> None \<and> covered ff ft args ps"
  by (auto simp: covered_def)

lemma Sanitize_loop_render:
  "Sanitize_loop ff ft args ps use buf = Inr (use', out) \<Longrightarrow> length use = length args \<Longrightarrow>
     out = buf @ render ff ft args ps \<and> covered ff ft args ps \<and> length use' = length args
     \<and> (\<forall>i<length args. use' ! i \<longleftrightarrow> use ! i \<or> i \<in> arg_indices ps)"
proof (induction ff ft args ps use buf rule: Sanitize_loop.induct)
  case (3 ff ft args n ps use buf)
  then show ?case
    by (auto simp: Let_def nth_list_update split: if_splits option.splits)
qed simp_all

lemma Sanitize_loop_covered:
  "covered ff ft args ps \<Longrightarrow> \<exists>use' out. Sanitize_loop ff ft args ps use buf = Inr (use', out)"
  by (induction ff ft args ps use buf rule: Sanitize_loop.induct) (auto simp: Let_def)

lemma unused_None: "unused us i = None \<longleftrightarrow> (\<forall>u\<in>set us. u)"
  by (induction us arbitrary: i) auto

lemma Sanitize_Inr_iff:
  "Query_Sanitize ff ft q args = Inr out \<longleftrightarrow>
     covered ff ft args (q_Parts q) \<and> {..<length args} \<subseteq> arg_indices (q_Parts q)
     \<and> out = render ff ft args (q_Parts q)"
proof -
  let ?r = "Sanitize_loop ff ft args (q_Parts q) (replicate (length args) False) []"
  show ?thesis
  proof (cases ?r)
    case (Inl e)
    then show ?thesis
      using Sanitize_loop_covered [of ff ft args "q_Parts q" "replicate (length args) False" "[]"]
      by (auto simp: Query_Sanitize_def)
  next
    case (Inr r)
    then obtain use' out' where r: "?r = Inr (use', out')" by (cases r) auto
    from Sanitize_loop_render [OF r] have *: "out' = render ff ft args (q_Parts q)"
      "covered ff ft args (q_Parts q)" "length use' = length args"
      "\<forall>i<length args. use' ! i \<longleftrightarrow> i \<in> arg_indices (q_Parts q)" by auto
    have "unused use' 0 = None \<longleftrightarrow> {..<length args} \<subseteq> arg_indices (q_Parts q)"
      using *(3,4) by (auto simp: unused_None in_set_conv_nth all_set_conv_all_nth)
    then show ?thesis
      using r *(1,2) by (auto simp: Query_Sanitize_def split: option.splits)
  qed
qed

text \<open>Reading the output again, literal by literal.\<close>

definition standard_formats :: "('f \<Rightarrow> bytes) \<Rightarrow> ('t \<Rightarrow> bytes) \<Rightarrow> bool" where
  "standard_formats ff ft \<longleftrightarrow> (\<forall>f. plain_word (ff f)) \<and> (\<forall>t. quoted_ascii (ft t))"

definition isolated :: "bytes \<Rightarrow> bytes \<Rightarrow> bytes \<Rightarrow> bool" where
  "isolated out lit rest \<longleftrightarrow> passes LRaw out LRaw (32 # lit @ 32 # rest) \<and> passes LRaw (32 # lit @ 32 # rest) LRaw rest"

lemma rendered_step:
  assumes fmt: "standard_formats ff ft" and args: "\<forall>a\<in>set args. valid_arg a"
    and stop: "stops_at LRaw xs t d rest" and cov: "covered ff ft args (lexes LRaw [] xs)"
  obtains n lit ps where "lexes LRaw [] xs = Text t # Placeholder n # ps"
    and "ps = lexes LRaw [] (dropWhile is_digit (d # rest))"
    and "literal ff ft (args ! nat (n - 1)) = Some lit" and "covered ff ft args ps"
    and "render ff ft args (lexes LRaw [] xs) = (t @ 32 # lit @ [32]) @ render ff ft args ps"
    and "isolated (render ff ft args (lexes LRaw [] xs)) lit (render ff ft args ps)"
proof -
  define n where "n = placeholder_value (takeWhile is_digit (d # rest))"
  define ps where "ps = lexes LRaw [] (dropWhile is_digit (d # rest))"
  define out where "out = render ff ft args ps"
  have xs: "passes LRaw (t @ 36 # d # rest) LRaw (36 # d # rest)"
    and parts: "lexes LRaw [] xs = Text t # Placeholder n # ps"
    using stop unfolding stops_at_def n_def ps_def by (metis, metis append_Nil)
  obtain lit where lit: "literal ff ft (args ! nat (n - 1)) = Some lit" and cov': "covered ff ft args ps"
    and n: "1 \<le> n" "n \<le> int (length args)"
    using cov unfolding parts by auto
  have whole: "render ff ft args (lexes LRaw [] xs) = (t @ 32 # lit @ [32]) @ out"
    unfolding parts out_def using lit by simp
  have "valid_arg (args ! nat (n - 1))"
    using args n by auto
  then have "passes LRaw (32 # lit @ 32 # out) LRaw out"
    using fmt lit by (intro passes_literal [of ff ft]) (auto simp: standard_formats_def)
  moreover have "passes LRaw (t @ 32 # lit @ 32 # out) LRaw (32 # lit @ 32 # out)"
    using xs by (rule passes_swap)
  ultimately have "isolated (render ff ft args (lexes LRaw [] xs)) lit out"
    unfolding isolated_def whole by simp
  with parts lit cov' whole show ?thesis
    unfolding out_def by (intro that [OF parts]) (simp_all add: ps_def)
qed

lemma isolated_passes: "isolated out lit rest \<Longrightarrow> passes LRaw out LRaw rest"
  unfolding isolated_def by (blast intro: passes_trans)

lemma lexes_rendered:
  assumes "standard_formats ff ft" and "\<forall>a\<in>set args. valid_arg a"
  shows "valid_utf8 xs \<Longrightarrow> covered ff ft args (lexes LRaw [] xs) \<Longrightarrow>
    lexes LRaw acc (render ff ft args (lexes LRaw [] xs)) = text_part (acc @ render ff ft args (lexes LRaw [] xs))"
proof (induction "length xs" arbitrary: xs acc rule: less_induct)
  case less
  from lexes_fragment [of LRaw xs] show ?case
  proof (elim disjE exE)
    fix t d rest
    assume stop: "stops_at LRaw xs t d rest"
    from assms stop less.prems(2) obtain n lit ps where ps: "ps = lexes LRaw [] (dropWhile is_digit (d # rest))"
      "covered ff ft args ps"
      and whole: "render ff ft args (lexes LRaw [] xs) = (t @ 32 # lit @ [32]) @ render ff ft args ps"
      and iso: "isolated (render ff ft args (lexes LRaw [] xs)) lit (render ff ft args ps)"
      by (rule rendered_step)
    define out where "out = render ff ft args ps"
    have "passes LRaw ((t @ 32 # lit @ [32]) @ out) LRaw out"
      using isolated_passes [OF iso] unfolding whole out_def .
    then have "lexes LRaw acc ((t @ 32 # lit @ [32]) @ out) = lexes LRaw (acc @ t @ 32 # lit @ [32]) out"
      using passes_lexes [of LRaw "(t @ 32 # lit @ [32]) @ out" LRaw out] unfolding append_same_eq by blast
    also have "\<dots> = text_part ((acc @ t @ 32 # lit @ [32]) @ out)"
      unfolding out_def ps(1)
      by (rule less.hyps [OF stops_at_valid(2) [OF stop less.prems(1)] stops_at_valid(1) [OF stop less.prems(1)]])
         (use ps in simp)
    finally show ?thesis
      unfolding whole out_def by simp
  next
    fix t zs
    assume "reads_all LRaw xs t zs"
    with less.prems(1) have all: "lexes LRaw acc xs = text_part (acc @ xs)" for acc
      unfolding reads_all_def by auto
    have same: "render ff ft args (lexes LRaw [] xs) = xs"
      unfolding all text_part_def by simp
    show ?thesis
      unfolding same by (rule all)
  qed
qed


section \<open>Properties\<close>

lemma NewQuery_parts: "q_Parts (NewQuery sql) = lexes LRaw [] sql"
  by (simp add: NewQuery_def Query_init_parts)

lemma SanitizeSQL_Inr:
  "SanitizeSQL ff ft sql args = Inr out \<longleftrightarrow> covered ff ft args (lexes LRaw [] sql)
     \<and> {..<length args} \<subseteq> arg_indices (lexes LRaw [] sql) \<and> out = render ff ft args (lexes LRaw [] sql)"
  by (simp add: SanitizeSQL_def Sanitize_Inr_iff Query_init_parts)

text \<open>A small query, for the examples below.\<close>

definition demo_sql :: bytes where
  "demo_sql = str ''a=$1''"

definition demo_arg :: "(unit, unit) arg" where
  "demo_arg = String [98, 39, 45, 45]"

definition demo_float :: "unit \<Rightarrow> bytes" where
  "demo_float _ = str ''1.5''"

definition demo_time :: "unit \<Rightarrow> bytes" where
  "demo_time _ = [39, 50, 48, 39]"

lemma demo_formats: "standard_formats demo_float demo_time"
  by (simp add: standard_formats_def demo_float_def demo_time_def quoted_ascii_def plain_char_def is_digit_def)

lemma demo_valid: "valid_utf8 demo_sql" "\<forall>a\<in>set [demo_arg]. valid_arg a"
  by (simp_all add: demo_sql_def demo_arg_def)

lemmas lexes_eval = lexes.simps [of _ _ "[]"] lexes.simps [of _ _ "c # cs" for c cs]
  lex_step_def bad_rune_def RuneError_def is_digit_rune_def is_digit_def text_part_def
  placeholder_value_def placeholder_digit_def MaxInt32_def

lemma demo_parts: "q_Parts (NewQuery demo_sql) = [Text (str ''a=''), Placeholder 1]"
  by (simp add: NewQuery_parts demo_sql_def lexes_eval)

lemma demo_out: "SanitizeSQL demo_float demo_time demo_sql [demo_arg] =
    Inr (str ''a= '' @ [39, 98, 39, 39, 45, 45, 39, 32])"
  using demo_parts
  by (simp add: SanitizeSQL_Inr NewQuery_parts demo_arg_def QuoteString_def lessThan_Suc)



text \<open>
  C21: for SQL and string arguments that are valid UTF-8 and floats and times formatted as documented, the SQL
  that \<open>SanitizeSQL\<close> returns has no placeholder left: read again, it is one piece of text.
\<close>

theorem sanitize_output_closed:
  assumes "standard_formats ff ft" and "valid_utf8 sql" and "\<forall>a\<in>set args. valid_arg a"
    and "SanitizeSQL ff ft sql args = Inr out"
  shows "q_Parts (NewQuery out) = (if out = [] then [] else [Text out])"
  using lexes_rendered [OF assms(1,3,2), of "[]"] assms(4)
  unfolding SanitizeSQL_Inr NewQuery_parts text_part_def by simp

theorem sanitize_output_closed_witness:
  "q_Parts (NewQuery (str ''a= '' @ [39, 98, 39, 39, 45, 45, 39, 32])) = [Text (str ''a= '' @ [39, 98, 39, 39, 45, 45, 39, 32])]"
  using sanitize_output_closed [OF demo_formats demo_valid demo_out] by simp

text \<open>
  C22: the parts of a query that is valid UTF-8 are its SQL text, cut at the placeholders and nowhere else: put
  together again they are the text, and every number is that of the digits after its dollar sign. (A query that
  is not valid UTF-8 loses its text: see \<open>invalid_utf8_truncates\<close>.)
\<close>

theorem query_parts_lossless:
  assumes "valid_utf8 sql"
  shows "matches (q_Parts (NewQuery sql)) sql"
  unfolding NewQuery_parts using assms by (rule lexes_matches)

theorem query_parts_lossless_witness: "matches (q_Parts (NewQuery demo_sql)) demo_sql"
  using query_parts_lossless [OF demo_valid(1)] .

text \<open>
  C23: \<open>Sanitize\<close> succeeds exactly when every placeholder names an argument of a supported type and every
  argument is used, and then it returns the text with the literals in place of the placeholders.
\<close>

theorem sanitize_succeeds_iff:
  "Query_Sanitize ff ft q args = Inr out \<longleftrightarrow>
     covered ff ft args (q_Parts q) \<and> {..<length args} \<subseteq> arg_indices (q_Parts q)
     \<and> out = render ff ft args (q_Parts q)"
  by (rule Sanitize_Inr_iff)

text \<open>
  A byte that is not UTF-8 ends the lexing: the query is cut after it, and \<open>SanitizeSQL\<close> returns the piece
  without an error.
\<close>

lemma invalid_utf8_truncates: "SanitizeSQL ff ft (97 # 255 # xs) [] = Inr [97, 255]"
proof -
  have "DecodeRune (255 # xs) = (65533, 1)"
    by (simp add: DecodeRune.simps(2) rune_start_def RuneError_def)
  then have "lexes LRaw [] (97 # 255 # xs) = [Text [97, 255]]"
    by (simp add: lexes_eval split: prod.split)
  then show ?thesis by (simp add: SanitizeSQL_Inr)
qed

text \<open>Decimal numbers, without a bound.\<close>

definition decimal :: "bytes \<Rightarrow> int" where
  "decimal ds = fold (\<lambda>d n. n * 10 + int (unat d - 48)) ds 0"

lemma decimal_snoc: "decimal (ds @ [d]) = decimal ds * 10 + int (unat d - 48)"
  by (simp add: decimal_def)

lemma placeholder_value_snoc: "placeholder_value (ds @ [d]) = placeholder_digit (placeholder_value ds) (unat d)"
  by (simp add: placeholder_value_def)

text \<open>
  C24: the number of a placeholder never wraps around: it is the decimal number written after the dollar sign,
  or, from 2147483640 on, \<open>math.MaxInt32\<close>.
\<close>

theorem placeholder_value_clamped:
  assumes "\<forall>d\<in>set ds. is_digit d"
  shows "placeholder_value ds = (if decimal ds < 2147483640 then decimal ds else MaxInt32)
    \<and> 0 \<le> placeholder_value ds \<and> placeholder_value ds \<le> MaxInt32"
  using assms
proof (induction ds rule: rev_induct)
  case Nil
  show ?case by (simp add: placeholder_value_def decimal_def MaxInt32_def)
next
  case (snoc d ds)
  have "0 \<le> decimal ds"
    by (induction ds rule: rev_induct) (auto simp: decimal_snoc, simp add: decimal_def)
  moreover have "unat d - 48 \<le> 9"
    using snoc.prems by (auto simp: is_digit_iff)
  ultimately show ?case
    using snoc by (auto simp: placeholder_value_snoc decimal_snoc placeholder_digit_def MaxInt32_def)
qed

theorem placeholder_value_clamped_witness:
  "placeholder_value (str ''4294967297'') = MaxInt32 \<and> placeholder_value (str ''12'') = 12"
proof -
  have "\<forall>d\<in>set (str ''4294967297''). is_digit d" "\<forall>d\<in>set (str ''12''). is_digit d"
    by (simp_all add: is_digit_def)
  moreover have "decimal (str ''4294967297'') = 4294967297" "decimal (str ''12'') = 12"
    by (simp_all add: decimal_def)
  ultimately show ?thesis
    using placeholder_value_clamped [of "str ''4294967297''"] placeholder_value_clamped [of "str ''12''"] by simp
qed

section \<open>What the literals denote\<close>

text \<open>
  The server's reading of a standard-conforming string constant, from after its opening quote: the contents,
  with doubled quotes made single, and what follows the closing quote.
\<close>

fun string_body :: "bytes \<Rightarrow> (bytes \<times> bytes) option" where
  "string_body [] = None"
| "string_body [c] = (if c = 39 then Some ([], []) else None)"
| "string_body (c # d # cs) =
     (if c \<noteq> 39 then map_option (\<lambda>(s, r). (c # s, r)) (string_body (d # cs))
      else if d = 39 then map_option (\<lambda>(s, r). (39 # s, r)) (string_body cs)
      else Some ([], d # cs))"

definition string_constant :: "bytes \<Rightarrow> (bytes \<times> bytes) option" where
  "string_constant xs = (if xs \<noteq> [] \<and> hd xs = 39 then string_body (tl xs) else None)"

definition hex_value :: "byte \<Rightarrow> nat option" where
  "hex_value c = (if is_digit c then Some (unat c - 48) else if 97 \<le> c \<and> c \<le> 102 then Some (unat c - 87) else None)"

text \<open>The hex format of \<open>bytea\<close>.\<close>

fun hex_pairs :: "bytes \<Rightarrow> bytes option" where
  "hex_pairs [] = Some []"
| "hex_pairs [c] = None"
| "hex_pairs (c # d # cs) = (case (hex_value c, hex_value d, hex_pairs cs) of
       (Some h, Some l, Some bs) \<Rightarrow> Some (of_nat (16 * h + l) # bs)
     | _ \<Rightarrow> None)"

definition bytea_input :: "bytes \<Rightarrow> bytes option" where
  "bytea_input s = (if take 2 s = [92, 120] then hex_pairs (drop 2 s) else None)"

lemma string_body_other: "c \<noteq> 39 \<Longrightarrow> string_body (c # xs) = map_option (\<lambda>(s, r). (c # s, r)) (string_body xs)"
  by (cases xs) auto

lemma string_body_quoted: "hd (r @ [0]) \<noteq> 39 \<Longrightarrow> string_body (quote_body s @ 39 # r) = Some (s, r)"
proof (induction s)
  case Nil
  then show ?case by (cases r) auto
qed (auto simp: string_body_other)

lemma hex_value_digit: "n < 16 \<Longrightarrow> hex_value (hex_digit n) = Some n"
proof -
  assume n: "n < 16"
  have "unat (hex_digit n) = (if n < 10 then 48 + n else 87 + n)"
    using n by (simp add: hex_digit_def unat_word_ariths unat_of_nat)
  with n show ?thesis
    by (auto simp: hex_value_def is_digit_iff word_le_nat_alt)
qed

lemma hex_pairs_Encode: "hex_pairs (hex_Encode bs) = Some bs"
proof (induction bs)
  case (Cons b bs)
  have "hex_Encode (b # bs) = hex_digit (unat b div 16) # hex_digit (unat b mod 16) # hex_Encode bs"
    by (simp add: hex_Encode_def)
  moreover have "16 * (unat b div 16) + unat b mod 16 = unat b" by simp
  ultimately show ?case
    using Cons.IH nibbles [of b] by (simp add: hex_value_digit del: mult_div_mod_eq)
qed (simp add: hex_Encode_def)

text \<open>
  C25: literals denote their arguments. A string is read back as its bytes and a byte slice as a \<open>bytea\<close> with
  the same bytes, each from a string constant that ends before the space that follows it; the literal of a
  64-bit integer is read back as that integer.
\<close>

theorem literals_roundtrip:
  "string_constant (the (literal ff ft (String s)) @ 32 # rest) = Some (s, 32 # rest)
   \<and> (\<exists>c. string_constant (the (literal ff ft (Bytes bs)) @ 32 # rest) = Some (c, 32 # rest) \<and> bytea_input c = Some bs)
   \<and> ParseInt (the (literal ff ft (Int64 i))) 64 = (sint i, None)"
proof (intro conjI)
  show "string_constant (the (literal ff ft (String s)) @ 32 # rest) = Some (s, 32 # rest)"
    using string_body_quoted [of "32 # rest" s] by (simp add: QuoteString_def string_constant_def)
  have "quote_body (92 # 120 # hex_Encode bs) = 92 # 120 # hex_Encode bs"
    using hex_Encode_ascii [of 39 bs] by (intro quote_body_id) auto
  then have "string_constant (the (literal ff ft (Bytes bs)) @ 32 # rest) = Some (92 # 120 # hex_Encode bs, 32 # rest)"
    using string_body_quoted [of "32 # rest" "92 # 120 # hex_Encode bs"]
    by (auto simp: QuoteBytes_def string_constant_def hex_Encode_def)
  moreover have "bytea_input (92 # 120 # hex_Encode bs) = Some bs"
    by (simp add: bytea_input_def hex_pairs_Encode)
  ultimately show "\<exists>c. string_constant (the (literal ff ft (Bytes bs)) @ 32 # rest) = Some (c, 32 # rest)
      \<and> bytea_input c = Some bs" by blast
  have "- (2 ^ 63) \<le> sint i" "sint i < 2 ^ 63"
    using sint_range_size [of i] by (simp_all add: word_size)
  then show "ParseInt (the (literal ff ft (Int64 i))) 64 = (sint i, None)"
    using ParseInt_Itoa [of 64 "sint i"] by simp
qed

end
