(* ===== verification/Pg_Int.thy ===== *)
theory Pg_Int
  imports Pgio Go_Strconv
begin

text \<open>
  The codecs of the integer types (\<open>pgtype/int.go\<close>): \<open>Int2\<close>, \<open>Int4\<close> and \<open>Int8\<close> with their conversions, the
  encode plans, and one scan plan per width, format and Go type of the target. \<open>int\<close> and \<open>uint\<close> have 64 bits.
  The interfaces \<open>Int64Scanner\<close>, \<open>TextScanner\<close> and \<open>Int64Valuer\<close> are represented by the values that implement
  them and the functions they are called through.
\<close>

section \<open>Values and targets\<close>

record Int2 =
  Int2_Int16 :: u16
  Int2_Valid :: bool

record Int4 =
  Int4_Int32 :: u32
  Int4_Valid :: bool

record Int8 =
  Int8_Int64 :: u64
  Int8_Valid :: bool

record Text =
  Text_String :: bytes
  Text_Valid :: bool

text \<open>What a scan writes to, by the dynamic type of the target.\<close>

datatype ('s, 't) int_target =
    P_int8 byte | P_uint8 byte | P_int16 u16 | P_uint16 u16 | P_int32 u32 | P_uint32 u32
  | P_int64 u64 | P_uint64 u64 | P_int u64 | P_uint u64
  | P_Int64Scanner 's | P_TextScanner 't | P_other

text \<open>The values of \<open>database/sql\<close>.\<close>

datatype sql_value = SQL_nil | SQL_int64 u64 | SQL_bool bool | SQL_string bytes | SQL_bytes bytes | SQL_other

text \<open>What is encoded, by its dynamic type.\<close>

datatype 'v int_value = V_int16 u16 | V_int32 u32 | V_int64 u64 | V_Int64Valuer 'v | V_other

definition TextFormatCode :: int where
  "TextFormatCode = 0"

definition BinaryFormatCode :: int where
  "BinaryFormatCode = 1"

type_synonym ('s, 't) int_scan_plan = "bytes option \<Rightarrow> ('s, 't) int_target \<Rightarrow> ('s, 't) int_target result"
type_synonym 'v int_encode_plan = "'v int_value \<Rightarrow> bytes \<Rightarrow> bytes option result"

definition ErrScanTargetTypeChanged :: goerr where
  "ErrScanTargetTypeChanged = ErrorsNew ''scan target type changed''"

definition cannot_scan_NULL :: goerr where
  "cannot_scan_NULL = ErrorsNew ''cannot scan NULL into %T''"

text \<open>The error of \<open>strconv\<close>.\<close>

definition parsed :: "'a \<times> num_err option \<Rightarrow> 'a result" where
  "parsed r = (case snd r of None \<Rightarrow> Inr (fst r)
     | Some ErrSyntax \<Rightarrow> Inl (ErrorsNew ''invalid syntax'')
     | Some ErrRange \<Rightarrow> Inl (ErrorsNew ''value out of range''))"

text \<open>The checks that the plans repeat: the length of the source, and the range of a value.\<close>

definition binary_src :: "nat \<Rightarrow> string \<Rightarrow> bytes option \<Rightarrow> (bytes \<Rightarrow> 'a result) \<Rightarrow> 'a result" where
  "binary_src len msg src k = (case src of
       None \<Rightarrow> Inl cannot_scan_NULL
     | Some s \<Rightarrow> if length s \<noteq> len then Inl (Errorf msg (int (length s))) else k s)"

definition text_src :: "bytes option \<Rightarrow> (bytes \<Rightarrow> 'a result) \<Rightarrow> 'a result" where
  "text_src src k = (case src of None \<Rightarrow> Inl cannot_scan_NULL | Some s \<Rightarrow> k s)"

definition at_least :: "int \<Rightarrow> string \<Rightarrow> int \<Rightarrow> 'a result \<Rightarrow> 'a result" where
  "at_least lo msg n k = (if n < lo then Inl (Errorf msg n) else k)"

definition at_most :: "int \<Rightarrow> string \<Rightarrow> int \<Rightarrow> 'a result \<Rightarrow> 'a result" where
  "at_most hi msg n k = (if n > hi then Inl (Errorf msg n) else k)"

section \<open>Int2\<close>

definition Int2_ScanInt64 :: "Int8 \<Rightarrow> Int2 \<Rightarrow> Int2 result" where
  "Int2_ScanInt64 n dst =
     (if \<not> Int8_Valid n then Inr \<lparr>Int2_Int16 = 0, Int2_Valid = False\<rparr>
      else at_least (-32768) ''%d is less than minimum value for Int2'' (sint (Int8_Int64 n))
        (at_most 32767 ''%d is greater than maximum value for Int2'' (sint (Int8_Int64 n))
          (Inr \<lparr>Int2_Int16 = ucast (Int8_Int64 n), Int2_Valid = True\<rparr>)))"

definition Int2_Int64Value :: "Int2 \<Rightarrow> Int8 result" where
  "Int2_Int64Value n = Inr \<lparr>Int8_Int64 = scast (Int2_Int16 n), Int8_Valid = Int2_Valid n\<rparr>"

definition Int2_Scan :: "sql_value \<Rightarrow> Int2 \<Rightarrow> Int2 result" where
  "Int2_Scan src dst =
     (if src = SQL_nil then Inr \<lparr>Int2_Int16 = 0, Int2_Valid = False\<rparr>
      else
        bindE (case src of
            SQL_int64 n \<Rightarrow> Inr (sint n)
          | SQL_string s \<Rightarrow> parsed (ParseInt s 16)
          | SQL_bytes s \<Rightarrow> parsed (ParseInt s 16)
          | _ \<Rightarrow> Inl (ErrorsNew ''cannot scan %T'')) (\<lambda>n.
        at_least (-32768) ''%d is less than minimum value for Int2'' n
          (at_most 32767 ''%d is greater than maximum value for Int2'' n
            (Inr \<lparr>Int2_Int16 = of_int n, Int2_Valid = True\<rparr>))))"

definition Int2_Value :: "Int2 \<Rightarrow> sql_value result" where
  "Int2_Value src = (if \<not> Int2_Valid src then Inr SQL_nil else Inr (SQL_int64 (scast (Int2_Int16 src))))"

definition Int2_MarshalJSON :: "Int2 \<Rightarrow> bytes result" where
  "Int2_MarshalJSON src = (if \<not> Int2_Valid src then Inr (str ''null'') else Inr (Itoa (sint (Int2_Int16 src))))"

definition Int2Codec_FormatSupported :: "int \<Rightarrow> bool" where
  "Int2Codec_FormatSupported format \<longleftrightarrow> format = TextFormatCode \<or> format = BinaryFormatCode"

definition Int2Codec_PreferredFormat :: int where
  "Int2Codec_PreferredFormat = BinaryFormatCode"

definition encodePlanInt2CodecBinaryInt16 :: "'v int_encode_plan" where
  "encodePlanInt2CodecBinaryInt16 value buf = (case value of V_int16 n \<Rightarrow> Inr (Some (AppendInt16 buf n)) | _ \<Rightarrow> Inl GoPanic)"

definition encodePlanInt2CodecTextInt16 :: "'v int_encode_plan" where
  "encodePlanInt2CodecTextInt16 value buf = (case value of V_int16 n \<Rightarrow> Inr (Some (buf @ Itoa (sint n))) | _ \<Rightarrow> Inl GoPanic)"

definition encodePlanInt2CodecBinaryInt64Valuer :: "('v \<Rightarrow> Int8 result) \<Rightarrow> 'v int_encode_plan" where
  "encodePlanInt2CodecBinaryInt64Valuer valuer value buf = (case value of
       V_Int64Valuer v \<Rightarrow> bindE (valuer v) (\<lambda>n.
         if \<not> Int8_Valid n then Inr None
         else at_most 32767 ''%d is greater than maximum value for int2'' (sint (Int8_Int64 n))
           (at_least (-32768) ''%d is less than minimum value for int2'' (sint (Int8_Int64 n))
             (Inr (Some (AppendInt16 buf (ucast (Int8_Int64 n)))))))
     | _ \<Rightarrow> Inl GoPanic)"

definition encodePlanInt2CodecTextInt64Valuer :: "('v \<Rightarrow> Int8 result) \<Rightarrow> 'v int_encode_plan" where
  "encodePlanInt2CodecTextInt64Valuer valuer value buf = (case value of
       V_Int64Valuer v \<Rightarrow> bindE (valuer v) (\<lambda>n.
         if \<not> Int8_Valid n then Inr None
         else at_most 32767 ''%d is greater than maximum value for int2'' (sint (Int8_Int64 n))
           (at_least (-32768) ''%d is less than minimum value for int2'' (sint (Int8_Int64 n))
             (Inr (Some (buf @ Itoa (sint (Int8_Int64 n)))))))
     | _ \<Rightarrow> Inl GoPanic)"

definition Int2Codec_PlanEncode :: "('v \<Rightarrow> Int8 result) \<Rightarrow> int \<Rightarrow> 'v int_value \<Rightarrow> 'v int_encode_plan option" where
  "Int2Codec_PlanEncode valuer format value =
     (if format = BinaryFormatCode then
        (case value of
           V_int16 _ \<Rightarrow> Some encodePlanInt2CodecBinaryInt16
         | V_Int64Valuer _ \<Rightarrow> Some (encodePlanInt2CodecBinaryInt64Valuer valuer)
         | _ \<Rightarrow> None)
      else if format = TextFormatCode then
        (case value of
           V_int16 _ \<Rightarrow> Some encodePlanInt2CodecTextInt16
         | V_Int64Valuer _ \<Rightarrow> Some (encodePlanInt2CodecTextInt64Valuer valuer)
         | _ \<Rightarrow> None)
      else None)"

definition scanPlanBinaryInt2ToInt8 :: "('s, 't) int_scan_plan" where
  "scanPlanBinaryInt2ToInt8 src dst = binary_src 2 ''invalid length for int2: %v'' src (\<lambda>s. case dst of
       P_int8 _ \<Rightarrow> bindE (Uint16 s) (\<lambda>w. at_least (-128) ''%d is less than minimum value for int8'' (sint w)
                (at_most 127 ''%d is greater than maximum value for int8'' (sint w) (Inr (P_int8 (ucast w)))))
     | _ \<Rightarrow> Inl ErrScanTargetTypeChanged)"

definition scanPlanBinaryInt2ToUint8 :: "('s, 't) int_scan_plan" where
  "scanPlanBinaryInt2ToUint8 src dst = binary_src 2 ''invalid length for uint2: %v'' src (\<lambda>s. case dst of
       P_uint8 _ \<Rightarrow> bindE (Uint16 s) (\<lambda>w. at_least 0 ''%d is less than minimum value for uint8'' (sint w)
                (at_most 255 ''%d is greater than maximum value for uint8'' (sint w) (Inr (P_uint8 (ucast w)))))
     | _ \<Rightarrow> Inl ErrScanTargetTypeChanged)"

definition scanPlanBinaryInt2ToInt16 :: "('s, 't) int_scan_plan" where
  "scanPlanBinaryInt2ToInt16 src dst = binary_src 2 ''invalid length for int2: %v'' src (\<lambda>s. case dst of
       P_int16 _ \<Rightarrow> bindE (Uint16 s) (\<lambda>w. Inr (P_int16 w))
     | _ \<Rightarrow> Inl ErrScanTargetTypeChanged)"

definition scanPlanBinaryInt2ToUint16 :: "('s, 't) int_scan_plan" where
  "scanPlanBinaryInt2ToUint16 src dst = binary_src 2 ''invalid length for uint2: %v'' src (\<lambda>s. case dst of
       P_uint16 _ \<Rightarrow> bindE (Uint16 s) (\<lambda>w. at_least 0 ''%d is less than minimum value for uint16'' (sint w)
                (Inr (P_uint16 w)))
     | _ \<Rightarrow> Inl ErrScanTargetTypeChanged)"

definition scanPlanBinaryInt2ToInt32 :: "('s, 't) int_scan_plan" where
  "scanPlanBinaryInt2ToInt32 src dst = binary_src 2 ''invalid length for int2: %v'' src (\<lambda>s. case dst of
       P_int32 _ \<Rightarrow> bindE (Uint16 s) (\<lambda>w. Inr (P_int32 (scast w)))
     | _ \<Rightarrow> Inl ErrScanTargetTypeChanged)"

definition scanPlanBinaryInt2ToUint32 :: "('s, 't) int_scan_plan" where
  "scanPlanBinaryInt2ToUint32 src dst = binary_src 2 ''invalid length for uint2: %v'' src (\<lambda>s. case dst of
       P_uint32 _ \<Rightarrow> bindE (Uint16 s) (\<lambda>w. at_least 0 ''%d is less than minimum value for uint32'' (sint w)
                (Inr (P_uint32 (scast w))))
     | _ \<Rightarrow> Inl ErrScanTargetTypeChanged)"

definition scanPlanBinaryInt2ToInt64 :: "('s, 't) int_scan_plan" where
  "scanPlanBinaryInt2ToInt64 src dst = binary_src 2 ''invalid length for int2: %v'' src (\<lambda>s. case dst of
       P_int64 _ \<Rightarrow> bindE (Uint16 s) (\<lambda>w. Inr (P_int64 (scast w)))
     | _ \<Rightarrow> Inl ErrScanTargetTypeChanged)"

definition scanPlanBinaryInt2ToUint64 :: "('s, 't) int_scan_plan" where
  "scanPlanBinaryInt2ToUint64 src dst = binary_src 2 ''invalid length for uint2: %v'' src (\<lambda>s. case dst of
       P_uint64 _ \<Rightarrow> bindE (Uint16 s) (\<lambda>w. at_least 0 ''%d is less than minimum value for uint64'' (sint w)
                (Inr (P_uint64 (scast w))))
     | _ \<Rightarrow> Inl ErrScanTargetTypeChanged)"

definition scanPlanBinaryInt2ToInt :: "('s, 't) int_scan_plan" where
  "scanPlanBinaryInt2ToInt src dst = binary_src 2 ''invalid length for int2: %v'' src (\<lambda>s. case dst of
       P_int _ \<Rightarrow> bindE (Uint16 s) (\<lambda>w. Inr (P_int (scast w)))
     | _ \<Rightarrow> Inl ErrScanTargetTypeChanged)"

definition scanPlanBinaryInt2ToUint :: "('s, 't) int_scan_plan" where
  "scanPlanBinaryInt2ToUint src dst = binary_src 2 ''invalid length for uint2: %v'' src (\<lambda>s. case dst of
       P_uint _ \<Rightarrow> bindE (Uint16 s) (\<lambda>w. at_least 0 ''%d is less than minimum value for uint'' (sint w)
                (Inr (P_uint (scast w))))
     | _ \<Rightarrow> Inl ErrScanTargetTypeChanged)"

definition scanPlanBinaryInt2ToInt64Scanner :: "(Int8 \<Rightarrow> 's \<Rightarrow> 's result) \<Rightarrow> ('s, 't) int_scan_plan" where
  "scanPlanBinaryInt2ToInt64Scanner scan src dst = (case dst of
       P_Int64Scanner p \<Rightarrow> map_sum id P_Int64Scanner (case src of
           None \<Rightarrow> scan \<lparr>Int8_Int64 = 0, Int8_Valid = False\<rparr> p
         | Some s \<Rightarrow>
             if length s \<noteq> 2 then Inl (Errorf ''invalid length for int2: %v'' (int (length s)))
             else bindE (Uint16 s) (\<lambda>w. scan \<lparr>Int8_Int64 = scast w, Int8_Valid = True\<rparr> p))
     | _ \<Rightarrow> Inl ErrScanTargetTypeChanged)"

definition scanPlanBinaryInt2ToTextScanner :: "(Text \<Rightarrow> 't \<Rightarrow> 't result) \<Rightarrow> ('s, 't) int_scan_plan" where
  "scanPlanBinaryInt2ToTextScanner scan src dst = (case dst of
       P_TextScanner p \<Rightarrow> map_sum id P_TextScanner (case src of
           None \<Rightarrow> scan \<lparr>Text_String = [], Text_Valid = False\<rparr> p
         | Some s \<Rightarrow>
             if length s \<noteq> 2 then Inl (Errorf ''invalid length for int2: %v'' (int (length s)))
             else bindE (Uint16 s) (\<lambda>w. scan \<lparr>Text_String = Itoa (sint w), Text_Valid = True\<rparr> p))
     | _ \<Rightarrow> Inl ErrScanTargetTypeChanged)"

section \<open>Int4\<close>

definition Int4_ScanInt64 :: "Int8 \<Rightarrow> Int4 \<Rightarrow> Int4 result" where
  "Int4_ScanInt64 n dst =
     (if \<not> Int8_Valid n then Inr \<lparr>Int4_Int32 = 0, Int4_Valid = False\<rparr>
      else at_least (-2147483648) ''%d is less than minimum value for Int4'' (sint (Int8_Int64 n))
        (at_most 2147483647 ''%d is greater than maximum value for Int4'' (sint (Int8_Int64 n))
          (Inr \<lparr>Int4_Int32 = ucast (Int8_Int64 n), Int4_Valid = True\<rparr>)))"

definition Int4_Int64Value :: "Int4 \<Rightarrow> Int8 result" where
  "Int4_Int64Value n = Inr \<lparr>Int8_Int64 = scast (Int4_Int32 n), Int8_Valid = Int4_Valid n\<rparr>"

definition Int4_Scan :: "sql_value \<Rightarrow> Int4 \<Rightarrow> Int4 result" where
  "Int4_Scan src dst =
     (if src = SQL_nil then Inr \<lparr>Int4_Int32 = 0, Int4_Valid = False\<rparr>
      else
        bindE (case src of
            SQL_int64 n \<Rightarrow> Inr (sint n)
          | SQL_string s \<Rightarrow> parsed (ParseInt s 32)
          | SQL_bytes s \<Rightarrow> parsed (ParseInt s 32)
          | _ \<Rightarrow> Inl (ErrorsNew ''cannot scan %T'')) (\<lambda>n.
        at_least (-2147483648) ''%d is less than minimum value for Int4'' n
          (at_most 2147483647 ''%d is greater than maximum value for Int4'' n
            (Inr \<lparr>Int4_Int32 = of_int n, Int4_Valid = True\<rparr>))))"

definition Int4_Value :: "Int4 \<Rightarrow> sql_value result" where
  "Int4_Value src = (if \<not> Int4_Valid src then Inr SQL_nil else Inr (SQL_int64 (scast (Int4_Int32 src))))"

definition Int4_MarshalJSON :: "Int4 \<Rightarrow> bytes result" where
  "Int4_MarshalJSON src = (if \<not> Int4_Valid src then Inr (str ''null'') else Inr (Itoa (sint (Int4_Int32 src))))"

definition Int4Codec_FormatSupported :: "int \<Rightarrow> bool" where
  "Int4Codec_FormatSupported format \<longleftrightarrow> format = TextFormatCode \<or> format = BinaryFormatCode"

definition Int4Codec_PreferredFormat :: int where
  "Int4Codec_PreferredFormat = BinaryFormatCode"

definition encodePlanInt4CodecBinaryInt32 :: "'v int_encode_plan" where
  "encodePlanInt4CodecBinaryInt32 value buf = (case value of V_int32 n \<Rightarrow> Inr (Some (AppendInt32 buf n)) | _ \<Rightarrow> Inl GoPanic)"

definition encodePlanInt4CodecTextInt32 :: "'v int_encode_plan" where
  "encodePlanInt4CodecTextInt32 value buf = (case value of V_int32 n \<Rightarrow> Inr (Some (buf @ Itoa (sint n))) | _ \<Rightarrow> Inl GoPanic)"

definition encodePlanInt4CodecBinaryInt64Valuer :: "('v \<Rightarrow> Int8 result) \<Rightarrow> 'v int_encode_plan" where
  "encodePlanInt4CodecBinaryInt64Valuer valuer value buf = (case value of
       V_Int64Valuer v \<Rightarrow> bindE (valuer v) (\<lambda>n.
         if \<not> Int8_Valid n then Inr None
         else at_most 2147483647 ''%d is greater than maximum value for int4'' (sint (Int8_Int64 n))
           (at_least (-2147483648) ''%d is less than minimum value for int4'' (sint (Int8_Int64 n))
             (Inr (Some (AppendInt32 buf (ucast (Int8_Int64 n)))))))
     | _ \<Rightarrow> Inl GoPanic)"

definition encodePlanInt4CodecTextInt64Valuer :: "('v \<Rightarrow> Int8 result) \<Rightarrow> 'v int_encode_plan" where
  "encodePlanInt4CodecTextInt64Valuer valuer value buf = (case value of
       V_Int64Valuer v \<Rightarrow> bindE (valuer v) (\<lambda>n.
         if \<not> Int8_Valid n then Inr None
         else at_most 2147483647 ''%d is greater than maximum value for int4'' (sint (Int8_Int64 n))
           (at_least (-2147483648) ''%d is less than minimum value for int4'' (sint (Int8_Int64 n))
             (Inr (Some (buf @ Itoa (sint (Int8_Int64 n)))))))
     | _ \<Rightarrow> Inl GoPanic)"

definition Int4Codec_PlanEncode :: "('v \<Rightarrow> Int8 result) \<Rightarrow> int \<Rightarrow> 'v int_value \<Rightarrow> 'v int_encode_plan option" where
  "Int4Codec_PlanEncode valuer format value =
     (if format = BinaryFormatCode then
        (case value of
           V_int32 _ \<Rightarrow> Some encodePlanInt4CodecBinaryInt32
         | V_Int64Valuer _ \<Rightarrow> Some (encodePlanInt4CodecBinaryInt64Valuer valuer)
         | _ \<Rightarrow> None)
      else if format = TextFormatCode then
        (case value of
           V_int32 _ \<Rightarrow> Some encodePlanInt4CodecTextInt32
         | V_Int64Valuer _ \<Rightarrow> Some (encodePlanInt4CodecTextInt64Valuer valuer)
         | _ \<Rightarrow> None)
      else None)"

definition scanPlanBinaryInt4ToInt8 :: "('s, 't) int_scan_plan" where
  "scanPlanBinaryInt4ToInt8 src dst = binary_src 4 ''invalid length for int4: %v'' src (\<lambda>s. case dst of
       P_int8 _ \<Rightarrow> bindE (Uint32 s) (\<lambda>w. at_least (-128) ''%d is less than minimum value for int8'' (sint w)
                (at_most 127 ''%d is greater than maximum value for int8'' (sint w) (Inr (P_int8 (ucast w)))))
     | _ \<Rightarrow> Inl ErrScanTargetTypeChanged)"

definition scanPlanBinaryInt4ToUint8 :: "('s, 't) int_scan_plan" where
  "scanPlanBinaryInt4ToUint8 src dst = binary_src 4 ''invalid length for uint4: %v'' src (\<lambda>s. case dst of
       P_uint8 _ \<Rightarrow> bindE (Uint32 s) (\<lambda>w. at_least 0 ''%d is less than minimum value for uint8'' (sint w)
                (at_most 255 ''%d is greater than maximum value for uint8'' (sint w) (Inr (P_uint8 (ucast w)))))
     | _ \<Rightarrow> Inl ErrScanTargetTypeChanged)"

definition scanPlanBinaryInt4ToInt16 :: "('s, 't) int_scan_plan" where
  "scanPlanBinaryInt4ToInt16 src dst = binary_src 4 ''invalid length for int4: %v'' src (\<lambda>s. case dst of
       P_int16 _ \<Rightarrow> bindE (Uint32 s) (\<lambda>w. at_least (-32768) ''%d is less than minimum value for int16'' (sint w)
                (at_most 32767 ''%d is greater than maximum value for int16'' (sint w) (Inr (P_int16 (ucast w)))))
     | _ \<Rightarrow> Inl ErrScanTargetTypeChanged)"

definition scanPlanBinaryInt4ToUint16 :: "('s, 't) int_scan_plan" where
  "scanPlanBinaryInt4ToUint16 src dst = binary_src 4 ''invalid length for uint4: %v'' src (\<lambda>s. case dst of
       P_uint16 _ \<Rightarrow> bindE (Uint32 s) (\<lambda>w. at_least 0 ''%d is less than minimum value for uint16'' (sint w)
                (at_most 65535 ''%d is greater than maximum value for uint16'' (sint w) (Inr (P_uint16 (ucast w)))))
     | _ \<Rightarrow> Inl ErrScanTargetTypeChanged)"

definition scanPlanBinaryInt4ToInt32 :: "('s, 't) int_scan_plan" where
  "scanPlanBinaryInt4ToInt32 src dst = binary_src 4 ''invalid length for int4: %v'' src (\<lambda>s. case dst of
       P_int32 _ \<Rightarrow> bindE (Uint32 s) (\<lambda>w. Inr (P_int32 w))
     | _ \<Rightarrow> Inl ErrScanTargetTypeChanged)"

definition scanPlanBinaryInt4ToUint32 :: "('s, 't) int_scan_plan" where
  "scanPlanBinaryInt4ToUint32 src dst = binary_src 4 ''invalid length for uint4: %v'' src (\<lambda>s. case dst of
       P_uint32 _ \<Rightarrow> bindE (Uint32 s) (\<lambda>w. at_least 0 ''%d is less than minimum value for uint32'' (sint w)
                (Inr (P_uint32 w)))
     | _ \<Rightarrow> Inl ErrScanTargetTypeChanged)"

definition scanPlanBinaryInt4ToInt64 :: "('s, 't) int_scan_plan" where
  "scanPlanBinaryInt4ToInt64 src dst = binary_src 4 ''invalid length for int4: %v'' src (\<lambda>s. case dst of
       P_int64 _ \<Rightarrow> bindE (Uint32 s) (\<lambda>w. Inr (P_int64 (scast w)))
     | _ \<Rightarrow> Inl ErrScanTargetTypeChanged)"

definition scanPlanBinaryInt4ToUint64 :: "('s, 't) int_scan_plan" where
  "scanPlanBinaryInt4ToUint64 src dst = binary_src 4 ''invalid length for uint4: %v'' src (\<lambda>s. case dst of
       P_uint64 _ \<Rightarrow> bindE (Uint32 s) (\<lambda>w. at_least 0 ''%d is less than minimum value for uint64'' (sint w)
                (Inr (P_uint64 (scast w))))
     | _ \<Rightarrow> Inl ErrScanTargetTypeChanged)"

definition scanPlanBinaryInt4ToInt :: "('s, 't) int_scan_plan" where
  "scanPlanBinaryInt4ToInt src dst = binary_src 4 ''invalid length for int4: %v'' src (\<lambda>s. case dst of
       P_int _ \<Rightarrow> bindE (Uint32 s) (\<lambda>w. Inr (P_int (scast w)))
     | _ \<Rightarrow> Inl ErrScanTargetTypeChanged)"

definition scanPlanBinaryInt4ToUint :: "('s, 't) int_scan_plan" where
  "scanPlanBinaryInt4ToUint src dst = binary_src 4 ''invalid length for uint4: %v'' src (\<lambda>s. case dst of
       P_uint _ \<Rightarrow> bindE (Uint32 s) (\<lambda>w. at_least 0 ''%d is less than minimum value for uint'' (sint w)
                (Inr (P_uint (scast w))))
     | _ \<Rightarrow> Inl ErrScanTargetTypeChanged)"

definition scanPlanBinaryInt4ToInt64Scanner :: "(Int8 \<Rightarrow> 's \<Rightarrow> 's result) \<Rightarrow> ('s, 't) int_scan_plan" where
  "scanPlanBinaryInt4ToInt64Scanner scan src dst = (case dst of
       P_Int64Scanner p \<Rightarrow> map_sum id P_Int64Scanner (case src of
           None \<Rightarrow> scan \<lparr>Int8_Int64 = 0, Int8_Valid = False\<rparr> p
         | Some s \<Rightarrow>
             if length s \<noteq> 4 then Inl (Errorf ''invalid length for int4: %v'' (int (length s)))
             else bindE (Uint32 s) (\<lambda>w. scan \<lparr>Int8_Int64 = scast w, Int8_Valid = True\<rparr> p))
     | _ \<Rightarrow> Inl ErrScanTargetTypeChanged)"

definition scanPlanBinaryInt4ToTextScanner :: "(Text \<Rightarrow> 't \<Rightarrow> 't result) \<Rightarrow> ('s, 't) int_scan_plan" where
  "scanPlanBinaryInt4ToTextScanner scan src dst = (case dst of
       P_TextScanner p \<Rightarrow> map_sum id P_TextScanner (case src of
           None \<Rightarrow> scan \<lparr>Text_String = [], Text_Valid = False\<rparr> p
         | Some s \<Rightarrow>
             if length s \<noteq> 4 then Inl (Errorf ''invalid length for int4: %v'' (int (length s)))
             else bindE (Uint32 s) (\<lambda>w. scan \<lparr>Text_String = Itoa (sint w), Text_Valid = True\<rparr> p))
     | _ \<Rightarrow> Inl ErrScanTargetTypeChanged)"

section \<open>Int8\<close>

definition Int8_ScanInt64 :: "Int8 \<Rightarrow> Int8 \<Rightarrow> Int8 result" where
  "Int8_ScanInt64 n dst =
     (if \<not> Int8_Valid n then Inr \<lparr>Int8_Int64 = 0, Int8_Valid = False\<rparr>
      else at_least (-9223372036854775808) ''%d is less than minimum value for Int8'' (sint (Int8_Int64 n))
        (at_most 9223372036854775807 ''%d is greater than maximum value for Int8'' (sint (Int8_Int64 n))
          (Inr \<lparr>Int8_Int64 = Int8_Int64 n, Int8_Valid = True\<rparr>)))"

definition Int8_Int64Value :: "Int8 \<Rightarrow> Int8 result" where
  "Int8_Int64Value n = Inr \<lparr>Int8_Int64 = Int8_Int64 n, Int8_Valid = Int8_Valid n\<rparr>"

definition Int8_Scan :: "sql_value \<Rightarrow> Int8 \<Rightarrow> Int8 result" where
  "Int8_Scan src dst =
     (if src = SQL_nil then Inr \<lparr>Int8_Int64 = 0, Int8_Valid = False\<rparr>
      else
        bindE (case src of
            SQL_int64 n \<Rightarrow> Inr (sint n)
          | SQL_string s \<Rightarrow> parsed (ParseInt s 64)
          | SQL_bytes s \<Rightarrow> parsed (ParseInt s 64)
          | _ \<Rightarrow> Inl (ErrorsNew ''cannot scan %T'')) (\<lambda>n.
        at_least (-9223372036854775808) ''%d is greater than maximum value for Int8'' n
          (at_most 9223372036854775807 ''%d is greater than maximum value for Int8'' n
            (Inr \<lparr>Int8_Int64 = of_int n, Int8_Valid = True\<rparr>))))"

definition Int8_Value :: "Int8 \<Rightarrow> sql_value result" where
  "Int8_Value src = (if \<not> Int8_Valid src then Inr SQL_nil else Inr (SQL_int64 (Int8_Int64 src)))"

definition Int8_MarshalJSON :: "Int8 \<Rightarrow> bytes result" where
  "Int8_MarshalJSON src = (if \<not> Int8_Valid src then Inr (str ''null'') else Inr (Itoa (sint (Int8_Int64 src))))"

definition Int8Codec_FormatSupported :: "int \<Rightarrow> bool" where
  "Int8Codec_FormatSupported format \<longleftrightarrow> format = TextFormatCode \<or> format = BinaryFormatCode"

definition Int8Codec_PreferredFormat :: int where
  "Int8Codec_PreferredFormat = BinaryFormatCode"

definition encodePlanInt8CodecBinaryInt64 :: "'v int_encode_plan" where
  "encodePlanInt8CodecBinaryInt64 value buf = (case value of V_int64 n \<Rightarrow> Inr (Some (AppendInt64 buf n)) | _ \<Rightarrow> Inl GoPanic)"

definition encodePlanInt8CodecTextInt64 :: "'v int_encode_plan" where
  "encodePlanInt8CodecTextInt64 value buf = (case value of V_int64 n \<Rightarrow> Inr (Some (buf @ Itoa (sint n))) | _ \<Rightarrow> Inl GoPanic)"

definition encodePlanInt8CodecBinaryInt64Valuer :: "('v \<Rightarrow> Int8 result) \<Rightarrow> 'v int_encode_plan" where
  "encodePlanInt8CodecBinaryInt64Valuer valuer value buf = (case value of
       V_Int64Valuer v \<Rightarrow> bindE (valuer v) (\<lambda>n.
         if \<not> Int8_Valid n then Inr None
         else at_most 9223372036854775807 ''%d is greater than maximum value for int8'' (sint (Int8_Int64 n))
           (at_least (-9223372036854775808) ''%d is less than minimum value for int8'' (sint (Int8_Int64 n))
             (Inr (Some (AppendInt64 buf (Int8_Int64 n))))))
     | _ \<Rightarrow> Inl GoPanic)"

definition encodePlanInt8CodecTextInt64Valuer :: "('v \<Rightarrow> Int8 result) \<Rightarrow> 'v int_encode_plan" where
  "encodePlanInt8CodecTextInt64Valuer valuer value buf = (case value of
       V_Int64Valuer v \<Rightarrow> bindE (valuer v) (\<lambda>n.
         if \<not> Int8_Valid n then Inr None
         else at_most 9223372036854775807 ''%d is greater than maximum value for int8'' (sint (Int8_Int64 n))
           (at_least (-9223372036854775808) ''%d is less than minimum value for int8'' (sint (Int8_Int64 n))
             (Inr (Some (buf @ Itoa (sint (Int8_Int64 n)))))))
     | _ \<Rightarrow> Inl GoPanic)"

definition Int8Codec_PlanEncode :: "('v \<Rightarrow> Int8 result) \<Rightarrow> int \<Rightarrow> 'v int_value \<Rightarrow> 'v int_encode_plan option" where
  "Int8Codec_PlanEncode valuer format value =
     (if format = BinaryFormatCode then
        (case value of
           V_int64 _ \<Rightarrow> Some encodePlanInt8CodecBinaryInt64
         | V_Int64Valuer _ \<Rightarrow> Some (encodePlanInt8CodecBinaryInt64Valuer valuer)
         | _ \<Rightarrow> None)
      else if format = TextFormatCode then
        (case value of
           V_int64 _ \<Rightarrow> Some encodePlanInt8CodecTextInt64
         | V_Int64Valuer _ \<Rightarrow> Some (encodePlanInt8CodecTextInt64Valuer valuer)
         | _ \<Rightarrow> None)
      else None)"

definition scanPlanBinaryInt8ToInt8 :: "('s, 't) int_scan_plan" where
  "scanPlanBinaryInt8ToInt8 src dst = binary_src 8 ''invalid length for int8: %v'' src (\<lambda>s. case dst of
       P_int8 _ \<Rightarrow> bindE (Uint64 s) (\<lambda>w. at_least (-128) ''%d is less than minimum value for int8'' (sint w)
                (at_most 127 ''%d is greater than maximum value for int8'' (sint w) (Inr (P_int8 (ucast w)))))
     | _ \<Rightarrow> Inl ErrScanTargetTypeChanged)"

definition scanPlanBinaryInt8ToUint8 :: "('s, 't) int_scan_plan" where
  "scanPlanBinaryInt8ToUint8 src dst = binary_src 8 ''invalid length for uint8: %v'' src (\<lambda>s. case dst of
       P_uint8 _ \<Rightarrow> bindE (Uint64 s) (\<lambda>w. at_least 0 ''%d is less than minimum value for uint8'' (sint w)
                (at_most 255 ''%d is greater than maximum value for uint8'' (sint w) (Inr (P_uint8 (ucast w)))))
     | _ \<Rightarrow> Inl ErrScanTargetTypeChanged)"

definition scanPlanBinaryInt8ToInt16 :: "('s, 't) int_scan_plan" where
  "scanPlanBinaryInt8ToInt16 src dst = binary_src 8 ''invalid length for int8: %v'' src (\<lambda>s. case dst of
       P_int16 _ \<Rightarrow> bindE (Uint64 s) (\<lambda>w. at_least (-32768) ''%d is less than minimum value for int16'' (sint w)
                (at_most 32767 ''%d is greater than maximum value for int16'' (sint w) (Inr (P_int16 (ucast w)))))
     | _ \<Rightarrow> Inl ErrScanTargetTypeChanged)"

definition scanPlanBinaryInt8ToUint16 :: "('s, 't) int_scan_plan" where
  "scanPlanBinaryInt8ToUint16 src dst = binary_src 8 ''invalid length for uint8: %v'' src (\<lambda>s. case dst of
       P_uint16 _ \<Rightarrow> bindE (Uint64 s) (\<lambda>w. at_least 0 ''%d is less than minimum value for uint16'' (sint w)
                (at_most 65535 ''%d is greater than maximum value for uint16'' (sint w) (Inr (P_uint16 (ucast w)))))
     | _ \<Rightarrow> Inl ErrScanTargetTypeChanged)"

definition scanPlanBinaryInt8ToInt32 :: "('s, 't) int_scan_plan" where
  "scanPlanBinaryInt8ToInt32 src dst = binary_src 8 ''invalid length for int8: %v'' src (\<lambda>s. case dst of
       P_int32 _ \<Rightarrow> bindE (Uint64 s) (\<lambda>w. at_least (-2147483648) ''%d is less than minimum value for int32'' (sint w)
                (at_most 2147483647 ''%d is greater than maximum value for int32'' (sint w) (Inr (P_int32 (ucast w)))))
     | _ \<Rightarrow> Inl ErrScanTargetTypeChanged)"

definition scanPlanBinaryInt8ToUint32 :: "('s, 't) int_scan_plan" where
  "scanPlanBinaryInt8ToUint32 src dst = binary_src 8 ''invalid length for uint8: %v'' src (\<lambda>s. case dst of
       P_uint32 _ \<Rightarrow> bindE (Uint64 s) (\<lambda>w. at_least 0 ''%d is less than minimum value for uint32'' (sint w)
                (at_most 4294967295 ''%d is greater than maximum value for uint32'' (sint w) (Inr (P_uint32 (ucast w)))))
     | _ \<Rightarrow> Inl ErrScanTargetTypeChanged)"

definition scanPlanBinaryInt8ToInt64 :: "('s, 't) int_scan_plan" where
  "scanPlanBinaryInt8ToInt64 src dst = binary_src 8 ''invalid length for int8: %v'' src (\<lambda>s. case dst of
       P_int64 _ \<Rightarrow> bindE (Uint64 s) (\<lambda>w. Inr (P_int64 w))
     | _ \<Rightarrow> Inl ErrScanTargetTypeChanged)"

definition scanPlanBinaryInt8ToUint64 :: "('s, 't) int_scan_plan" where
  "scanPlanBinaryInt8ToUint64 src dst = binary_src 8 ''invalid length for uint8: %v'' src (\<lambda>s. case dst of
       P_uint64 _ \<Rightarrow> bindE (Uint64 s) (\<lambda>w. at_least 0 ''%d is less than minimum value for uint64'' (sint w)
                (Inr (P_uint64 w)))
     | _ \<Rightarrow> Inl ErrScanTargetTypeChanged)"

definition scanPlanBinaryInt8ToInt :: "('s, 't) int_scan_plan" where
  "scanPlanBinaryInt8ToInt src dst = binary_src 8 ''invalid length for int8: %v'' src (\<lambda>s. case dst of
       P_int _ \<Rightarrow> bindE (Uint64 s) (\<lambda>w. at_least (-9223372036854775808) ''%d is less than minimum value for int'' (sint w)
                (at_most 9223372036854775807 ''%d is greater than maximum value for int'' (sint w) (Inr (P_int w))))
     | _ \<Rightarrow> Inl ErrScanTargetTypeChanged)"

definition scanPlanBinaryInt8ToUint :: "('s, 't) int_scan_plan" where
  "scanPlanBinaryInt8ToUint src dst = binary_src 8 ''invalid length for uint8: %v'' src (\<lambda>s. case dst of
       P_uint _ \<Rightarrow> bindE (Uint64 s) (\<lambda>w. at_least 0 ''%d is less than minimum value for uint'' (sint w)
                (at_most 18446744073709551615 ''%d is greater than maximum value for uint'' (sint w) (Inr (P_uint w))))
     | _ \<Rightarrow> Inl ErrScanTargetTypeChanged)"

definition scanPlanBinaryInt8ToInt64Scanner :: "(Int8 \<Rightarrow> 's \<Rightarrow> 's result) \<Rightarrow> ('s, 't) int_scan_plan" where
  "scanPlanBinaryInt8ToInt64Scanner scan src dst = (case dst of
       P_Int64Scanner p \<Rightarrow> map_sum id P_Int64Scanner (case src of
           None \<Rightarrow> scan \<lparr>Int8_Int64 = 0, Int8_Valid = False\<rparr> p
         | Some s \<Rightarrow>
             if length s \<noteq> 8 then Inl (Errorf ''invalid length for int8: %v'' (int (length s)))
             else bindE (Uint64 s) (\<lambda>w. scan \<lparr>Int8_Int64 = w, Int8_Valid = True\<rparr> p))
     | _ \<Rightarrow> Inl ErrScanTargetTypeChanged)"

definition scanPlanBinaryInt8ToTextScanner :: "(Text \<Rightarrow> 't \<Rightarrow> 't result) \<Rightarrow> ('s, 't) int_scan_plan" where
  "scanPlanBinaryInt8ToTextScanner scan src dst = (case dst of
       P_TextScanner p \<Rightarrow> map_sum id P_TextScanner (case src of
           None \<Rightarrow> scan \<lparr>Text_String = [], Text_Valid = False\<rparr> p
         | Some s \<Rightarrow>
             if length s \<noteq> 8 then Inl (Errorf ''invalid length for int8: %v'' (int (length s)))
             else bindE (Uint64 s) (\<lambda>w. scan \<lparr>Text_String = Itoa (sint w), Text_Valid = True\<rparr> p))
     | _ \<Rightarrow> Inl ErrScanTargetTypeChanged)"

section \<open>Scanning text\<close>

definition scanPlanTextAnyToInt8 :: "('s, 't) int_scan_plan" where
  "scanPlanTextAnyToInt8 src dst = text_src src (\<lambda>s. case dst of
       P_int8 _ \<Rightarrow> bindE (parsed (ParseInt s 8)) (\<lambda>n. Inr (P_int8 (of_int n)))
     | _ \<Rightarrow> Inl ErrScanTargetTypeChanged)"

definition scanPlanTextAnyToUint8 :: "('s, 't) int_scan_plan" where
  "scanPlanTextAnyToUint8 src dst = text_src src (\<lambda>s. case dst of
       P_uint8 _ \<Rightarrow> bindE (parsed (ParseUint s 8)) (\<lambda>n. Inr (P_uint8 (of_nat n)))
     | _ \<Rightarrow> Inl ErrScanTargetTypeChanged)"

definition scanPlanTextAnyToInt16 :: "('s, 't) int_scan_plan" where
  "scanPlanTextAnyToInt16 src dst = text_src src (\<lambda>s. case dst of
       P_int16 _ \<Rightarrow> bindE (parsed (ParseInt s 16)) (\<lambda>n. Inr (P_int16 (of_int n)))
     | _ \<Rightarrow> Inl ErrScanTargetTypeChanged)"

definition scanPlanTextAnyToUint16 :: "('s, 't) int_scan_plan" where
  "scanPlanTextAnyToUint16 src dst = text_src src (\<lambda>s. case dst of
       P_uint16 _ \<Rightarrow> bindE (parsed (ParseUint s 16)) (\<lambda>n. Inr (P_uint16 (of_nat n)))
     | _ \<Rightarrow> Inl ErrScanTargetTypeChanged)"

definition scanPlanTextAnyToInt32 :: "('s, 't) int_scan_plan" where
  "scanPlanTextAnyToInt32 src dst = text_src src (\<lambda>s. case dst of
       P_int32 _ \<Rightarrow> bindE (parsed (ParseInt s 32)) (\<lambda>n. Inr (P_int32 (of_int n)))
     | _ \<Rightarrow> Inl ErrScanTargetTypeChanged)"

definition scanPlanTextAnyToUint32 :: "('s, 't) int_scan_plan" where
  "scanPlanTextAnyToUint32 src dst = text_src src (\<lambda>s. case dst of
       P_uint32 _ \<Rightarrow> bindE (parsed (ParseUint s 32)) (\<lambda>n. Inr (P_uint32 (of_nat n)))
     | _ \<Rightarrow> Inl ErrScanTargetTypeChanged)"

definition scanPlanTextAnyToInt64 :: "('s, 't) int_scan_plan" where
  "scanPlanTextAnyToInt64 src dst = text_src src (\<lambda>s. case dst of
       P_int64 _ \<Rightarrow> bindE (parsed (ParseInt s 64)) (\<lambda>n. Inr (P_int64 (of_int n)))
     | _ \<Rightarrow> Inl ErrScanTargetTypeChanged)"

definition scanPlanTextAnyToUint64 :: "('s, 't) int_scan_plan" where
  "scanPlanTextAnyToUint64 src dst = text_src src (\<lambda>s. case dst of
       P_uint64 _ \<Rightarrow> bindE (parsed (ParseUint s 64)) (\<lambda>n. Inr (P_uint64 (of_nat n)))
     | _ \<Rightarrow> Inl ErrScanTargetTypeChanged)"

definition scanPlanTextAnyToInt :: "('s, 't) int_scan_plan" where
  "scanPlanTextAnyToInt src dst = text_src src (\<lambda>s. case dst of
       P_int _ \<Rightarrow> bindE (parsed (ParseInt s 64)) (\<lambda>n. Inr (P_int (of_int n)))
     | _ \<Rightarrow> Inl ErrScanTargetTypeChanged)"

definition scanPlanTextAnyToUint :: "('s, 't) int_scan_plan" where
  "scanPlanTextAnyToUint src dst = text_src src (\<lambda>s. case dst of
       P_uint _ \<Rightarrow> bindE (parsed (ParseUint s 64)) (\<lambda>n. Inr (P_uint (of_nat n)))
     | _ \<Rightarrow> Inl ErrScanTargetTypeChanged)"

definition scanPlanTextAnyToInt64Scanner :: "(Int8 \<Rightarrow> 's \<Rightarrow> 's result) \<Rightarrow> ('s, 't) int_scan_plan" where
  "scanPlanTextAnyToInt64Scanner scan src dst = (case dst of
       P_Int64Scanner p \<Rightarrow> map_sum id P_Int64Scanner (case src of
           None \<Rightarrow> scan \<lparr>Int8_Int64 = 0, Int8_Valid = False\<rparr> p
         | Some s \<Rightarrow> bindE (parsed (ParseInt s 64)) (\<lambda>n.
             scan \<lparr>Int8_Int64 = of_int n, Int8_Valid = True\<rparr> p))
     | _ \<Rightarrow> Inl ErrScanTargetTypeChanged)"

section \<open>Choosing the plan\<close>

definition text_int_plan :: "(Int8 \<Rightarrow> 's \<Rightarrow> 's result) \<Rightarrow> ('s, 't) int_target \<Rightarrow> ('s, 't) int_scan_plan option" where
  "text_int_plan scanInt64 target = (case target of
       P_int8 _ \<Rightarrow> Some scanPlanTextAnyToInt8
     | P_int16 _ \<Rightarrow> Some scanPlanTextAnyToInt16
     | P_int32 _ \<Rightarrow> Some scanPlanTextAnyToInt32
     | P_int64 _ \<Rightarrow> Some scanPlanTextAnyToInt64
     | P_int _ \<Rightarrow> Some scanPlanTextAnyToInt
     | P_uint8 _ \<Rightarrow> Some scanPlanTextAnyToUint8
     | P_uint16 _ \<Rightarrow> Some scanPlanTextAnyToUint16
     | P_uint32 _ \<Rightarrow> Some scanPlanTextAnyToUint32
     | P_uint64 _ \<Rightarrow> Some scanPlanTextAnyToUint64
     | P_uint _ \<Rightarrow> Some scanPlanTextAnyToUint
     | P_Int64Scanner _ \<Rightarrow> Some (scanPlanTextAnyToInt64Scanner scanInt64)
     | _ \<Rightarrow> None)"

definition Int2Codec_PlanScan :: "(Int8 \<Rightarrow> 's \<Rightarrow> 's result) \<Rightarrow> (Text \<Rightarrow> 't \<Rightarrow> 't result) \<Rightarrow> int
    \<Rightarrow> ('s, 't) int_target \<Rightarrow> ('s, 't) int_scan_plan option" where
  "Int2Codec_PlanScan scanInt64 scanText format target =
     (if format = BinaryFormatCode then
        (case target of
           P_int8 _ \<Rightarrow> Some scanPlanBinaryInt2ToInt8
         | P_int16 _ \<Rightarrow> Some scanPlanBinaryInt2ToInt16
         | P_int32 _ \<Rightarrow> Some scanPlanBinaryInt2ToInt32
         | P_int64 _ \<Rightarrow> Some scanPlanBinaryInt2ToInt64
         | P_int _ \<Rightarrow> Some scanPlanBinaryInt2ToInt
         | P_uint8 _ \<Rightarrow> Some scanPlanBinaryInt2ToUint8
         | P_uint16 _ \<Rightarrow> Some scanPlanBinaryInt2ToUint16
         | P_uint32 _ \<Rightarrow> Some scanPlanBinaryInt2ToUint32
         | P_uint64 _ \<Rightarrow> Some scanPlanBinaryInt2ToUint64
         | P_uint _ \<Rightarrow> Some scanPlanBinaryInt2ToUint
         | P_Int64Scanner _ \<Rightarrow> Some (scanPlanBinaryInt2ToInt64Scanner scanInt64)
         | P_TextScanner _ \<Rightarrow> Some (scanPlanBinaryInt2ToTextScanner scanText)
         | _ \<Rightarrow> None)
      else if format = TextFormatCode then text_int_plan scanInt64 target
      else None)"

definition Int4Codec_PlanScan :: "(Int8 \<Rightarrow> 's \<Rightarrow> 's result) \<Rightarrow> (Text \<Rightarrow> 't \<Rightarrow> 't result) \<Rightarrow> int
    \<Rightarrow> ('s, 't) int_target \<Rightarrow> ('s, 't) int_scan_plan option" where
  "Int4Codec_PlanScan scanInt64 scanText format target =
     (if format = BinaryFormatCode then
        (case target of
           P_int8 _ \<Rightarrow> Some scanPlanBinaryInt4ToInt8
         | P_int16 _ \<Rightarrow> Some scanPlanBinaryInt4ToInt16
         | P_int32 _ \<Rightarrow> Some scanPlanBinaryInt4ToInt32
         | P_int64 _ \<Rightarrow> Some scanPlanBinaryInt4ToInt64
         | P_int _ \<Rightarrow> Some scanPlanBinaryInt4ToInt
         | P_uint8 _ \<Rightarrow> Some scanPlanBinaryInt4ToUint8
         | P_uint16 _ \<Rightarrow> Some scanPlanBinaryInt4ToUint16
         | P_uint32 _ \<Rightarrow> Some scanPlanBinaryInt4ToUint32
         | P_uint64 _ \<Rightarrow> Some scanPlanBinaryInt4ToUint64
         | P_uint _ \<Rightarrow> Some scanPlanBinaryInt4ToUint
         | P_Int64Scanner _ \<Rightarrow> Some (scanPlanBinaryInt4ToInt64Scanner scanInt64)
         | P_TextScanner _ \<Rightarrow> Some (scanPlanBinaryInt4ToTextScanner scanText)
         | _ \<Rightarrow> None)
      else if format = TextFormatCode then text_int_plan scanInt64 target
      else None)"

definition Int8Codec_PlanScan :: "(Int8 \<Rightarrow> 's \<Rightarrow> 's result) \<Rightarrow> (Text \<Rightarrow> 't \<Rightarrow> 't result) \<Rightarrow> int
    \<Rightarrow> ('s, 't) int_target \<Rightarrow> ('s, 't) int_scan_plan option" where
  "Int8Codec_PlanScan scanInt64 scanText format target =
     (if format = BinaryFormatCode then
        (case target of
           P_int8 _ \<Rightarrow> Some scanPlanBinaryInt8ToInt8
         | P_int16 _ \<Rightarrow> Some scanPlanBinaryInt8ToInt16
         | P_int32 _ \<Rightarrow> Some scanPlanBinaryInt8ToInt32
         | P_int64 _ \<Rightarrow> Some scanPlanBinaryInt8ToInt64
         | P_int _ \<Rightarrow> Some scanPlanBinaryInt8ToInt
         | P_uint8 _ \<Rightarrow> Some scanPlanBinaryInt8ToUint8
         | P_uint16 _ \<Rightarrow> Some scanPlanBinaryInt8ToUint16
         | P_uint32 _ \<Rightarrow> Some scanPlanBinaryInt8ToUint32
         | P_uint64 _ \<Rightarrow> Some scanPlanBinaryInt8ToUint64
         | P_uint _ \<Rightarrow> Some scanPlanBinaryInt8ToUint
         | P_Int64Scanner _ \<Rightarrow> Some (scanPlanBinaryInt8ToInt64Scanner scanInt64)
         | P_TextScanner _ \<Rightarrow> Some (scanPlanBinaryInt8ToTextScanner scanText)
         | _ \<Rightarrow> None)
      else if format = TextFormatCode then text_int_plan scanInt64 target
      else None)"

definition codecScan :: "('s, 't) int_scan_plan option \<Rightarrow> ('s, 't) int_scan_plan" where
  "codecScan plan src dst = (case plan of
       None \<Rightarrow> Inl (ErrorsNew ''PlanScan did not find a plan'')
     | Some p \<Rightarrow> p src dst)"

definition Int2Codec_DecodeDatabaseSQLValue :: "int \<Rightarrow> bytes option \<Rightarrow> sql_value result" where
  "Int2Codec_DecodeDatabaseSQLValue format src = (case src of
       None \<Rightarrow> Inr SQL_nil
     | Some _ \<Rightarrow>
         bindE (codecScan (Int2Codec_PlanScan (\<lambda>_ s :: unit. Inr s) (\<lambda>_ t :: unit. Inr t) format (P_int64 0)) src (P_int64 0)) (\<lambda>dst.
           case dst of P_int64 n \<Rightarrow> Inr (SQL_int64 n) | _ \<Rightarrow> Inl GoPanic))"

definition Int2Codec_DecodeValue :: "int \<Rightarrow> bytes option \<Rightarrow> u16 option result" where
  "Int2Codec_DecodeValue format src = (case src of
       None \<Rightarrow> Inr None
     | Some _ \<Rightarrow>
         bindE (codecScan (Int2Codec_PlanScan (\<lambda>_ s :: unit. Inr s) (\<lambda>_ t :: unit. Inr t) format (P_int16 0)) src (P_int16 0)) (\<lambda>dst.
           case dst of P_int16 n \<Rightarrow> Inr (Some n) | _ \<Rightarrow> Inl GoPanic))"

definition Int4Codec_DecodeDatabaseSQLValue :: "int \<Rightarrow> bytes option \<Rightarrow> sql_value result" where
  "Int4Codec_DecodeDatabaseSQLValue format src = (case src of
       None \<Rightarrow> Inr SQL_nil
     | Some _ \<Rightarrow>
         bindE (codecScan (Int4Codec_PlanScan (\<lambda>_ s :: unit. Inr s) (\<lambda>_ t :: unit. Inr t) format (P_int64 0)) src (P_int64 0)) (\<lambda>dst.
           case dst of P_int64 n \<Rightarrow> Inr (SQL_int64 n) | _ \<Rightarrow> Inl GoPanic))"

definition Int4Codec_DecodeValue :: "int \<Rightarrow> bytes option \<Rightarrow> u32 option result" where
  "Int4Codec_DecodeValue format src = (case src of
       None \<Rightarrow> Inr None
     | Some _ \<Rightarrow>
         bindE (codecScan (Int4Codec_PlanScan (\<lambda>_ s :: unit. Inr s) (\<lambda>_ t :: unit. Inr t) format (P_int32 0)) src (P_int32 0)) (\<lambda>dst.
           case dst of P_int32 n \<Rightarrow> Inr (Some n) | _ \<Rightarrow> Inl GoPanic))"

definition Int8Codec_DecodeDatabaseSQLValue :: "int \<Rightarrow> bytes option \<Rightarrow> sql_value result" where
  "Int8Codec_DecodeDatabaseSQLValue format src = (case src of
       None \<Rightarrow> Inr SQL_nil
     | Some _ \<Rightarrow>
         bindE (codecScan (Int8Codec_PlanScan (\<lambda>_ s :: unit. Inr s) (\<lambda>_ t :: unit. Inr t) format (P_int64 0)) src (P_int64 0)) (\<lambda>dst.
           case dst of P_int64 n \<Rightarrow> Inr (SQL_int64 n) | _ \<Rightarrow> Inl GoPanic))"

definition Int8Codec_DecodeValue :: "int \<Rightarrow> bytes option \<Rightarrow> u64 option result" where
  "Int8Codec_DecodeValue format src = (case src of
       None \<Rightarrow> Inr None
     | Some _ \<Rightarrow>
         bindE (codecScan (Int8Codec_PlanScan (\<lambda>_ s :: unit. Inr s) (\<lambda>_ t :: unit. Inr t) format (P_int64 0)) src (P_int64 0)) (\<lambda>dst.
           case dst of P_int64 n \<Rightarrow> Inr (Some n) | _ \<Rightarrow> Inl GoPanic))"

text \<open>The definitions, by the proofs that use them.\<close>

lemmas binary_plan_defs =
  scanPlanBinaryInt2ToInt8_def scanPlanBinaryInt2ToUint8_def scanPlanBinaryInt2ToInt16_def 
  scanPlanBinaryInt2ToUint16_def scanPlanBinaryInt2ToInt32_def scanPlanBinaryInt2ToUint32_def 
  scanPlanBinaryInt2ToInt64_def scanPlanBinaryInt2ToUint64_def scanPlanBinaryInt2ToInt_def 
  scanPlanBinaryInt2ToUint_def scanPlanBinaryInt2ToInt64Scanner_def 
  scanPlanBinaryInt2ToTextScanner_def scanPlanBinaryInt4ToInt8_def scanPlanBinaryInt4ToUint8_def 
  scanPlanBinaryInt4ToInt16_def scanPlanBinaryInt4ToUint16_def scanPlanBinaryInt4ToInt32_def 
  scanPlanBinaryInt4ToUint32_def scanPlanBinaryInt4ToInt64_def scanPlanBinaryInt4ToUint64_def 
  scanPlanBinaryInt4ToInt_def scanPlanBinaryInt4ToUint_def scanPlanBinaryInt4ToInt64Scanner_def 
  scanPlanBinaryInt4ToTextScanner_def scanPlanBinaryInt8ToInt8_def scanPlanBinaryInt8ToUint8_def 
  scanPlanBinaryInt8ToInt16_def scanPlanBinaryInt8ToUint16_def scanPlanBinaryInt8ToInt32_def 
  scanPlanBinaryInt8ToUint32_def scanPlanBinaryInt8ToInt64_def scanPlanBinaryInt8ToUint64_def 
  scanPlanBinaryInt8ToInt_def scanPlanBinaryInt8ToUint_def scanPlanBinaryInt8ToInt64Scanner_def 
  scanPlanBinaryInt8ToTextScanner_def

lemmas text_plan_defs =
  scanPlanTextAnyToInt8_def scanPlanTextAnyToUint8_def scanPlanTextAnyToInt16_def 
  scanPlanTextAnyToUint16_def scanPlanTextAnyToInt32_def scanPlanTextAnyToUint32_def 
  scanPlanTextAnyToInt64_def scanPlanTextAnyToUint64_def scanPlanTextAnyToInt_def 
  scanPlanTextAnyToUint_def scanPlanTextAnyToInt64Scanner_def text_int_plan_def

lemmas encode_plan_defs =
  encodePlanInt2CodecBinaryInt16_def encodePlanInt2CodecTextInt16_def 
  encodePlanInt2CodecBinaryInt64Valuer_def encodePlanInt2CodecTextInt64Valuer_def 
  encodePlanInt4CodecBinaryInt32_def encodePlanInt4CodecTextInt32_def 
  encodePlanInt4CodecBinaryInt64Valuer_def encodePlanInt4CodecTextInt64Valuer_def 
  encodePlanInt8CodecBinaryInt64_def encodePlanInt8CodecTextInt64_def 
  encodePlanInt8CodecBinaryInt64Valuer_def encodePlanInt8CodecTextInt64Valuer_def

lemmas PlanScan_defs =
  Int2Codec_PlanScan_def Int4Codec_PlanScan_def Int8Codec_PlanScan_def

lemmas PlanEncode_defs =
  Int2Codec_PlanEncode_def Int4Codec_PlanEncode_def Int8Codec_PlanEncode_def

lemmas format_defs = BinaryFormatCode_def TextFormatCode_def

lemmas check_defs = binary_src_def text_src_def at_least_def at_most_def

end
