(* ===== verification/Pg_Int_Props.thy ===== *)
theory Pg_Int_Props
  imports Pg_Int
begin

text \<open>
  What the integer codecs guarantee: a scan stores exactly the number on the wire or fails, in both formats
  and for every integer type of the target; what is encoded is scanned back; and no bytes from the server make
  a scan panic.
\<close>

section \<open>Numbers too large for their type\<close>

lemma parse_digits_append_err:
  "parse_digits m a xs = (n, Some e) \<Longrightarrow> parse_digits m a (xs @ ys) = (n, Some e)"
  by (induction xs arbitrary: a) (auto simp: Let_def split: if_splits)

lemma parse_format_nat_over: "m < n \<Longrightarrow> parse_digits m 0 (format_nat n) = (m, Some ErrRange)"
proof (induction n rule: format_nat.induct)
  case (1 n)
  show ?case
  proof (cases "n < 10")
    case True
    with "1.prems" show ?thesis by (simp add: format_nat.simps)
  next
    case False
    have n: "n = n div 10 * 10 + n mod 10" by simp
    show ?thesis
    proof (cases "n div 10 \<le> m")
      case True
      with parse_digits_append [OF parse_format_nat [OF True], of "[digit (n mod 10)]"] False "1.prems" n
      show ?thesis by (simp add: format_nat.simps [of n])
    next
      case 2: False
      then have "parse_digits m 0 (format_nat (n div 10)) = (m, Some ErrRange)"
        using "1.IH" False by simp
      from parse_digits_append_err [OF this] False show ?thesis
        by (simp add: format_nat.simps [of n])
    qed
  qed
qed

lemma ParseUint_over:
  assumes "2 ^ bits \<le> n"
  shows "snd (ParseUint (format_nat n) bits) = Some ErrRange"
proof -
  have "(0::nat) < 2 ^ bits" by simp
  with assms have "2 ^ bits - 1 < n" by linarith
  from parse_format_nat_over [OF this] show ?thesis by (simp add: ParseUint_def)
qed

lemma ParseUint_neg: "snd (ParseUint (45 # s) bits) = Some ErrSyntax"
  by (simp add: ParseUint_def is_digit_def)

lemma ParseUint_Itoa:
  "snd (ParseUint (Itoa n) bits) = (if n < 0 then Some ErrSyntax else if n < 2 ^ bits then None else Some ErrRange)"
  "0 \<le> n \<Longrightarrow> n < 2 ^ bits \<Longrightarrow> fst (ParseUint (Itoa n) bits) = nat n"
proof -
  have "nat n < 2 ^ bits \<longleftrightarrow> n < 2 ^ bits" if "0 \<le> n"
    using that by (simp add: nat_less_iff)
  then show "snd (ParseUint (Itoa n) bits) = (if n < 0 then Some ErrSyntax else if n < 2 ^ bits then None else Some ErrRange)"
    "0 \<le> n \<Longrightarrow> n < 2 ^ bits \<Longrightarrow> fst (ParseUint (Itoa n) bits) = nat n"
    using ParseUint_over [of bits "nat n"] ParseUint_format_nat [of "nat n" bits]
    by (auto simp: Itoa_def ParseUint_neg not_less)
qed

lemma ParseInt_Itoa_over:
  assumes "1 < bits" and "\<not> (- (2 ^ (bits - 1)) \<le> n \<and> n < 2 ^ (bits - 1))"
  shows "snd (ParseInt (Itoa n) bits) = Some ErrRange"
proof -
  define c :: nat where "c = 2 ^ (bits - 1)"
  obtain k where "bits = Suc (Suc k)"
    using assms(1) by (cases bits; cases "bits - 1") auto
  then have c: "(2::nat) ^ bits = 2 * c" "(2::int) ^ (bits - 1) = int c" "2 \<le> c"
    by (simp_all add: c_def)
  obtain u e where ue: "ParseUint (format_nat (nat \<bar>n\<bar>)) bits = (u, e)"
    by (cases "ParseUint (format_nat (nat \<bar>n\<bar>)) bits")
  have e: "e \<noteq> Some ErrSyntax"
    using ParseUint_Itoa(1) [of "\<bar>n\<bar>" bits] ue by (simp add: Itoa_def split: if_splits)
  have u: "u = nat \<bar>n\<bar> \<or> u = 2 * c - 1"
  proof (cases "nat \<bar>n\<bar> < 2 * c")
    case True
    with ue ParseUint_format_nat [of "nat \<bar>n\<bar>" bits] c(1) show ?thesis by simp
  next
    case False
    then have "2 * c - 1 < nat \<bar>n\<bar>" using c(3) by linarith
    from parse_format_nat_over [OF this] ue c(1) show ?thesis by (simp add: ParseUint_def)
  qed
  show ?thesis
  proof (cases "n < 0")
    case True
    then have "c < nat \<bar>n\<bar>" using assms(2) c(2) by linarith
    then have "c < u" using u c(3) by auto
    with True ue e show ?thesis
      by (simp add: ParseInt_def Itoa_def Let_def c_def)
  next
    case False
    then have "c \<le> nat \<bar>n\<bar>" using assms(2) c(2) by linarith
    then have "c \<le> u" using u c(3) by auto
    with False ue e show ?thesis
      using hd_format_nat_not_sign [of "nat n"] by (simp add: ParseInt_def Itoa_def Let_def c_def)
  qed
qed

section \<open>The codecs, their wire formats and the range of a target\<close>

datatype int_codec = Int2_codec | Int4_codec | Int8_codec

fun codec_bits :: "int_codec \<Rightarrow> nat" where
  "codec_bits Int2_codec = 16"
| "codec_bits Int4_codec = 32"
| "codec_bits Int8_codec = 64"

definition in_codec :: "int_codec \<Rightarrow> int \<Rightarrow> bool" where
  "in_codec c n \<longleftrightarrow> - (2 ^ (codec_bits c - 1)) \<le> n \<and> n < 2 ^ (codec_bits c - 1)"

fun PlanScan :: "int_codec \<Rightarrow> (Int8 \<Rightarrow> 's \<Rightarrow> 's result) \<Rightarrow> (Text \<Rightarrow> 't \<Rightarrow> 't result) \<Rightarrow> int
    \<Rightarrow> ('s, 't) int_target \<Rightarrow> ('s, 't) int_scan_plan option" where
  "PlanScan Int2_codec = Int2Codec_PlanScan"
| "PlanScan Int4_codec = Int4Codec_PlanScan"
| "PlanScan Int8_codec = Int8Codec_PlanScan"

fun PlanEncode :: "int_codec \<Rightarrow> ('v \<Rightarrow> Int8 result) \<Rightarrow> int \<Rightarrow> 'v int_value \<Rightarrow> 'v int_encode_plan option" where
  "PlanEncode Int2_codec = Int2Codec_PlanEncode"
| "PlanEncode Int4_codec = Int4Codec_PlanEncode"
| "PlanEncode Int8_codec = Int8Codec_PlanEncode"

text \<open>How the server writes a number.\<close>

fun binary_wire :: "int_codec \<Rightarrow> int \<Rightarrow> bytes" where
  "binary_wire Int2_codec n = be16 (of_int n)"
| "binary_wire Int4_codec n = be32 (of_int n)"
| "binary_wire Int8_codec n = be64 (of_int n)"

definition wire_int :: "int_codec \<Rightarrow> int \<Rightarrow> int \<Rightarrow> bytes" where
  "wire_int c format n = (if format = BinaryFormatCode then binary_wire c n else Itoa n)"

text \<open>The range of an integer target, the target with a number stored, and the number stored in it.\<close>

fun int_range :: "('s, 't) int_target \<Rightarrow> (int \<times> int) option" where
  "int_range (P_int8 _) = Some (- (2 ^ 7), 2 ^ 7)"
| "int_range (P_uint8 _) = Some (0, 2 ^ 8)"
| "int_range (P_int16 _) = Some (- (2 ^ 15), 2 ^ 15)"
| "int_range (P_uint16 _) = Some (0, 2 ^ 16)"
| "int_range (P_int32 _) = Some (- (2 ^ 31), 2 ^ 31)"
| "int_range (P_uint32 _) = Some (0, 2 ^ 32)"
| "int_range (P_int64 _) = Some (- (2 ^ 63), 2 ^ 63)"
| "int_range (P_uint64 _) = Some (0, 2 ^ 64)"
| "int_range (P_int _) = Some (- (2 ^ 63), 2 ^ 63)"
| "int_range (P_uint _) = Some (0, 2 ^ 64)"
| "int_range _ = None"

fun store :: "int \<Rightarrow> ('s, 't) int_target \<Rightarrow> ('s, 't) int_target" where
  "store n (P_int8 _) = P_int8 (of_int n)"
| "store n (P_uint8 _) = P_uint8 (of_int n)"
| "store n (P_int16 _) = P_int16 (of_int n)"
| "store n (P_uint16 _) = P_uint16 (of_int n)"
| "store n (P_int32 _) = P_int32 (of_int n)"
| "store n (P_uint32 _) = P_uint32 (of_int n)"
| "store n (P_int64 _) = P_int64 (of_int n)"
| "store n (P_uint64 _) = P_uint64 (of_int n)"
| "store n (P_int _) = P_int (of_int n)"
| "store n (P_uint _) = P_uint (of_int n)"
| "store n t = t"

fun stored :: "('s, 't) int_target \<Rightarrow> int option" where
  "stored (P_int8 w) = Some (sint w)"
| "stored (P_uint8 w) = Some (uint w)"
| "stored (P_int16 w) = Some (sint w)"
| "stored (P_uint16 w) = Some (uint w)"
| "stored (P_int32 w) = Some (sint w)"
| "stored (P_uint32 w) = Some (uint w)"
| "stored (P_int64 w) = Some (sint w)"
| "stored (P_uint64 w) = Some (uint w)"
| "stored (P_int w) = Some (sint w)"
| "stored (P_uint w) = Some (uint w)"
| "stored _ = None"

lemma sint_of_int_range:
  "- (2 ^ (LENGTH('a) - 1)) \<le> n \<Longrightarrow> n < 2 ^ (LENGTH('a) - 1) \<Longrightarrow> sint (of_int n :: 'a::len word) = n"
  by (simp add: signed_of_int signed_take_bit_int_eq_self)

lemma uint_of_int_range: "0 \<le> n \<Longrightarrow> n < 2 ^ LENGTH('a) \<Longrightarrow> uint (of_int n :: 'a::len word) = n"
  by (simp add: unsigned_of_int take_bit_int_eq_self)

lemma stored_store: "int_range t = Some (lo, hi) \<Longrightarrow> lo \<le> n \<Longrightarrow> n < hi \<Longrightarrow> stored (store n t) = Some n"
  by (cases t) (auto simp: sint_of_int_range uint_of_int_range)

lemma cast_of_int:
  "LENGTH('b) \<le> LENGTH('a) \<Longrightarrow> (ucast (of_int n :: 'a::len word) :: 'b::len word) = of_int n"
  "- (2 ^ (LENGTH('a) - 1)) \<le> n \<Longrightarrow> n < 2 ^ (LENGTH('a) - 1) \<Longrightarrow> (scast (of_int n :: 'a::len word) :: 'b::len word) = of_int n"
  by (simp add: unsigned_of_int word_of_int_eq_iff take_bit_take_bit min_absorb1)
     (simp add: signed_of_int signed_take_bit_int_eq_self)

definition scans_to :: "('s, 't) int_target result \<Rightarrow> int \<Rightarrow> ('s, 't) int_target \<Rightarrow> bool" where
  "scans_to r n t \<longleftrightarrow> (case int_range t of
       Some (lo, hi) \<Rightarrow> (if lo \<le> n \<and> n < hi then r = Inr (store n t) else \<exists>e. r = Inl e \<and> e \<noteq> GoPanic)
     | None \<Rightarrow> False)"

lemma scan_binary:
  assumes "in_codec c n" and "int_range t \<noteq> None"
  shows "scans_to (codecScan (PlanScan c si st BinaryFormatCode t) (Some (binary_wire c n)) t) n t"
proof (cases c)
  case Int2_codec
  then have n: "- 32768 \<le> n" "n < 32768" using assms(1) by (simp_all add: in_codec_def)
  then have w: "sint (of_int n :: u16) = n" by (simp add: sint_of_int_range)
  from assms(2) n show ?thesis
    by (cases t) (simp_all add: Int2_codec scans_to_def codecScan_def PlanScan_defs binary_plan_defs check_defs w cast_of_int)
next
  case Int4_codec
  then have n: "- 2147483648 \<le> n" "n < 2147483648" using assms(1) by (simp_all add: in_codec_def)
  then have w: "sint (of_int n :: u32) = n" by (simp add: sint_of_int_range)
  from assms(2) n show ?thesis
    by (cases t) (simp_all add: Int4_codec scans_to_def codecScan_def PlanScan_defs binary_plan_defs check_defs w cast_of_int)
next
  case Int8_codec
  then have n: "- 9223372036854775808 \<le> n" "n < 9223372036854775808" using assms(1) by (simp_all add: in_codec_def)
  then have w: "sint (of_int n :: u64) = n" by (simp add: sint_of_int_range)
  from assms(2) n show ?thesis
    by (cases t) (simp_all add: Int8_codec scans_to_def codecScan_def PlanScan_defs binary_plan_defs check_defs w cast_of_int)
qed

lemma parsed_ParseInt:
  assumes "1 < bits"
  shows "parsed (ParseInt (Itoa n) bits) =
    (if - (2 ^ (bits - 1)) \<le> n \<and> n < 2 ^ (bits - 1) then Inr n else Inl (ErrorsNew ''value out of range''))"
  using assms ParseInt_Itoa [of bits n] ParseInt_Itoa_over [of bits n] by (auto simp: parsed_def)

lemma parsed_ParseUint:
  "parsed (ParseUint (Itoa n) bits) =
    (if n < 0 then Inl (ErrorsNew ''invalid syntax'')
     else if n < 2 ^ bits then Inr (nat n) else Inl (ErrorsNew ''value out of range''))"
  by (simp add: parsed_def ParseUint_Itoa)

lemma scan_text:
  assumes "int_range t \<noteq> None"
  shows "scans_to (codecScan (PlanScan c si st TextFormatCode t) (Some (Itoa n)) t) n t"
proof -
  have plan: "PlanScan c si st TextFormatCode t = text_int_plan si t"
    by (cases c) (simp_all add: PlanScan_defs format_defs)
  show ?thesis
    unfolding plan using assms
    by (cases t) (auto simp: scans_to_def codecScan_def text_plan_defs check_defs parsed_ParseInt parsed_ParseUint)
qed

section \<open>Encoding\<close>

text \<open>The number that a value stands for; \<open>None\<close> where it has none (NULL, an error, another type).\<close>

fun value_int :: "('v \<Rightarrow> Int8 result) \<Rightarrow> 'v int_value \<Rightarrow> int option" where
  "value_int valuer (V_int16 w) = Some (sint w)"
| "value_int valuer (V_int32 w) = Some (sint w)"
| "value_int valuer (V_int64 w) = Some (sint w)"
| "value_int valuer (V_Int64Valuer v) = (case valuer v of
     Inr n \<Rightarrow> if Int8_Valid n then Some (sint (Int8_Int64 n)) else None
   | Inl _ \<Rightarrow> None)"
| "value_int valuer V_other = None"

lemma scast_down: "LENGTH('b) \<le> LENGTH('a) \<Longrightarrow> (scast (w :: 'a::len word) :: 'b::len word) = ucast w"
  using cast_of_int(1) [of "sint w", where 'a = 'a and 'b = 'b] by simp

lemma sint_bounds:
  "- 32768 \<le> sint (a :: u16)" "sint a < 32768" "- 2147483648 \<le> sint (b :: u32)" "sint b < 2147483648"
  "- 9223372036854775808 \<le> sint (c :: u64)" "sint c < 9223372036854775808"
  using sint_range_size [of a] sint_range_size [of b] sint_range_size [of c] by (simp_all add: word_size)

lemma encode_exact:
  assumes "PlanEncode c valuer format v = Some plan" and "value_int valuer v = Some n"
  shows "if in_codec c n then plan v buf = Inr (Some (buf @ wire_int c format n)) else \<exists>e. plan v buf = Inl e"
proof (cases v)
  case (V_Int64Valuer x)
  with assms(2) obtain i where i: "valuer x = Inr i" "Int8_Valid i" "n = sint (Int8_Int64 i)"
    by (auto split: sum.splits if_splits)
  with assms(1) V_Int64Valuer show ?thesis
    by (cases c) (auto simp: PlanEncode_defs encode_plan_defs check_defs in_codec_def wire_int_def format_defs
        Append_eqs AppendUint16_eq [of buf] AppendUint32_eq [of buf] AppendUint64_eq [of buf] scast_down split: if_splits)
qed (use assms in \<open>cases c; auto simp: PlanEncode_defs encode_plan_defs in_codec_def wire_int_def format_defs
    Append_eqs AppendUint16_eq [of buf] AppendUint32_eq [of buf] AppendUint64_eq [of buf] sint_bounds split: if_splits\<close>)+

section \<open>Properties\<close>

text \<open>
  C26: a scan is exact. A number that the server sends for a column of one of the integer types, in either
  format, is stored as that very number if the type of the target can hold it; otherwise the scan fails, and
  nothing is truncated or wrapped around.
\<close>

theorem int_scan_exact:
  assumes "in_codec c n" and "format = BinaryFormatCode \<or> format = TextFormatCode" and "int_range t = Some (lo, hi)"
  shows "if lo \<le> n \<and> n < hi
    then \<exists>t'. codecScan (PlanScan c si st format t) (Some (wire_int c format n)) t = Inr t'
           \<and> stored t' = Some n \<and> int_range t' = int_range t
    else \<exists>e. codecScan (PlanScan c si st format t) (Some (wire_int c format n)) t = Inl e \<and> e \<noteq> GoPanic"
proof -
  have "int_range (store n t) = int_range t" by (cases t) simp_all
  then show ?thesis
    using assms scan_binary [OF assms(1), of t si st] scan_text [of t c si st n] stored_store [OF assms(3), of n]
    by (auto simp: scans_to_def wire_int_def format_defs)
qed

theorem int_scan_exact_witness:
  "\<exists>t'. codecScan (PlanScan Int4_codec (\<lambda>_ s. Inr s) (\<lambda>_ s. Inr s) TextFormatCode (P_uint8 0))
      (Some (wire_int Int4_codec TextFormatCode 200)) (P_uint8 0 :: (unit, unit) int_target) = Inr t' \<and> stored t' = Some 200"
  using int_scan_exact [of Int4_codec 200 TextFormatCode "P_uint8 0 :: (unit, unit) int_target" 0 "2 ^ 8"
      "\<lambda>_ s. Inr s" "\<lambda>_ s. Inr s"]
  by (auto simp: in_codec_def)

text \<open>
  C27: round trip. What an encode plan writes for a number is scanned back as that number, by every integer
  target that can hold it; a number outside the range of the column's type is refused.
\<close>

theorem int_encode_scan:
  assumes "PlanEncode c valuer format v = Some plan" and "value_int valuer v = Some n"
    and "int_range t = Some (lo, hi)" and "lo \<le> n" and "n < hi"
  shows "if in_codec c n
    then \<exists>b t'. plan v [] = Inr (Some b) \<and> codecScan (PlanScan c si st format t) (Some b) t = Inr t' \<and> stored t' = Some n
    else \<exists>e. plan v [] = Inl e"
proof -
  have fmt: "format = BinaryFormatCode \<or> format = TextFormatCode"
    using assms(1) by (cases c) (auto simp: PlanEncode_defs split: if_splits)
  have scan: "codecScan (PlanScan c si st format t) (Some (wire_int c format n)) t = Inr (store n t)" if "in_codec c n"
    using fmt scan_binary [OF that, of t si st] scan_text [of t c si st n] assms(3-5)
    by (auto simp: scans_to_def wire_int_def format_defs)
  show ?thesis
    using encode_exact [OF assms(1,2), of "[]"] scan stored_store [OF assms(3-5)] by (auto split: if_splits)
qed

theorem int_encode_scan_witness:
  "\<exists>b t'. encodePlanInt2CodecBinaryInt16 (V_int16 (- 5) :: unit int_value) [] = Inr (Some b)
    \<and> codecScan (PlanScan Int2_codec (\<lambda>_ s. Inr s) (\<lambda>_ s. Inr s) BinaryFormatCode (P_int64 0)) (Some b)
        (P_int64 0 :: (unit, unit) int_target) = Inr t' \<and> stored t' = Some (- 5)"
  using int_encode_scan [of Int2_codec "\<lambda>_. Inl EOF" BinaryFormatCode "V_int16 (- 5) :: unit int_value"
      encodePlanInt2CodecBinaryInt16 "- 5" "P_int64 0 :: (unit, unit) int_target" "- (2 ^ 63)" "2 ^ 63"
      "\<lambda>_ s. Inr s" "\<lambda>_ s. Inr s"]
  by (simp add: PlanEncode_defs in_codec_def)

lemma parsed_safe: "safe (parsed r)"
  by (auto simp: parsed_def split: option.splits num_err.splits)

text \<open>
  C28: no bytes from the server, NULL and values of a wrong length included, make a scan of an integer panic,
  as long as the methods of the target do not.
\<close>

theorem int_scan_safe:
  assumes "\<And>n s. safe (si n s)" and "\<And>x s. safe (st x s)"
  shows "safe (codecScan (PlanScan c si st format t) src t)"
proof -
  have map_safe: "safe (map_sum id f r) = safe r" for f :: "'x \<Rightarrow> ('s, 't) int_target" and r :: "'x result"
    by (cases r) auto
  have uint: "length s = 2 \<Longrightarrow> safe (Uint16 s)" "length s = 4 \<Longrightarrow> safe (Uint32 s)" "length s = 8 \<Longrightarrow> safe (Uint64 s)" for s
    using i16.get_safe [of s] i32.get_safe [of s] i64.get_safe [of s] by simp_all
  note defs = codecScan_def PlanScan_defs ErrScanTargetTypeChanged_def cannot_scan_NULL_def
  show ?thesis
    by (cases c; cases t; cases src)
       (auto simp: defs binary_plan_defs text_plan_defs check_defs map_safe intro!: safe_bindE uint parsed_safe assms)
qed

theorem int_scan_safe_witness:
  "safe (codecScan (PlanScan Int8_codec Int8_ScanInt64 (\<lambda>_ s. Inr s) BinaryFormatCode (P_int 0)) (Some [1])
      (P_int 0 :: (Int8, unit) int_target))"
proof (rule int_scan_safe)
  show "safe (Int8_ScanInt64 n s)" for n s
    by (simp add: Int8_ScanInt64_def check_defs)
qed simp

text \<open>
  C29: through \<open>database/sql\<close>, a value scanned from what \<open>Value\<close> returned, NULL included, is the same value.
\<close>

theorem int_value_scan:
  "bindE (Int2_Value a) (\<lambda>v. Int2_Scan v d2) = Inr (if Int2_Valid a then a else \<lparr>Int2_Int16 = 0, Int2_Valid = False\<rparr>)
   \<and> bindE (Int4_Value b) (\<lambda>v. Int4_Scan v d4) = Inr (if Int4_Valid b then b else \<lparr>Int4_Int32 = 0, Int4_Valid = False\<rparr>)
   \<and> bindE (Int8_Value c) (\<lambda>v. Int8_Scan v d8) = Inr (if Int8_Valid c then c else \<lparr>Int8_Int64 = 0, Int8_Valid = False\<rparr>)"
proof -
  have s: "sint (scast (Int2_Int16 a) :: u64) = sint (Int2_Int16 a)" "sint (scast (Int4_Int32 b) :: u64) = sint (Int4_Int32 b)"
    by (simp_all add: sint_up_scast is_up)
  show ?thesis
    using sint_bounds(1,2) [of "Int2_Int16 a"] sint_bounds(3,4) [of "Int4_Int32 b"] sint_bounds(5,6) [of "Int8_Int64 c"] s
    by (cases a; cases b; cases c)
       (simp add: Int2_Value_def Int4_Value_def Int8_Value_def Int2_Scan_def Int4_Scan_def Int8_Scan_def check_defs)
qed

end
