(* ===== verification/Pgconn.thy ===== *)
theory Pgconn
  imports Proto_Backend Stmt_Cache
begin

text \<open>
  The state of a connection, \<open>pgconn/pgconn.go\<close> and \<open>pgconn/errors.go\<close>: the errors a command can return,
  the readers of results and the pipeline as they are embedded in \<open>PgConn\<close>, locking, closing, and the
  receipt of one message. What other goroutines do (the cancel request and \<open>Terminate\<close> of \<open>asyncClose\<close>, the
  background reader, the deadline set by a cancelled context) shows up in what the reader delivers.
  A run-time panic does not end the model: the first one is recorded in \<open>pc_panics\<close>, and what the model does
  after it is of no account. Which panics can be recorded is a theorem.
\<close>

section \<open>Receiving makes progress\<close>

definition cr_left :: "chunkReader \<Rightarrow> nat" where
  "cr_left r = (cr_wp r - cr_rp r) + length (reader_bytes (cr_r r))"

lemma Next_take_left:
  "Next_take n r = (Inr b, r') \<Longrightarrow> r' = r\<lparr>cr_rp := cr_rp r + n\<rparr>"
  by (auto simp: Next_take_def split: if_splits)

lemma Next_reset_left: "Next_reset r = Inr r' \<Longrightarrow> cr_left r' \<le> cr_left r"
  by (auto simp: Next_reset_def cr_left_def split: if_splits prod.splits sum.splits)

lemma copy_bytes_left: "copy_bytes b xs = (b', k) \<Longrightarrow> k \<le> length xs"
  by (auto simp: copy_bytes_def Let_def)

lemma cr_filled_le: "length (cr_filled r) \<le> cr_wp r - cr_rp r"
  by (simp add: cr_filled_def)

lemma Next_grow_left: "Next_grow n r = Inr r' \<Longrightarrow> cr_left r' \<le> cr_left r"
  using cr_filled_le [of r]
  by (auto simp: Next_grow_def cr_left_def split: if_splits prod.splits sum.splits dest!: copy_bytes_left)

lemma Next_shift_left: "cr_left (Next_shift n r) \<le> cr_left r"
  using cr_filled_le [of r]
  by (auto simp: Next_shift_def cr_left_def Let_def split: prod.splits dest!: copy_bytes_left)

lemma Next_read_left:
  assumes "Next_read n r = (Inr b, r')"
  shows "cr_left r' + n \<le> cr_left r"
proof -
  define m where "m = n - (cr_wp r - cr_rp r)"
  obtain got err rd where read: "ReadAtLeast (buf_len (cr_buf r) - cr_wp r) m (cr_r r) = (got, err, rd)"
    by (cases "ReadAtLeast (buf_len (cr_buf r) - cr_wp r) m (cr_r r)") auto
  with assms have ok: "err = None"
    by (auto simp: Next_read_def Let_def m_def split: option.splits)
  with read have le: "m \<le> buf_len (cr_buf r) - cr_wp r"
    by (auto simp: ReadAtLeast_def split: if_splits)
  from ReadAtLeast_spec(1,5) [OF read le] ok
  have "length (reader_bytes (cr_r r)) = length got + length (reader_bytes rd)" "m \<le> length got"
    by auto
  moreover have "cr_rp r' = cr_rp r + n \<and> cr_wp r' = cr_wp r + length got \<and> cr_r r' = rd"
    using assms read ok by (auto simp: Next_read_def Let_def m_def dest!: Next_take_left)
  ultimately show ?thesis
    by (auto simp: cr_left_def m_def)
qed

lemma chunkReader_Next_left:
  assumes "chunkReader_Next n r = (Inr b, r')"
  shows "cr_left r' + n \<le> cr_left r"
proof -
  from assms obtain r1 where r1: "Next_reset r = Inr r1"
    by (auto simp: chunkReader_Next_def split: sum.splits)
  show ?thesis
  proof (cases "n \<le> cr_wp r1 - cr_rp r1")
    case True
    with assms r1 Next_reset_left [OF r1] show ?thesis
      by (auto simp: chunkReader_Next_def cr_left_def dest!: Next_take_left)
  next
    case False
    with assms r1 obtain r2 where "Next_grow n r1 = Inr r2" "Next_read n (Next_shift n r2) = (Inr b, r')"
      by (auto simp: chunkReader_Next_def split: sum.splits)
    with Next_reset_left [OF r1] Next_grow_left [of n r1 r2] Next_shift_left [of n r2]
      Next_read_left [of n "Next_shift n r2" b r']
    show ?thesis by simp
  qed
qed

lemma chunkReader_Next_mono:
  assumes "chunkReader_Next n r = (res, r')"
  shows "cr_left r' \<le> cr_left r"
proof -
  have take: "cr_left r2 \<le> cr_left r1" if "Next_take n r1 = (res, r2)" for r1 r2
    using that by (auto simp: Next_take_def cr_left_def split: if_splits)
  have read: "cr_left r2 \<le> cr_left r1" if "Next_read n r1 = (res, r2)" for r1 r2
  proof -
    define m where "m = n - (cr_wp r1 - cr_rp r1)"
    obtain got err rd where read: "ReadAtLeast (buf_len (cr_buf r1) - cr_wp r1) m (cr_r r1) = (got, err, rd)"
      by (cases "ReadAtLeast (buf_len (cr_buf r1) - cr_wp r1) m (cr_r r1)") auto
    have "length (reader_bytes (cr_r r1)) = length got + length (reader_bytes rd)"
    proof (cases "m \<le> buf_len (cr_buf r1) - cr_wp r1")
      case True
      from ReadAtLeast_spec(1) [OF read True] show ?thesis by simp
    next
      case False
      with read show ?thesis by (auto simp: ReadAtLeast_def)
    qed
    with that read take show ?thesis
      by (fastforce simp: Next_read_def Let_def m_def cr_left_def Next_take_def split: option.splits if_splits)
  qed
  show ?thesis
    using assms take read Next_reset_left [of r] Next_grow_left [of n] Next_shift_left [of n]
    by (fastforce simp: chunkReader_Next_def split: sum.splits if_splits intro: order_trans)
qed

definition fe_left :: "chunkReader Frontend \<Rightarrow> nat" where
  "fe_left f = cr_left (ep_cr f) + (if ep_partialMsg f then 1 else 0)"

lemma receive_header_left:
  assumes "receive_header chunkReader_Next f = (None, f')"
  shows "cr_left (ep_cr f') + (if ep_partialMsg f then 0 else 5) \<le> cr_left (ep_cr f)"
  using assms chunkReader_Next_left [of 5 "ep_cr f"]
  by (fastforce simp: receive_header_def Let_def split: if_splits prod.splits sum.splits)

lemma Frontend_Receive_left:
  assumes "Frontend_Receive chunkReader_Next f = (Inr m, f')"
  shows "fe_left f' < fe_left f"
  using assms
proof (cases rule: Frontend_Receive_cases)
  case (decode f1 b f2)
  from decode(2) have "cr_left (ep_cr f2) \<le> cr_left (ep_cr f1) \<and> \<not> ep_partialMsg f2"
    using chunkReader_Next_left [of "ep_bodyLen f1" "ep_cr f1"]
    by (fastforce simp: receive_body_def split: prod.splits sum.splits)
  with receive_header_left [OF decode(1)] Frontend_decode_reading [OF decode(3)] show ?thesis
    by (auto simp: fe_left_def split: if_splits)
qed simp_all

lemma Frontend_Receive_mono:
  assumes "Frontend_Receive chunkReader_Next f = (r, f')"
  shows "fe_left f' \<le> fe_left f"
  using assms
proof (cases rule: Frontend_Receive_cases)
  case (header err)
  then show ?thesis
    using chunkReader_Next_mono [of 5 "ep_cr f"]
    by (fastforce simp: receive_header_def fe_left_def Let_def split: if_splits prod.splits sum.splits)
next
  case (body f1 err)
  then have "cr_left (ep_cr f') \<le> cr_left (ep_cr f1) \<and> ep_partialMsg f' = ep_partialMsg f1"
    using chunkReader_Next_mono [of "ep_bodyLen f1" "ep_cr f1"]
    by (fastforce simp: receive_body_def split: prod.splits sum.splits)
  with receive_header_left [OF body(1)] show ?thesis
    by (auto simp: fe_left_def split: if_splits)
next
  case (decode f1 b f2)
  from decode(2) have "cr_left (ep_cr f2) \<le> cr_left (ep_cr f1) \<and> \<not> ep_partialMsg f2"
    using chunkReader_Next_left [of "ep_bodyLen f1" "ep_cr f1"]
    by (fastforce simp: receive_body_def split: prod.splits sum.splits)
  with receive_header_left [OF decode(1)] Frontend_decode_reading [OF decode(3)] show ?thesis
    by (auto simp: fe_left_def split: if_splits)
qed

section \<open>Errors\<close>

record PgError =
  pe_Severity :: bytes
  pe_SeverityUnlocalized :: bytes
  pe_Code :: bytes
  pe_Message :: bytes
  pe_Detail :: bytes
  pe_Hint :: bytes
  pe_Position :: u32
  pe_InternalPosition :: u32
  pe_InternalQuery :: bytes
  pe_Where :: bytes
  pe_SchemaName :: bytes
  pe_TableName :: bytes
  pe_ColumnName :: bytes
  pe_DataTypeName :: bytes
  pe_ConstraintName :: bytes
  pe_File :: bytes
  pe_Line :: u32
  pe_Routine :: bytes

definition ErrorResponseToPgError :: "ErrorResponse \<Rightarrow> PgError" where
  "ErrorResponseToPgError msg =
     \<lparr>pe_Severity = er_Severity msg,
      pe_SeverityUnlocalized = er_SeverityUnlocalized msg,
      pe_Code = er_Code msg,
      pe_Message = er_Message msg,
      pe_Detail = er_Detail msg,
      pe_Hint = er_Hint msg,
      pe_Position = er_Position msg,
      pe_InternalPosition = er_InternalPosition msg,
      pe_InternalQuery = er_InternalQuery msg,
      pe_Where = er_Where msg,
      pe_SchemaName = er_SchemaName msg,
      pe_TableName = er_TableName msg,
      pe_ColumnName = er_ColumnName msg,
      pe_DataTypeName = er_DataTypeName msg,
      pe_ConstraintName = er_ConstraintName msg,
      pe_File = er_File msg,
      pe_Line = er_Line msg,
      pe_Routine = er_Routine msg\<rparr>"

definition noticeResponseToNotice :: "ErrorResponse \<Rightarrow> PgError" where
  "noticeResponseToNotice msg = ErrorResponseToPgError msg"

definition PgError_Error :: "PgError \<Rightarrow> bytes" where
  "PgError_Error pe = pe_Severity pe @ str '': '' @ pe_Message pe @ str '' (SQLSTATE '' @ pe_Code pe @ str '')''"

text \<open>
  A context: whether it is \<open>context.Background()\<close>, whether it can be cancelled at all (\<open>Done() \<noteq> nil\<close>), its error
  at the start of a call and its error when a read of that call has failed.
\<close>

datatype ctx_err = Canceled | DeadlineExceeded

record ctx =
  ctx_Background :: bool
  ctx_cancellable :: bool
  ctx_done :: "ctx_err option"
  ctx_Err :: "ctx_err option"

text \<open>The errors of \<open>pgconn\<close>, with those of the layers below as \<open>NetErr\<close>.\<close>

datatype conn_err =
    NetErr goerr
  | PgErr PgError
  | ConnLockErr string
  | ErrTimeout conn_err
  | ContextAlreadyDone "ctx_err option"
  | ContextErr ctx_err
  | PgconnErr string conn_err bool
  | PrepareErr PgError bool
  | MsgErr string

text \<open>
  \<open>errors.As(err, &netErr) && netErr.Timeout()\<close>: the deadline error of the network, and that of a context,
  which implements \<open>net.Error\<close> as well.
\<close>

fun goerr_Timeout :: "goerr \<Rightarrow> bool" where
  "goerr_Timeout (IOErr s) \<longleftrightarrow> s = ''i/o timeout''"
| "goerr_Timeout (WriteError e _) \<longleftrightarrow> goerr_Timeout e"
| "goerr_Timeout _ \<longleftrightarrow> False"

fun net_Timeout :: "conn_err \<Rightarrow> bool" where
  "net_Timeout (NetErr e) \<longleftrightarrow> goerr_Timeout e"
| "net_Timeout (ErrTimeout e) \<longleftrightarrow> net_Timeout e"
| "net_Timeout (ContextAlreadyDone e) \<longleftrightarrow> e = Some DeadlineExceeded"
| "net_Timeout (ContextErr e) \<longleftrightarrow> e = DeadlineExceeded"
| "net_Timeout (PgconnErr _ e _) \<longleftrightarrow> net_Timeout e"
| "net_Timeout _ \<longleftrightarrow> False"

fun SafeToRetry :: "conn_err \<Rightarrow> bool" where
  "SafeToRetry (NetErr (WriteError _ safeToRetry)) \<longleftrightarrow> safeToRetry"
| "SafeToRetry (ConnLockErr _) \<longleftrightarrow> True"
| "SafeToRetry (ErrTimeout e) \<longleftrightarrow> SafeToRetry e"
| "SafeToRetry (ContextAlreadyDone _) \<longleftrightarrow> True"
| "SafeToRetry (PgconnErr _ _ safeToRetry) \<longleftrightarrow> safeToRetry"
| "SafeToRetry _ \<longleftrightarrow> False"

fun Timeout :: "conn_err \<Rightarrow> bool" where
  "Timeout (ErrTimeout _) \<longleftrightarrow> True"
| "Timeout (PgconnErr _ e _) \<longleftrightarrow> Timeout e"
| "Timeout _ \<longleftrightarrow> False"

text \<open>\<open>errors.As(err, &pgErr)\<close>.\<close>

fun as_PgError :: "conn_err \<Rightarrow> PgError option" where
  "as_PgError (PgErr e) = Some e"
| "as_PgError (PrepareErr e _) = Some e"
| "as_PgError (ErrTimeout e) = as_PgError e"
| "as_PgError (PgconnErr _ e _) = as_PgError e"
| "as_PgError _ = None"

definition normalizeTimeoutError :: "ctx \<Rightarrow> conn_err \<Rightarrow> conn_err" where
  "normalizeTimeoutError c err =
     (if net_Timeout err then
        case ctx_Err c of
          Some Canceled \<Rightarrow> ContextErr Canceled
        | Some DeadlineExceeded \<Rightarrow> ErrTimeout (ContextErr DeadlineExceeded)
        | None \<Rightarrow> ErrTimeout err
      else err)"

definition newContextAlreadyDoneError :: "ctx \<Rightarrow> conn_err" where
  "newContextAlreadyDoneError c = ErrTimeout (ContextAlreadyDone (ctx_done c))"

section \<open>State\<close>

record CommandTag =
  ct_s :: bytes

abbreviation no_tag :: CommandTag where
  "no_tag \<equiv> \<lparr>ct_s = []\<rparr>"

datatype connStatus =
    connStatusUninitialized | connStatusConnecting | connStatusClosed | connStatusIdle | connStatusBusy

record Notification =
  n_PID :: u32
  n_Channel :: bytes
  n_Payload :: bytes

text \<open>
  The pointers of a \<open>ResultReader\<close> to its connection, to the reader of several results and to the pipeline are
  never other than that connection and those of it: only whether they are set is kept.
\<close>

record ResultReader =
  rr_pgConn :: bool
  rr_multiResultReader :: bool
  rr_pipeline :: bool
  rr_ctx :: ctx
  rr_fieldDescriptions :: "pgconn_FieldDescription list"
  rr_rowValues :: "bytes option list"
  rr_commandTag :: CommandTag
  rr_preloaded :: bool
  rr_commandConcluded :: bool
  rr_closed :: bool
  rr_err :: "conn_err option"

record MultiResultReader =
  mrr_ctx :: ctx
  mrr_rr :: bool
  mrr_statementDescriptions :: "StatementDescription list"
  mrr_resultFormats :: "u16 list list"
  mrr_closed :: bool
  mrr_err :: "conn_err option"

datatype pipelineRequestType =
    pipelineNil
  | pipelinePrepare
  | pipelineQueryParams
  | pipelineQueryPrepared
  | pipelineQueryStatement
  | pipelineDeallocate
  | pipelineSyncRequest
  | pipelineFlushRequest

record pipelineRequestEvent =
  ev_RequestType :: pipelineRequestType
  ev_WasSentToServer :: bool
  ev_BeforeFlushOrSync :: bool

record pipelineState =
  ps_requestEventQueue :: "pipelineRequestEvent list"
  ps_statementDescriptionsQueue :: "StatementDescription list"
  ps_resultFormatsQueue :: "u16 list list"
  ps_lastRequestType :: pipelineRequestType
  ps_pgErr :: "PgError option"
  ps_expectedReadyForQueryCount :: int

record Pipeline =
  pl_ctx :: ctx
  pl_state :: pipelineState
  pl_err :: "conn_err option"
  pl_closed :: bool

text \<open>
  \<open>pc_watching\<close> says whether the context watcher watches a context; \<open>pc_cleanupDone\<close> whether that channel is
  closed or about to be; \<open>pc_notices\<close> and \<open>pc_notifications\<close> hold what the handlers were called with.
\<close>

record PgConn =
  pc_frontend :: "chunkReader Frontend"
  pc_pid :: u32
  pc_secretKey :: bytes
  pc_parameterStatuses :: "bytes \<rightharpoonup> bytes"
  pc_txStatus :: byte
  pc_status :: connStatus
  pc_bufferingReceive :: bool
  pc_bufferingReceiveMsg :: "BackendMessage result"
  pc_peekedMsg :: "BackendMessage option"
  pc_resultReader :: ResultReader
  pc_multiResultReader :: MultiResultReader
  pc_pipeline :: Pipeline
  pc_fieldDescriptions :: "pgconn_FieldDescription list"
  pc_OnPgError :: "(PgError \<Rightarrow> bool) option"
  pc_OnNotice :: bool
  pc_OnNotification :: bool
  pc_watching :: bool
  pc_cleanupDone :: bool
  pc_notices :: "PgError list"
  pc_notifications :: "Notification list"
  pc_panics :: "string list"

abbreviation upd_rr :: "(ResultReader \<Rightarrow> ResultReader) \<Rightarrow> PgConn \<Rightarrow> PgConn" where
  "upd_rr g pc \<equiv> pc\<lparr>pc_resultReader := g (pc_resultReader pc)\<rparr>"

abbreviation upd_mrr :: "(MultiResultReader \<Rightarrow> MultiResultReader) \<Rightarrow> PgConn \<Rightarrow> PgConn" where
  "upd_mrr g pc \<equiv> pc\<lparr>pc_multiResultReader := g (pc_multiResultReader pc)\<rparr>"

abbreviation upd_pl :: "(Pipeline \<Rightarrow> Pipeline) \<Rightarrow> PgConn \<Rightarrow> PgConn" where
  "upd_pl g pc \<equiv> pc\<lparr>pc_pipeline := g (pc_pipeline pc)\<rparr>"

section \<open>Locking, watching, closing\<close>

definition conn_panic :: "string \<Rightarrow> PgConn \<Rightarrow> PgConn" where
  "conn_panic s pc = (if pc_panics pc = [] then pc\<lparr>pc_panics := [s]\<rparr> else pc)"

lemma conn_panic_keeps [simp]:
  "pc_frontend (conn_panic s pc) = pc_frontend pc"
  "pc_pid (conn_panic s pc) = pc_pid pc"
  "pc_secretKey (conn_panic s pc) = pc_secretKey pc"
  "pc_parameterStatuses (conn_panic s pc) = pc_parameterStatuses pc"
  "pc_txStatus (conn_panic s pc) = pc_txStatus pc"
  "pc_status (conn_panic s pc) = pc_status pc"
  "pc_bufferingReceive (conn_panic s pc) = pc_bufferingReceive pc"
  "pc_bufferingReceiveMsg (conn_panic s pc) = pc_bufferingReceiveMsg pc"
  "pc_peekedMsg (conn_panic s pc) = pc_peekedMsg pc"
  "pc_resultReader (conn_panic s pc) = pc_resultReader pc"
  "pc_multiResultReader (conn_panic s pc) = pc_multiResultReader pc"
  "pc_pipeline (conn_panic s pc) = pc_pipeline pc"
  "pc_fieldDescriptions (conn_panic s pc) = pc_fieldDescriptions pc"
  "pc_OnPgError (conn_panic s pc) = pc_OnPgError pc"
  "pc_OnNotice (conn_panic s pc) = pc_OnNotice pc"
  "pc_OnNotification (conn_panic s pc) = pc_OnNotification pc"
  "pc_watching (conn_panic s pc) = pc_watching pc"
  "pc_cleanupDone (conn_panic s pc) = pc_cleanupDone pc"
  "pc_notices (conn_panic s pc) = pc_notices pc"
  "pc_notifications (conn_panic s pc) = pc_notifications pc"
  by (simp_all add: conn_panic_def)

definition conn_lock :: "PgConn \<Rightarrow> conn_err option \<times> PgConn" where
  "conn_lock pc =
     (case pc_status pc of
        connStatusBusy \<Rightarrow> (Some (ConnLockErr ''conn busy''), pc)
      | connStatusClosed \<Rightarrow> (Some (ConnLockErr ''conn closed''), pc)
      | connStatusUninitialized \<Rightarrow> (Some (ConnLockErr ''conn uninitialized''), pc)
      | _ \<Rightarrow> (None, pc\<lparr>pc_status := connStatusBusy\<rparr>))"

definition conn_unlock :: "PgConn \<Rightarrow> PgConn" where
  "conn_unlock pc =
     (case pc_status pc of
        connStatusBusy \<Rightarrow> pc\<lparr>pc_status := connStatusIdle\<rparr>
      | connStatusClosed \<Rightarrow> pc
      | _ \<Rightarrow> conn_panic ''BUG: cannot unlock unlocked connection'' pc)"

definition PgConn_IsClosed :: "PgConn \<Rightarrow> bool" where
  "PgConn_IsClosed pc \<longleftrightarrow>
     pc_status pc \<in> {connStatusUninitialized, connStatusConnecting, connStatusClosed}"

definition PgConn_IsBusy :: "PgConn \<Rightarrow> bool" where
  "PgConn_IsBusy pc \<longleftrightarrow> pc_status pc = connStatusBusy"

definition PgConn_TxStatus :: "PgConn \<Rightarrow> byte" where
  "PgConn_TxStatus pc = pc_txStatus pc"

definition PgConn_ParameterStatus :: "bytes \<Rightarrow> PgConn \<Rightarrow> bytes" where
  "PgConn_ParameterStatus key pc = (case pc_parameterStatuses pc key of Some v \<Rightarrow> v | None \<Rightarrow> [])"

definition ctx_Watch :: "ctx \<Rightarrow> PgConn \<Rightarrow> PgConn" where
  "ctx_Watch c pc =
     (if pc_watching pc then conn_panic ''watch already in progress'' pc
      else if ctx_cancellable c then pc\<lparr>pc_watching := True\<rparr> else pc)"

definition ctx_Unwatch :: "PgConn \<Rightarrow> PgConn" where
  "ctx_Unwatch pc = pc\<lparr>pc_watching := False\<rparr>"

text \<open>The start of every command: a context that is done already, or the watch on it; and its end.\<close>

definition ctx_begin :: "ctx \<Rightarrow> PgConn \<Rightarrow> conn_err option \<times> PgConn" where
  "ctx_begin c pc =
     (if ctx_Background c then (None, pc)
      else if ctx_done c \<noteq> None then (Some (newContextAlreadyDoneError c), pc)
      else (None, ctx_Watch c pc))"

definition ctx_end :: "ctx \<Rightarrow> PgConn \<Rightarrow> PgConn" where
  "ctx_end c pc = (if ctx_Background c then pc else ctx_Unwatch pc)"

definition close_cleanupDone :: "PgConn \<Rightarrow> PgConn" where
  "close_cleanupDone pc =
     (if pc_cleanupDone pc then conn_panic ''close of closed channel'' pc else pc\<lparr>pc_cleanupDone := True\<rparr>)"

definition asyncClose :: "PgConn \<Rightarrow> PgConn" where
  "asyncClose pc =
     (if pc_status pc = connStatusClosed then pc
      else close_cleanupDone (pc\<lparr>pc_status := connStatusClosed\<rparr>))"

text \<open>What these operations do not touch.\<close>

lemma conn_unlock_fields [simp]:
  "pc_resultReader (conn_unlock pc) = pc_resultReader pc"
  "pc_multiResultReader (conn_unlock pc) = pc_multiResultReader pc"
  "pc_pipeline (conn_unlock pc) = pc_pipeline pc"
  "pc_frontend (conn_unlock pc) = pc_frontend pc"
  "pc_peekedMsg (conn_unlock pc) = pc_peekedMsg pc"
  "pc_bufferingReceive (conn_unlock pc) = pc_bufferingReceive pc"
  "pc_bufferingReceiveMsg (conn_unlock pc) = pc_bufferingReceiveMsg pc"
  "pc_OnPgError (conn_unlock pc) = pc_OnPgError pc"
  "pc_txStatus (conn_unlock pc) = pc_txStatus pc"
  "pc_parameterStatuses (conn_unlock pc) = pc_parameterStatuses pc"
  "pc_fieldDescriptions (conn_unlock pc) = pc_fieldDescriptions pc"
  "pc_watching (conn_unlock pc) = pc_watching pc"
  "pc_cleanupDone (conn_unlock pc) = pc_cleanupDone pc"
  by (simp_all add: conn_unlock_def conn_panic_def split: connStatus.split)

lemma ctx_Unwatch_fields [simp]:
  "pc_resultReader (ctx_Unwatch pc) = pc_resultReader pc"
  "pc_multiResultReader (ctx_Unwatch pc) = pc_multiResultReader pc"
  "pc_pipeline (ctx_Unwatch pc) = pc_pipeline pc"
  "pc_frontend (ctx_Unwatch pc) = pc_frontend pc"
  "pc_peekedMsg (ctx_Unwatch pc) = pc_peekedMsg pc"
  "pc_bufferingReceive (ctx_Unwatch pc) = pc_bufferingReceive pc"
  "pc_bufferingReceiveMsg (ctx_Unwatch pc) = pc_bufferingReceiveMsg pc"
  "pc_OnPgError (ctx_Unwatch pc) = pc_OnPgError pc"
  "pc_txStatus (ctx_Unwatch pc) = pc_txStatus pc"
  "pc_parameterStatuses (ctx_Unwatch pc) = pc_parameterStatuses pc"
  "pc_fieldDescriptions (ctx_Unwatch pc) = pc_fieldDescriptions pc"
  "pc_status (ctx_Unwatch pc) = pc_status pc"
  "pc_cleanupDone (ctx_Unwatch pc) = pc_cleanupDone pc"
  by (simp_all add: ctx_Unwatch_def)

lemma asyncClose_fields [simp]:
  "pc_resultReader (asyncClose pc) = pc_resultReader pc"
  "pc_multiResultReader (asyncClose pc) = pc_multiResultReader pc"
  "pc_pipeline (asyncClose pc) = pc_pipeline pc"
  "pc_frontend (asyncClose pc) = pc_frontend pc"
  "pc_peekedMsg (asyncClose pc) = pc_peekedMsg pc"
  "pc_bufferingReceive (asyncClose pc) = pc_bufferingReceive pc"
  "pc_bufferingReceiveMsg (asyncClose pc) = pc_bufferingReceiveMsg pc"
  "pc_OnPgError (asyncClose pc) = pc_OnPgError pc"
  "pc_txStatus (asyncClose pc) = pc_txStatus pc"
  "pc_parameterStatuses (asyncClose pc) = pc_parameterStatuses pc"
  "pc_fieldDescriptions (asyncClose pc) = pc_fieldDescriptions pc"
  "pc_watching (asyncClose pc) = pc_watching pc"
  by (simp_all add: asyncClose_def close_cleanupDone_def conn_panic_def)

lemma ctx_Watch_fields [simp]:
  "pc_resultReader (ctx_Watch c pc) = pc_resultReader pc"
  "pc_multiResultReader (ctx_Watch c pc) = pc_multiResultReader pc"
  "pc_pipeline (ctx_Watch c pc) = pc_pipeline pc"
  "pc_frontend (ctx_Watch c pc) = pc_frontend pc"
  "pc_peekedMsg (ctx_Watch c pc) = pc_peekedMsg pc"
  "pc_bufferingReceive (ctx_Watch c pc) = pc_bufferingReceive pc"
  "pc_bufferingReceiveMsg (ctx_Watch c pc) = pc_bufferingReceiveMsg pc"
  "pc_OnPgError (ctx_Watch c pc) = pc_OnPgError pc"
  "pc_txStatus (ctx_Watch c pc) = pc_txStatus pc"
  "pc_parameterStatuses (ctx_Watch c pc) = pc_parameterStatuses pc"
  "pc_fieldDescriptions (ctx_Watch c pc) = pc_fieldDescriptions pc"
  "pc_status (ctx_Watch c pc) = pc_status pc"
  "pc_cleanupDone (ctx_Watch c pc) = pc_cleanupDone pc"
  by (simp_all add: ctx_Watch_def conn_panic_def)

lemma ctx_end_fields [simp]:
  "pc_resultReader (ctx_end c pc) = pc_resultReader pc"
  "pc_multiResultReader (ctx_end c pc) = pc_multiResultReader pc"
  "pc_pipeline (ctx_end c pc) = pc_pipeline pc"
  "pc_frontend (ctx_end c pc) = pc_frontend pc"
  "pc_peekedMsg (ctx_end c pc) = pc_peekedMsg pc"
  "pc_bufferingReceive (ctx_end c pc) = pc_bufferingReceive pc"
  "pc_bufferingReceiveMsg (ctx_end c pc) = pc_bufferingReceiveMsg pc"
  "pc_OnPgError (ctx_end c pc) = pc_OnPgError pc"
  "pc_txStatus (ctx_end c pc) = pc_txStatus pc"
  "pc_parameterStatuses (ctx_end c pc) = pc_parameterStatuses pc"
  "pc_fieldDescriptions (ctx_end c pc) = pc_fieldDescriptions pc"
  "pc_status (ctx_end c pc) = pc_status pc"
  "pc_cleanupDone (ctx_end c pc) = pc_cleanupDone pc"
  by (simp_all add: ctx_end_def ctx_Unwatch_def)

lemma close_cleanupDone_fields [simp]:
  "pc_resultReader (close_cleanupDone pc) = pc_resultReader pc"
  "pc_multiResultReader (close_cleanupDone pc) = pc_multiResultReader pc"
  "pc_pipeline (close_cleanupDone pc) = pc_pipeline pc"
  "pc_frontend (close_cleanupDone pc) = pc_frontend pc"
  "pc_peekedMsg (close_cleanupDone pc) = pc_peekedMsg pc"
  "pc_bufferingReceive (close_cleanupDone pc) = pc_bufferingReceive pc"
  "pc_bufferingReceiveMsg (close_cleanupDone pc) = pc_bufferingReceiveMsg pc"
  "pc_OnPgError (close_cleanupDone pc) = pc_OnPgError pc"
  "pc_txStatus (close_cleanupDone pc) = pc_txStatus pc"
  "pc_parameterStatuses (close_cleanupDone pc) = pc_parameterStatuses pc"
  "pc_fieldDescriptions (close_cleanupDone pc) = pc_fieldDescriptions pc"
  "pc_watching (close_cleanupDone pc) = pc_watching pc"
  "pc_status (close_cleanupDone pc) = pc_status pc"
  by (simp_all add: close_cleanupDone_def conn_panic_def)

text \<open>Sending: a change of the frontend, and \<open>flushWithPotentialWriteReadDeadlock\<close>.\<close>

definition fe_send :: "(chunkReader Frontend \<Rightarrow> chunkReader Frontend) \<Rightarrow> PgConn \<Rightarrow> PgConn" where
  "fe_send g pc = pc\<lparr>pc_frontend := g (pc_frontend pc)\<rparr>"

definition conn_flush :: "PgConn \<Rightarrow> conn_err option \<times> PgConn" where
  "conn_flush pc =
     (let (err, f) = Frontend_Flush (pc_frontend pc) in (map_option NetErr err, pc\<lparr>pc_frontend := f\<rparr>))"

definition PgConn_Close :: "ctx \<Rightarrow> PgConn \<Rightarrow> PgConn" where
  "PgConn_Close c pc =
     (if pc_status pc = connStatusClosed then pc
      else
        let pc = pc\<lparr>pc_status := connStatusClosed\<rparr>;
            pc = (if ctx_Background c then pc else ctx_Watch c (ctx_Unwatch pc));
            pc = fe_send (Frontend_Send FM_Terminate) pc;
            (_, pc) = conn_flush pc
        in close_cleanupDone (ctx_end c pc))"

section \<open>Receiving a message\<close>

definition conn_Receive :: "PgConn \<Rightarrow> BackendMessage result \<times> PgConn" where
  "conn_Receive pc =
     (let (r, f) = Frontend_Receive chunkReader_Next (pc_frontend pc) in (r, pc\<lparr>pc_frontend := f\<rparr>))"

text \<open>
  \<open>signalMessage\<close> starts a goroutine that receives one message; its result is read once the channel is
  closed, and nothing else reads in between.
\<close>

definition signalMessage :: "PgConn \<Rightarrow> PgConn" where
  "signalMessage pc =
     (if pc_bufferingReceive pc then conn_panic ''BUG: signalMessage when already in progress'' pc
      else
        let (r, pc) = conn_Receive pc
        in pc\<lparr>pc_bufferingReceive := True, pc_bufferingReceiveMsg := r\<rparr>)"

definition buffered_Receive :: "PgConn \<Rightarrow> BackendMessage result \<times> PgConn" where
  "buffered_Receive pc =
     (if pc_bufferingReceive pc then
        let r = pc_bufferingReceiveMsg pc; pc = pc\<lparr>pc_bufferingReceive := False\<rparr> in
        case r of
          Inl e \<Rightarrow> if goerr_Timeout e then conn_Receive pc else (r, pc)
        | Inr _ \<Rightarrow> (r, pc)
      else conn_Receive pc)"

definition peekMessage :: "PgConn \<Rightarrow> (conn_err + BackendMessage) \<times> PgConn" where
  "peekMessage pc =
     (case pc_peekedMsg pc of
        Some msg \<Rightarrow> (Inr msg, pc)
      | None \<Rightarrow>
          (case buffered_Receive pc of
             (Inl e, pc) \<Rightarrow> (Inl (NetErr e), if goerr_Timeout e then pc else asyncClose pc)
           | (Inr msg, pc) \<Rightarrow> (Inr msg, pc\<lparr>pc_peekedMsg := Some msg\<rparr>)))"

definition handle_message :: "BackendMessage \<Rightarrow> PgConn \<Rightarrow> (conn_err + BackendMessage) \<times> PgConn" where
  "handle_message msg pc =
     (case msg of
        BM_ReadyForQuery m \<Rightarrow> (Inr msg, pc\<lparr>pc_txStatus := rfq_TxStatus m\<rparr>)
      | BM_ParameterStatus m \<Rightarrow>
          (Inr msg, pc\<lparr>pc_parameterStatuses := (pc_parameterStatuses pc)(ps_Name m \<mapsto> ps_Value m)\<rparr>)
      | BM_ErrorResponse m \<Rightarrow>
          (let err = ErrorResponseToPgError m in
           case pc_OnPgError pc of
             None \<Rightarrow> (Inr msg, pc)
           | Some h \<Rightarrow>
               if h err then (Inr msg, pc)
               else (Inl (PgErr err), close_cleanupDone (pc\<lparr>pc_status := connStatusClosed\<rparr>)))
      | BM_NoticeResponse m \<Rightarrow>
          (Inr msg, if pc_OnNotice pc then pc\<lparr>pc_notices := pc_notices pc @ [noticeResponseToNotice m]\<rparr> else pc)
      | BM_NotificationResponse m \<Rightarrow>
          (Inr msg,
           if pc_OnNotification pc
           then pc\<lparr>pc_notifications := pc_notifications pc @
                  [\<lparr>n_PID = nr_PID m, n_Channel = nr_Channel m, n_Payload = nr_Payload m\<rparr>]\<rparr>
           else pc)
      | _ \<Rightarrow> (Inr msg, pc))"

definition receiveMessage :: "PgConn \<Rightarrow> (conn_err + BackendMessage) \<times> PgConn" where
  "receiveMessage pc =
     (if pc_status pc = connStatusClosed then (Inl (ConnLockErr ''conn closed''), pc)
      else
        case peekMessage pc of
          (Inl err, pc) \<Rightarrow> (Inl err, pc)
        | (Inr msg, pc) \<Rightarrow> handle_message msg (pc\<lparr>pc_peekedMsg := None\<rparr>))"

text \<open>What is still to be received, as a measure.\<close>

definition conn_left :: "PgConn \<Rightarrow> nat" where
  "conn_left pc =
     fe_left (pc_frontend pc) + (if pc_peekedMsg pc = None then 0 else 1) + (if pc_bufferingReceive pc then 1 else 0)"

section \<open>What receiving does to the state\<close>

lemmas conn_basic_defs = conn_panic_def close_cleanupDone_def asyncClose_def ctx_Watch_def ctx_Unwatch_def
  ctx_begin_def ctx_end_def conn_unlock_def fe_send_def

lemma conn_Receive_left: "conn_Receive pc = (Inr m, pc') \<Longrightarrow> conn_left pc' < conn_left pc"
  by (auto simp: conn_Receive_def conn_left_def Let_def dest: Frontend_Receive_left split: prod.splits)

lemma buffered_Receive_left:
  "buffered_Receive pc = (Inr m, pc') \<Longrightarrow> conn_left pc' < conn_left pc \<and> pc_peekedMsg pc' = pc_peekedMsg pc"
  using conn_Receive_left [of "pc\<lparr>pc_bufferingReceive := False\<rparr>" m pc'] conn_Receive_left [of pc m pc']
  by (auto simp: buffered_Receive_def conn_left_def conn_Receive_def Let_def split: if_splits sum.splits prod.splits)

lemma peekMessage_left:
  "peekMessage pc = (Inr m, pc') \<Longrightarrow> conn_left pc' \<le> conn_left pc \<and> pc_peekedMsg pc' = Some m"
  using buffered_Receive_left [of pc]
  by (fastforce simp: peekMessage_def conn_left_def split: option.splits sum.splits prod.splits if_splits)

lemma conn_Receive_mono: "conn_Receive pc = (r, pc') \<Longrightarrow> conn_left pc' \<le> conn_left pc"
  by (auto simp: conn_Receive_def conn_left_def Let_def dest: Frontend_Receive_mono split: prod.splits)

lemma peekMessage_mono:
  assumes "peekMessage pc = (r, pc')"
  shows "conn_left pc' \<le> conn_left pc"
proof (cases r)
  case (Inr m)
  with assms peekMessage_left show ?thesis by blast
next
  case (Inl e)
  have "conn_left pc2 \<le> conn_left pc" if "buffered_Receive pc = (Inl e', pc2)" for e' pc2
    using that conn_Receive_mono [of pc "Inl e'" pc2] conn_Receive_mono [of "pc\<lparr>pc_bufferingReceive := False\<rparr>" "Inl e'" pc2]
    by (auto simp: buffered_Receive_def conn_left_def Let_def split: if_splits sum.splits)
  moreover have "conn_left (asyncClose pc2) = conn_left pc2" for pc2
    by (simp add: conn_left_def conn_basic_defs)
  ultimately show ?thesis
    using assms Inl by (fastforce simp: peekMessage_def split: option.splits prod.splits sum.splits if_splits)
qed

lemma handle_message_left: "conn_left (snd (handle_message m pc)) = conn_left pc"
  by (cases m) (auto simp: handle_message_def conn_left_def Let_def split: option.splits)

lemma receiveMessage_left:
  assumes "receiveMessage pc = (Inr m, pc')"
  shows "conn_left pc' < conn_left pc"
proof -
  from assms obtain m1 pc1 where p: "peekMessage pc = (Inr m1, pc1)"
    "handle_message m1 (pc1\<lparr>pc_peekedMsg := None\<rparr>) = (Inr m, pc')"
    by (auto simp: receiveMessage_def split: if_splits prod.splits sum.splits)
  from peekMessage_left [OF p(1)] have "conn_left (pc1\<lparr>pc_peekedMsg := None\<rparr>) < conn_left pc"
    by (auto simp: conn_left_def)
  with handle_message_left [of m1 "pc1\<lparr>pc_peekedMsg := None\<rparr>"] p(2) show ?thesis by simp
qed

lemma receiveMessage_mono: "receiveMessage pc = (r, pc') \<Longrightarrow> conn_left pc' \<le> conn_left pc"
proof (cases "isl (fst (peekMessage pc)) \<or> pc_status pc = connStatusClosed")
  case True
  assume "receiveMessage pc = (r, pc')"
  with True peekMessage_mono [of pc] show ?thesis
    by (auto simp: receiveMessage_def split: if_splits prod.splits sum.splits)
next
  case False
  assume a: "receiveMessage pc = (r, pc')"
  obtain m pc1 where p: "peekMessage pc = (Inr m, pc1)"
    using False by (cases "peekMessage pc"; cases "fst (peekMessage pc)") auto
  with a False have "handle_message m (pc1\<lparr>pc_peekedMsg := None\<rparr>) = (r, pc')"
    by (simp add: receiveMessage_def)
  with peekMessage_left [OF p] handle_message_left [of m "pc1\<lparr>pc_peekedMsg := None\<rparr>"] show ?thesis
    by (auto simp: conn_left_def)
qed

text \<open>Receiving touches neither the readers nor the watch, and the only status it sets is \<open>closed\<close>.\<close>

definition receive_frame :: "PgConn \<Rightarrow> PgConn \<Rightarrow> bool" where
  "receive_frame pc pc' \<longleftrightarrow>
     pc_resultReader pc' = pc_resultReader pc \<and> pc_multiResultReader pc' = pc_multiResultReader pc
   \<and> pc_pipeline pc' = pc_pipeline pc \<and> pc_watching pc' = pc_watching pc
   \<and> pc_fieldDescriptions pc' = pc_fieldDescriptions pc \<and> pc_OnPgError pc' = pc_OnPgError pc
   \<and> (pc_status pc' = pc_status pc \<or> pc_status pc' = connStatusClosed)
   \<and> ep_w (pc_frontend pc') = ep_w (pc_frontend pc)"

lemma receive_frame_refl: "receive_frame pc pc"
  by (simp add: receive_frame_def)

lemma receive_frame_trans: "receive_frame a b \<Longrightarrow> receive_frame b c \<Longrightarrow> receive_frame a c"
  by (auto simp: receive_frame_def)

lemma receive_header_writer: "receive_header nxt f = (e, f') \<Longrightarrow> ep_w f' = ep_w f"
  by (auto simp: receive_header_def Let_def split: if_splits prod.splits sum.splits)

lemma receive_body_writer: "receive_body nxt f = (r, f') \<Longrightarrow> ep_w f' = ep_w f"
  by (auto simp: receive_body_def split: prod.splits sum.splits)

lemma Frontend_decode_writer: "Frontend_decode t b f = (r, f') \<Longrightarrow> ep_w f' = ep_w f"
  by (subst Frontend_decode_safe(2), assumption) simp

lemma Frontend_Receive_writer: "Frontend_Receive nxt f = (r, f') \<Longrightarrow> ep_w f' = ep_w f"
  by (erule Frontend_Receive_cases) (metis receive_header_writer receive_body_writer Frontend_decode_writer)+

lemma conn_Receive_frame: "conn_Receive pc = (r, pc') \<Longrightarrow> receive_frame pc pc'"
  by (auto simp: conn_Receive_def receive_frame_def Let_def dest: Frontend_Receive_writer split: prod.splits)

lemma buffered_Receive_frame: "buffered_Receive pc = (r, pc') \<Longrightarrow> receive_frame pc pc'"
  using conn_Receive_frame [of "pc\<lparr>pc_bufferingReceive := False\<rparr>" r pc'] conn_Receive_frame [of pc r pc']
  by (auto simp: buffered_Receive_def receive_frame_def Let_def split: if_splits sum.splits)

lemma asyncClose_frame: "receive_frame pc (asyncClose pc)"
  by (simp add: receive_frame_def conn_basic_defs)

lemma peekMessage_frame: "peekMessage pc = (r, pc') \<Longrightarrow> receive_frame pc pc'"
  using buffered_Receive_frame [of pc] asyncClose_frame
  by (auto simp: peekMessage_def receive_frame_refl intro: receive_frame_trans split: option.splits sum.splits prod.splits if_splits)
    (auto simp: receive_frame_def)

lemma handle_message_frame: "handle_message m pc = (r, pc') \<Longrightarrow> receive_frame pc pc'"
  by (cases m) (auto simp: handle_message_def receive_frame_def Let_def split: option.splits if_splits)

lemma receiveMessage_frame:
  assumes "receiveMessage pc = (r, pc')"
  shows "receive_frame pc pc'"
proof (cases "pc_status pc = connStatusClosed \<or> isl (fst (peekMessage pc))")
  case True
  with assms show ?thesis
    by (auto simp: receiveMessage_def receive_frame_refl peekMessage_frame split: if_splits prod.splits sum.splits)
next
  case False
  then obtain m pc1 where p: "peekMessage pc = (Inr m, pc1)"
    by (cases "peekMessage pc"; cases "fst (peekMessage pc)") auto
  with assms False have "handle_message m (pc1\<lparr>pc_peekedMsg := None\<rparr>) = (r, pc')"
    by (simp add: receiveMessage_def)
  from handle_message_frame [OF this] peekMessage_frame [OF p] show ?thesis
    by (auto simp: receive_frame_def)
qed

section \<open>The invariant of a connection\<close>

text \<open>
  No panic has happened, the clean-up channel is closed exactly if the connection is, and the reader is well
  formed. Between commands, moreover, nothing is watched, peeked or buffered unless the connection is busy
  or closed.
\<close>

definition conn_sound :: "PgConn \<Rightarrow> bool" where
  "conn_sound pc \<longleftrightarrow>
     pc_panics pc = [] \<and> (pc_status pc = connStatusClosed \<longleftrightarrow> pc_cleanupDone pc)
   \<and> wf_chunkReader (ep_cr (pc_frontend pc)) \<and> (pc_bufferingReceive pc \<longrightarrow> safe (pc_bufferingReceiveMsg pc))"

definition conn_ok :: "PgConn \<Rightarrow> bool" where
  "conn_ok pc \<longleftrightarrow>
     conn_sound pc \<and> (pc_watching pc \<longrightarrow> pc_status pc = connStatusBusy \<or> pc_status pc = connStatusClosed)
   \<and> (pc_peekedMsg pc \<noteq> None \<longrightarrow> pc_status pc = connStatusBusy \<or> pc_status pc = connStatusClosed)
   \<and> (pc_bufferingReceive pc \<longrightarrow> pc_status pc = connStatusClosed)"

lemma conn_Receive_sound:
  assumes "conn_sound pc" and "conn_Receive pc = (r, pc')"
  shows "conn_sound pc' \<and> safe r \<and> pc' = pc\<lparr>pc_frontend := pc_frontend pc'\<rparr>"
  using assms chunks.Frontend_Receive_safe [of "pc_frontend pc"]
  by (auto simp: conn_Receive_def conn_sound_def Let_def split: prod.splits)

lemma buffered_Receive_sound:
  assumes "conn_sound pc" and "buffered_Receive pc = (r, pc')"
  shows "conn_sound pc' \<and> safe r \<and> \<not> pc_bufferingReceive pc'"
proof -
  let ?pc = "pc\<lparr>pc_bufferingReceive := False\<rparr>"
  have s: "conn_sound ?pc"
    using assms(1) by (simp add: conn_sound_def)
  have keep: "pc_bufferingReceive pc2 = pc_bufferingReceive pc1" if "conn_Receive pc1 = (r, pc2)" for pc1 pc2
    using that by (auto simp: conn_Receive_def Let_def split: prod.splits)
  show ?thesis
  proof (cases "pc_bufferingReceive pc")
    case False
    with assms conn_Receive_sound [OF assms(1)] keep [of pc pc'] show ?thesis
      by (simp add: buffered_Receive_def)
  next
    case True
    then have b: "safe (pc_bufferingReceiveMsg pc)" using assms(1) by (simp add: conn_sound_def)
    show ?thesis
    proof (cases "\<exists>e. pc_bufferingReceiveMsg pc = Inl e \<and> goerr_Timeout e")
      case timeout: True
      with True assms(2) have "conn_Receive ?pc = (r, pc')"
        by (auto simp: buffered_Receive_def)
      with conn_Receive_sound [OF s] keep [of ?pc pc'] show ?thesis by auto
    next
      case False
      with True assms(2) have "r = pc_bufferingReceiveMsg pc" "pc' = ?pc"
        by (auto simp: buffered_Receive_def Let_def split: sum.splits if_splits)
      with b s show ?thesis by simp
    qed
  qed
qed

lemma asyncClose_sound: "conn_sound pc \<Longrightarrow> conn_sound (asyncClose pc) \<and> pc_status (asyncClose pc) = connStatusClosed"
  by (simp add: conn_sound_def conn_basic_defs)

lemma peekMessage_sound:
  assumes "conn_sound pc" and "peekMessage pc = (r, pc')"
  shows "conn_sound pc' \<and> r \<noteq> Inl (NetErr GoPanic) \<and> (pc_peekedMsg pc = None \<longrightarrow> \<not> pc_bufferingReceive pc')
    \<and> (pc_bufferingReceive pc' \<longrightarrow> pc_bufferingReceive pc)"
proof (cases "pc_peekedMsg pc")
  case None
  obtain b pc1 where b: "buffered_Receive pc = (b, pc1)" by fastforce
  show ?thesis
    using assms(2) None b buffered_Receive_sound [OF assms(1) b] asyncClose_sound [of pc1]
    by (auto simp: peekMessage_def conn_sound_def conn_basic_defs split: sum.splits if_splits)
qed (use assms in \<open>auto simp: peekMessage_def\<close>)

lemma handle_message_sound:
  assumes "conn_sound pc" and "pc_status pc \<noteq> connStatusClosed" and "handle_message m pc = (r, pc')"
  shows "conn_sound pc' \<and> r \<noteq> Inl (NetErr GoPanic) \<and> pc_bufferingReceive pc' = pc_bufferingReceive pc"
  using assms
  by (cases m) (auto simp: handle_message_def conn_sound_def close_cleanupDone_def Let_def split: option.splits if_splits)

lemma receiveMessage_sound:
  assumes "conn_sound pc" and "receiveMessage pc = (r, pc')"
  shows "conn_sound pc' \<and> r \<noteq> Inl (NetErr GoPanic) \<and> (pc_bufferingReceive pc' \<longrightarrow> pc_bufferingReceive pc)"
proof (cases "pc_status pc = connStatusClosed")
  case True
  with assms show ?thesis by (auto simp: receiveMessage_def)
next
  case open_conn: False
  obtain p pc1 where p: "peekMessage pc = (p, pc1)" by fastforce
  note s = peekMessage_sound [OF assms(1) p]
  show ?thesis
  proof (cases p)
    case (Inl e)
    with s p assms(2) open_conn show ?thesis by (auto simp: receiveMessage_def)
  next
    case (Inr m)
    let ?pc = "pc1\<lparr>pc_peekedMsg := None\<rparr>"
    have "pc_status pc1 \<noteq> connStatusClosed"
      using p Inr open_conn by (auto simp: peekMessage_def buffered_Receive_def conn_Receive_def Let_def
          split: option.splits prod.splits sum.splits if_splits)
    with s p Inr assms(2) open_conn handle_message_sound [of ?pc m r pc'] show ?thesis
      by (auto simp: receiveMessage_def conn_sound_def)
  qed
qed

lemma buffered_Receive_peeked: "buffered_Receive pc = (r, pc') \<Longrightarrow> pc_peekedMsg pc' = pc_peekedMsg pc"
  by (auto simp: buffered_Receive_def conn_Receive_def Let_def split: if_splits sum.splits prod.splits)

lemma handle_message_peeked: "handle_message m pc = (r, pc') \<Longrightarrow> pc_peekedMsg pc' = pc_peekedMsg pc"
  by (cases m) (auto simp: handle_message_def Let_def split: option.splits if_splits)

text \<open>A message is peeked only until it is received.\<close>

lemma peekMessage_peeked:
  assumes "peekMessage pc = (r, pc')"
  shows "isl r \<Longrightarrow> pc_peekedMsg pc' = None"
  using assms buffered_Receive_peeked [of pc]
  by (auto simp: peekMessage_def split: option.splits prod.splits sum.splits if_splits)

lemma receiveMessage_peeked:
  assumes "receiveMessage pc = (r, pc')"
  shows "pc_peekedMsg pc' = None \<or> isl r \<and> pc_peekedMsg pc' = pc_peekedMsg pc"
proof (cases "pc_status pc = connStatusClosed \<or> isl (fst (peekMessage pc))")
  case True
  obtain p pc1 where p: "peekMessage pc = (p, pc1)" by fastforce
  with True assms peekMessage_peeked [OF p] show ?thesis
    by (cases p) (auto simp: receiveMessage_def split: if_splits)
next
  case False
  then obtain m pc1 where "peekMessage pc = (Inr m, pc1)"
    by (cases "peekMessage pc"; cases "fst (peekMessage pc)") auto
  with assms False have "handle_message m (pc1\<lparr>pc_peekedMsg := None\<rparr>) = (r, pc')"
    by (simp add: receiveMessage_def)
  from handle_message_peeked [OF this] show ?thesis by simp
qed

lemma receiveMessage_ok:
  assumes "conn_ok pc" and "receiveMessage pc = (r, pc')"
  shows "conn_ok pc' \<and> r \<noteq> Inl (NetErr GoPanic)"
proof -
  have "conn_sound pc" using assms(1) by (simp add: conn_ok_def)
  with receiveMessage_sound [OF this assms(2)] receiveMessage_frame [OF assms(2)] receiveMessage_peeked [OF assms(2)]
    assms(1)
  show ?thesis by (auto simp: conn_ok_def receive_frame_def)
qed

lemma peekMessage_ok:
  assumes "conn_ok pc" and "pc_status pc = connStatusBusy \<or> pc_status pc = connStatusClosed"
    and "peekMessage pc = (r, pc')"
  shows "conn_ok pc'"
proof -
  have "conn_sound pc" using assms(1) by (simp add: conn_ok_def)
  with peekMessage_sound [OF this assms(3)] peekMessage_frame [OF assms(3)] assms(1,2) show ?thesis
    by (auto simp: conn_ok_def receive_frame_def)
qed

lemma conn_lock_ok:
  assumes "conn_ok pc" and "conn_lock pc = (e, pc')"
  shows "conn_ok pc'"
    and "e = None \<Longrightarrow> pc_status pc' = connStatusBusy \<and> \<not> pc_watching pc' \<and> \<not> pc_bufferingReceive pc'
      \<and> pc_peekedMsg pc' = None"
    and "e \<noteq> None \<Longrightarrow> pc' = pc \<and> pc_status pc' \<noteq> connStatusIdle"
    and "e = None \<Longrightarrow> pc' = pc\<lparr>pc_status := connStatusBusy\<rparr>"
  using assms by (auto simp: conn_lock_def conn_ok_def conn_sound_def split: connStatus.splits)

lemma conn_unlock_ok:
  assumes "conn_ok pc" and "pc_status pc = connStatusBusy \<or> pc_status pc = connStatusClosed" and "\<not> pc_watching pc"
    and "pc_peekedMsg pc = None"
  shows "conn_ok (conn_unlock pc)" and "pc_status (conn_unlock pc) = connStatusIdle \<or> pc_status (conn_unlock pc) = connStatusClosed"
  using assms by (auto simp: conn_unlock_def conn_ok_def conn_sound_def)

lemma asyncClose_ok: "conn_ok pc \<Longrightarrow> conn_ok (asyncClose pc)"
  by (auto simp: conn_ok_def conn_sound_def conn_basic_defs)

lemma asyncClose_status [simp]: "pc_status (asyncClose pc) = connStatusClosed"
  by (simp add: conn_basic_defs)

lemma ctx_Unwatch_ok: "conn_ok pc \<Longrightarrow> conn_ok (ctx_Unwatch pc)"
  by (auto simp: ctx_Unwatch_def conn_ok_def conn_sound_def)

lemma ctx_end_ok: "conn_ok pc \<Longrightarrow> conn_ok (ctx_end c pc)"
  by (simp add: ctx_end_def ctx_Unwatch_ok)

lemma ctx_begin_ok:
  assumes "conn_ok pc" and "pc_status pc = connStatusBusy" and "\<not> pc_watching pc" and "ctx_begin c pc = (e, pc')"
  shows "conn_ok pc'" and "pc_status pc' = connStatusBusy" and "e \<noteq> None \<Longrightarrow> pc' = pc"
    and "\<not> pc_watching (ctx_end c pc')" and "pc' = pc\<lparr>pc_watching := pc_watching pc'\<rparr>"
    and "pc_watching pc' \<Longrightarrow> \<not> ctx_Background c"
  using assms by (auto simp: ctx_begin_def ctx_end_def conn_ok_def conn_sound_def ctx_Watch_def ctx_Unwatch_def
      split: if_splits)

text \<open>Sending and flushing leave the reading side alone.\<close>

lemma endpoint_Send_reading:
  "endpoint_Send enc s = s\<lparr>ep_wbuf := ep_wbuf (endpoint_Send enc s), ep_encodeError := ep_encodeError (endpoint_Send enc s)\<rparr>"
  by (auto simp: endpoint_Send_def split: sum.splits)

lemma Flush_reading:
  "Frontend_Flush s = (e, s') \<Longrightarrow>
     s' = s\<lparr>ep_wbuf := ep_wbuf s', ep_encodeError := ep_encodeError s', ep_w := ep_w s'\<rparr>"
  by (auto simp: Frontend_Flush_def endpoint_write_def split: option.splits if_splits prod.splits)

lemma conn_flush_ok:
  assumes "conn_flush pc = (e, pc')"
  shows "conn_ok pc' = conn_ok pc" and "pc' = pc\<lparr>pc_frontend := pc_frontend pc'\<rparr>"
    and "ep_cr (pc_frontend pc') = ep_cr (pc_frontend pc)"
proof -
  obtain e1 f where f: "Frontend_Flush (pc_frontend pc) = (e1, f)" by fastforce
  have r: "ep_cr f = ep_cr (pc_frontend pc)" by (subst Flush_reading [OF f]) simp
  have pc': "pc' = pc\<lparr>pc_frontend := f\<rparr>" using assms f by (simp add: conn_flush_def)
  show "conn_ok pc' = conn_ok pc" by (simp add: pc' r conn_ok_def conn_sound_def)
  show "pc' = pc\<lparr>pc_frontend := pc_frontend pc'\<rparr>" "ep_cr (pc_frontend pc') = ep_cr (pc_frontend pc)"
    by (simp_all add: pc' r)
qed

section \<open>The messages that a connection will deliver\<close>

definition conn_delivers :: "PgConn \<Rightarrow> BackendMessage list \<Rightarrow> bool" where
  "conn_delivers pc ms \<longleftrightarrow>
     (case pc_peekedMsg pc of
        None \<Rightarrow> frontend_expects cr_stream wf_chunkReader (pc_frontend pc) ms
      | Some m \<Rightarrow> (\<exists>ms'. ms = m # ms' \<and> frontend_expects cr_stream wf_chunkReader (pc_frontend pc) ms'))
   \<and> reliable_reader (cr_r (ep_cr (pc_frontend pc))) \<and> \<not> pc_bufferingReceive pc"

lemma conn_delivers_cong:
  "pc_frontend pc' = pc_frontend pc \<Longrightarrow> pc_peekedMsg pc' = pc_peekedMsg pc \<Longrightarrow>
   pc_bufferingReceive pc' = pc_bufferingReceive pc \<Longrightarrow> conn_delivers pc' ms = conn_delivers pc ms"
  by (cases "pc_peekedMsg pc") (simp_all add: conn_delivers_def)

lemma conn_Receive_delivers:
  assumes "frontend_expects cr_stream wf_chunkReader (pc_frontend pc) (m # ms)"
    and "reliable_reader (cr_r (ep_cr (pc_frontend pc)))"
  shows "\<exists>f. conn_Receive pc = (Inr m, pc\<lparr>pc_frontend := f\<rparr>) \<and> frontend_expects cr_stream wf_chunkReader f ms
    \<and> reliable_reader (cr_r (ep_cr f))"
proof -
  obtain m' f where f: "Frontend_Receive chunkReader_Next (pc_frontend pc) = (Inr m', f)"
    "reader_faults (cr_r (ep_cr f)) = 0"
    using chunks.fe.recv_live [OF assms(1)] assms(2) by (auto simp: reliable_faults)
  then show ?thesis
    using chunks.fe.recv_Inr [OF assms(1) f(1)] by (auto simp: conn_Receive_def reliable_faults)
qed

lemma peekMessage_delivers:
  assumes "conn_delivers pc (m # ms)"
  shows "\<exists>f. peekMessage pc = (Inr m, pc\<lparr>pc_frontend := f, pc_peekedMsg := Some m\<rparr>)
    \<and> conn_delivers (pc\<lparr>pc_frontend := f, pc_peekedMsg := Some m\<rparr>) (m # ms)"
proof (cases "pc_peekedMsg pc")
  case None
  with assms conn_Receive_delivers [of pc m ms] obtain f
    where "conn_Receive pc = (Inr m, pc\<lparr>pc_frontend := f\<rparr>)" "frontend_expects cr_stream wf_chunkReader f ms"
      "reliable_reader (cr_r (ep_cr f))"
    by (auto simp: conn_delivers_def)
  with None assms show ?thesis
    by (intro exI [of _ f]) (simp add: peekMessage_def buffered_Receive_def conn_delivers_def)
next
  case (Some m')
  with assms have "m' = m" by (simp add: conn_delivers_def)
  with Some assms show ?thesis
    by (intro exI [of _ "pc_frontend pc"]) (simp add: peekMessage_def conn_delivers_def)
qed

lemma receiveMessage_delivers:
  assumes "conn_delivers pc (m # ms)" and "pc_status pc \<noteq> connStatusClosed"
  shows "\<exists>f. receiveMessage pc = handle_message m (pc\<lparr>pc_frontend := f, pc_peekedMsg := None\<rparr>)
    \<and> conn_delivers (pc\<lparr>pc_frontend := f, pc_peekedMsg := None\<rparr>) ms"
proof -
  obtain f where f: "peekMessage pc = (Inr m, pc\<lparr>pc_frontend := f, pc_peekedMsg := Some m\<rparr>)"
    "conn_delivers (pc\<lparr>pc_frontend := f, pc_peekedMsg := Some m\<rparr>) (m # ms)"
    using peekMessage_delivers [OF assms(1)] by blast
  with assms(2) show ?thesis
    by (intro exI [of _ f]) (simp add: receiveMessage_def conn_delivers_def)
qed

end
