(* ===== verification/Pgconn_Results.thy ===== *)
theory Pgconn_Results
  imports Pgconn
begin

text \<open>
  The readers of results, \<open>ResultReader\<close> and \<open>MultiResultReader\<close> of \<open>pgconn/pgconn.go\<close>. Both are parts of the
  connection and are read through it. The loops over messages terminate because each message received
  shortens what is left to receive.
\<close>

section \<open>Command tags and field descriptions\<close>

definition NewCommandTag :: "bytes \<Rightarrow> CommandTag" where
  "NewCommandTag s = \<lparr>ct_s = s\<rparr>"

text \<open>The loop of \<open>RowsAffected\<close> from the last byte to the first, on 64-bit integers.\<close>

fun RowsAffected_loop :: "bytes \<Rightarrow> u64 \<Rightarrow> u64 \<Rightarrow> u64" where
  "RowsAffected_loop [] n m = n"
| "RowsAffected_loop (c # cs) n m =
     (if chr CHR ''0'' \<le> c \<and> c \<le> chr CHR ''9''
      then RowsAffected_loop cs (n + ucast (c - chr CHR ''0'') * m) (m * 10)
      else n)"

definition RowsAffected :: "CommandTag \<Rightarrow> u64" where
  "RowsAffected ct = RowsAffected_loop (rev (ct_s ct)) 0 1"

definition CommandTag_String :: "CommandTag \<Rightarrow> bytes" where
  "CommandTag_String ct = ct_s ct"

definition HasPrefix :: "bytes \<Rightarrow> bytes \<Rightarrow> bool" where
  "HasPrefix s p \<longleftrightarrow> take (length p) s = p"

definition CommandTag_Insert :: "CommandTag \<Rightarrow> bool" where
  "CommandTag_Insert ct = HasPrefix (ct_s ct) (str ''INSERT'')"

definition CommandTag_Update :: "CommandTag \<Rightarrow> bool" where
  "CommandTag_Update ct = HasPrefix (ct_s ct) (str ''UPDATE'')"

definition CommandTag_Delete :: "CommandTag \<Rightarrow> bool" where
  "CommandTag_Delete ct = HasPrefix (ct_s ct) (str ''DELETE'')"

definition CommandTag_Select :: "CommandTag \<Rightarrow> bool" where
  "CommandTag_Select ct = HasPrefix (ct_s ct) (str ''SELECT'')"

definition makeCommandTag :: "bytes \<Rightarrow> CommandTag" where
  "makeCommandTag buf = \<lparr>ct_s = buf\<rparr>"

definition convertRowDescription :: "RowDescription \<Rightarrow> pgconn_FieldDescription list" where
  "convertRowDescription rd = map (\<lambda>f.
     \<lparr>col_Name = fd_Name f, col_TableOID = fd_TableOID f, col_TableAttributeNumber = fd_TableAttributeNumber f,
      col_DataTypeOID = fd_DataTypeOID f, col_DataTypeSize = fd_DataTypeSize f,
      col_TypeModifier = fd_TypeModifier f, col_Format = fd_Format f\<rparr>) (rd_Fields rd)"

text \<open>
  The descriptions of up to 16 columns are written into an array of the connection; \<open>store_fields\<close> is that
  write, and \<open>getFieldDescriptionSlice\<close> what the slice holds before it.
\<close>

definition zero_field :: pgconn_FieldDescription where
  "zero_field = \<lparr>col_Name = [], col_TableOID = 0, col_TableAttributeNumber = 0, col_DataTypeOID = 0,
     col_DataTypeSize = 0, col_TypeModifier = 0, col_Format = 0\<rparr>"

definition getFieldDescriptionSlice :: "nat \<Rightarrow> PgConn \<Rightarrow> pgconn_FieldDescription list" where
  "getFieldDescriptionSlice n pc =
     (if 16 \<ge> n then take n (pc_fieldDescriptions pc) else replicate n zero_field)"

definition store_fields :: "pgconn_FieldDescription list \<Rightarrow> PgConn \<Rightarrow> PgConn" where
  "store_fields fds pc =
     (if 16 \<ge> length fds
      then pc\<lparr>pc_fieldDescriptions := fds @ drop (length fds) (pc_fieldDescriptions pc)\<rparr> else pc)"

lemma store_fields_fields [simp]:
  "pc_resultReader (store_fields fds pc) = pc_resultReader pc"
  "pc_multiResultReader (store_fields fds pc) = pc_multiResultReader pc"
  "pc_pipeline (store_fields fds pc) = pc_pipeline pc"
  "pc_frontend (store_fields fds pc) = pc_frontend pc"
  "pc_peekedMsg (store_fields fds pc) = pc_peekedMsg pc"
  "pc_bufferingReceive (store_fields fds pc) = pc_bufferingReceive pc"
  "pc_bufferingReceiveMsg (store_fields fds pc) = pc_bufferingReceiveMsg pc"
  "pc_OnPgError (store_fields fds pc) = pc_OnPgError pc"
  "pc_status (store_fields fds pc) = pc_status pc"
  "pc_watching (store_fields fds pc) = pc_watching pc"
  "pc_cleanupDone (store_fields fds pc) = pc_cleanupDone pc"
  "pc_panics (store_fields fds pc) = pc_panics pc"
  "pc_txStatus (store_fields fds pc) = pc_txStatus pc"
  by (simp_all add: store_fields_def)

definition combineFieldDescriptionsAndResultFormats ::
  "pgconn_FieldDescription list \<Rightarrow> u16 list \<Rightarrow> conn_err + pgconn_FieldDescription list" where
  "combineFieldDescriptionsAndResultFormats inputFields resultFormats =
     (if length resultFormats = 0 then
        Inr (map (\<lambda>f. f\<lparr>col_Format := 0\<rparr>) inputFields)
      else if length resultFormats = 1 then
        Inr (map (\<lambda>f. f\<lparr>col_Format := hd resultFormats\<rparr>) inputFields)
      else if length resultFormats = length inputFields then
        Inr (map2 (\<lambda>f format. f\<lparr>col_Format := format\<rparr>) inputFields resultFormats)
      else Inl (MsgErr ''result format codes length %d does not match field count %d''))"

section \<open>ResultReader\<close>

text \<open>
  \<open>ResultReader{}\<close> has no connection, and a nil context that nothing looks at: a reader without a connection is
  never read from, or is concluded already.
\<close>

definition no_ctx :: ctx where
  "no_ctx = \<lparr>ctx_Background = True, ctx_cancellable = False, ctx_done = None, ctx_Err = None\<rparr>"

definition zero_ResultReader :: ResultReader where
  "zero_ResultReader =
     \<lparr>rr_pgConn = False, rr_multiResultReader = False, rr_pipeline = False, rr_ctx = no_ctx,
      rr_fieldDescriptions = [], rr_rowValues = [], rr_commandTag = no_tag, rr_preloaded = False,
      rr_commandConcluded = False, rr_closed = False, rr_err = None\<rparr>"

definition new_ResultReader :: "ctx \<Rightarrow> ResultReader" where
  "new_ResultReader c =
     \<lparr>rr_pgConn = True, rr_multiResultReader = False, rr_pipeline = False, rr_ctx = c, rr_fieldDescriptions = [], rr_rowValues = [],
      rr_commandTag = no_tag, rr_preloaded = False, rr_commandConcluded = False, rr_closed = False, rr_err = None\<rparr>"

definition concludeCommand :: "CommandTag \<Rightarrow> conn_err option \<Rightarrow> ResultReader \<Rightarrow> ResultReader" where
  "concludeCommand commandTag err rr =
     (let rr = (if err \<noteq> None \<and> rr_err rr = None then rr\<lparr>rr_err := err\<rparr> else rr) in
      if rr_commandConcluded rr then rr
      else rr\<lparr>rr_commandTag := commandTag, rr_rowValues := [], rr_commandConcluded := True\<rparr>)"

definition mrr_receiveMessage :: "PgConn \<Rightarrow> (conn_err + BackendMessage) \<times> PgConn" where
  "mrr_receiveMessage pc =
     (case receiveMessage pc of
        (Inl err, pc) \<Rightarrow>
          (let err = normalizeTimeoutError (mrr_ctx (pc_multiResultReader pc)) err;
               pc = ctx_Unwatch pc;
               pc = upd_mrr (\<lambda>mrr. mrr\<lparr>mrr_err := Some err, mrr_closed := True\<rparr>) pc
           in (Inl err, asyncClose pc))
      | (Inr msg, pc) \<Rightarrow>
          (Inr msg,
           case msg of
             BM_ReadyForQuery _ \<Rightarrow> conn_unlock (ctx_Unwatch (upd_mrr (\<lambda>mrr. mrr\<lparr>mrr_closed := True\<rparr>) pc))
           | BM_ErrorResponse m \<Rightarrow> upd_mrr (\<lambda>mrr. mrr\<lparr>mrr_err := Some (PgErr (ErrorResponseToPgError m))\<rparr>) pc
           | _ \<Rightarrow> pc))"

definition HandleError :: "PgError \<Rightarrow> pipelineState \<Rightarrow> pipelineState" where
  "HandleError err s = s\<lparr>ps_pgErr := Some err\<rparr>"

definition rr_handle :: "BackendMessage \<Rightarrow> PgConn \<Rightarrow> PgConn" where
  "rr_handle msg pc =
     (case msg of
        BM_RowDescription m \<Rightarrow>
          upd_rr (\<lambda>rr. rr\<lparr>rr_fieldDescriptions := convertRowDescription m\<rparr>) (store_fields (convertRowDescription m) pc)
      | BM_CommandComplete m \<Rightarrow> upd_rr (concludeCommand (makeCommandTag (cc_CommandTag m)) None) pc
      | BM_EmptyQueryResponse \<Rightarrow> upd_rr (concludeCommand no_tag None) pc
      | BM_ErrorResponse m \<Rightarrow>
          (let pgErr = ErrorResponseToPgError m;
               pc = (if rr_pipeline (pc_resultReader pc)
                     then upd_pl (\<lambda>p. p\<lparr>pl_state := HandleError pgErr (pl_state p)\<rparr>) pc else pc)
           in upd_rr (concludeCommand no_tag (Some (PgErr pgErr))) pc)
      | _ \<Rightarrow> pc)"

definition rr_receiveMessage :: "PgConn \<Rightarrow> (conn_err + BackendMessage) \<times> PgConn" where
  "rr_receiveMessage pc =
     (if \<not> rr_multiResultReader (pc_resultReader pc) \<and> \<not> rr_pgConn (pc_resultReader pc)
      then (Inl (NetErr GoPanic), conn_panic ''nil pointer dereference'' pc)
      else
        case (if rr_multiResultReader (pc_resultReader pc) then mrr_receiveMessage pc else receiveMessage pc) of
          (Inl err, pc) \<Rightarrow>
            (let err = normalizeTimeoutError (rr_ctx (pc_resultReader pc)) err;
                 pc = upd_rr (concludeCommand no_tag (Some err)) pc;
                 pc = ctx_Unwatch pc;
                 pc = upd_rr (\<lambda>rr. rr\<lparr>rr_closed := True\<rparr>) pc;
                 pc = (if rr_multiResultReader (pc_resultReader pc) then pc else asyncClose pc)
             in (Inl (case rr_err (pc_resultReader pc) of Some e \<Rightarrow> e | None \<Rightarrow> err), pc))
        | (Inr msg, pc) \<Rightarrow> (Inr msg, rr_handle msg pc))"

lemma conn_left_simps [simp]:
  "conn_left (pc\<lparr>pc_resultReader := rr\<rparr>) = conn_left pc"
  "conn_left (pc\<lparr>pc_multiResultReader := mrr\<rparr>) = conn_left pc"
  "conn_left (pc\<lparr>pc_pipeline := pl\<rparr>) = conn_left pc"
  "conn_left (asyncClose pc) = conn_left pc"
  "conn_left (ctx_Unwatch pc) = conn_left pc"
  "conn_left (conn_unlock pc) = conn_left pc"
  "conn_left (store_fields fds pc) = conn_left pc"
  "conn_left (conn_panic s pc) = conn_left pc"
  by (auto simp: conn_left_def conn_basic_defs store_fields_def split: connStatus.split)

lemma mrr_receiveMessage_left: "mrr_receiveMessage pc = (Inr m, pc') \<Longrightarrow> conn_left pc' < conn_left pc"
  by (auto simp: mrr_receiveMessage_def Let_def dest!: receiveMessage_left
      split: prod.splits sum.splits BackendMessage.splits)

lemma rr_handle_left [simp]: "conn_left (rr_handle m pc) = conn_left pc"
  by (simp add: rr_handle_def Let_def split: BackendMessage.split)

lemma rr_receiveMessage_left: "rr_receiveMessage pc = (Inr m, pc') \<Longrightarrow> conn_left pc' < conn_left pc"
  by (auto simp: rr_receiveMessage_def Let_def dest: receiveMessage_left mrr_receiveMessage_left
      split: prod.splits sum.splits if_splits)

text \<open>The type assertion \<open>msg.(*pgproto3.DataRow)\<close>.\<close>

fun DataRow_of :: "BackendMessage \<Rightarrow> bytes option list option" where
  "DataRow_of (BM_DataRow values) = Some values"
| "DataRow_of _ = None"

function NextRow_loop :: "PgConn \<Rightarrow> bool \<times> PgConn" where
  "NextRow_loop pc =
     (if rr_commandConcluded (pc_resultReader pc) then (False, pc)
      else
        case rr_receiveMessage pc of
          (Inl _, pc') \<Rightarrow> (False, pc')
        | (Inr msg, pc') \<Rightarrow>
            (case DataRow_of msg of
               Some values \<Rightarrow> (True, upd_rr (\<lambda>rr. rr\<lparr>rr_rowValues := values\<rparr>) pc')
             | None \<Rightarrow> NextRow_loop pc'))"
  by auto
termination
  by (relation "measure conn_left") (auto dest: rr_receiveMessage_left [OF sym])

declare NextRow_loop.simps [simp del]

definition NextRow :: "PgConn \<Rightarrow> bool \<times> PgConn" where
  "NextRow pc =
     (if rr_preloaded (pc_resultReader pc) then (True, upd_rr (\<lambda>rr. rr\<lparr>rr_preloaded := False\<rparr>) pc)
      else NextRow_loop pc)"

definition preloadRowValues :: "bytes option list \<Rightarrow> ResultReader \<Rightarrow> ResultReader" where
  "preloadRowValues values rr = rr\<lparr>rr_rowValues := values, rr_preloaded := True\<rparr>"

text \<open>The two loops of \<open>Close\<close>: up to the end of the command, and up to \<open>ReadyForQuery\<close>.\<close>

function Close_loop :: "PgConn \<Rightarrow> conn_err option \<times> PgConn" where
  "Close_loop pc =
     (if rr_commandConcluded (pc_resultReader pc) then (None, pc)
      else
        case rr_receiveMessage pc of
          (Inl err, pc') \<Rightarrow> (Some err, pc')
        | (Inr _, pc') \<Rightarrow> Close_loop pc')"
  by auto
termination
  by (relation "measure conn_left") (auto dest: rr_receiveMessage_left [OF sym])

declare Close_loop.simps [simp del]

function Close_ready_loop :: "PgConn \<Rightarrow> (CommandTag \<times> conn_err option) \<times> PgConn" where
  "Close_ready_loop pc =
     (case rr_receiveMessage pc of
        (Inl _, pc') \<Rightarrow> ((no_tag, rr_err (pc_resultReader pc')), pc')
      | (Inr msg, pc') \<Rightarrow>
          (case msg of
             BM_ErrorResponse m \<Rightarrow>
               Close_ready_loop (upd_rr (\<lambda>rr. rr\<lparr>rr_err := Some (PgErr (ErrorResponseToPgError m))\<rparr>) pc')
           | BM_ReadyForQuery _ \<Rightarrow>
               (let pc' = conn_unlock (ctx_Unwatch pc')
                in ((rr_commandTag (pc_resultReader pc'), rr_err (pc_resultReader pc')), pc'))
           | _ \<Rightarrow> Close_ready_loop pc'))"
  by pat_completeness auto
termination
  by (relation "measure conn_left") (auto dest: rr_receiveMessage_left [OF sym])

declare Close_ready_loop.simps [simp del]

definition ResultReader_Close :: "PgConn \<Rightarrow> (CommandTag \<times> conn_err option) \<times> PgConn" where
  "ResultReader_Close pc =
     (if rr_closed (pc_resultReader pc)
      then ((rr_commandTag (pc_resultReader pc), rr_err (pc_resultReader pc)), pc)
      else
        case Close_loop (upd_rr (\<lambda>rr. rr\<lparr>rr_closed := True\<rparr>) pc) of
          (Some _, pc) \<Rightarrow> ((no_tag, rr_err (pc_resultReader pc)), pc)
        | (None, pc) \<Rightarrow>
            if \<not> rr_multiResultReader (pc_resultReader pc) \<and> \<not> rr_pipeline (pc_resultReader pc)
            then Close_ready_loop pc
            else ((rr_commandTag (pc_resultReader pc), rr_err (pc_resultReader pc)), pc))"

text \<open>\<open>Read\<close>: all rows, then \<open>Close\<close>.\<close>

record Result =
  res_FieldDescriptions :: "pgconn_FieldDescription list option"
  res_Rows :: "bytes option list list"
  res_CommandTag :: CommandTag
  res_Err :: "conn_err option"

definition add_row :: "PgConn \<Rightarrow> Result \<Rightarrow> Result" where
  "add_row pc br =
     br\<lparr>res_FieldDescriptions := (case res_FieldDescriptions br of
          None \<Rightarrow> Some (rr_fieldDescriptions (pc_resultReader pc)) | fds \<Rightarrow> fds),
        res_Rows := res_Rows br @ [rr_rowValues (pc_resultReader pc)]\<rparr>"

lemma NextRow_loop_left: "NextRow_loop pc = (b, pc') \<Longrightarrow> (b \<longrightarrow> conn_left pc' < conn_left pc)"
proof (induction pc rule: NextRow_loop.induct)
  case (1 pc)
  show ?case
    using "1.prems" "1.IH" rr_receiveMessage_left [of pc]
    by (subst (asm) NextRow_loop.simps)
      (fastforce split: if_splits prod.splits sum.splits option.splits)
qed

text \<open>What a result reader is for does not change while it reads.\<close>

definition rr_frame :: "PgConn \<Rightarrow> PgConn \<Rightarrow> bool" where
  "rr_frame pc pc' \<longleftrightarrow>
     rr_pgConn (pc_resultReader pc') = rr_pgConn (pc_resultReader pc)
   \<and> rr_multiResultReader (pc_resultReader pc') = rr_multiResultReader (pc_resultReader pc)
   \<and> rr_pipeline (pc_resultReader pc') = rr_pipeline (pc_resultReader pc)
   \<and> rr_ctx (pc_resultReader pc') = rr_ctx (pc_resultReader pc)
   \<and> rr_preloaded (pc_resultReader pc') = rr_preloaded (pc_resultReader pc)
   \<and> mrr_statementDescriptions (pc_multiResultReader pc') = mrr_statementDescriptions (pc_multiResultReader pc)
   \<and> mrr_resultFormats (pc_multiResultReader pc') = mrr_resultFormats (pc_multiResultReader pc)
   \<and> mrr_ctx (pc_multiResultReader pc') = mrr_ctx (pc_multiResultReader pc)
   \<and> pc_OnPgError pc' = pc_OnPgError pc \<and> ep_w (pc_frontend pc') = ep_w (pc_frontend pc)
   \<and> (rr_closed (pc_resultReader pc) \<longrightarrow> rr_closed (pc_resultReader pc'))"

lemma rr_frame_trans: "rr_frame a b \<Longrightarrow> rr_frame b c \<Longrightarrow> rr_frame a c"
  by (simp add: rr_frame_def)

lemma rr_frame_refl: "rr_frame pc pc"
  by (simp add: rr_frame_def)

lemma receive_frame_rr: "receive_frame pc pc' \<Longrightarrow> rr_frame pc pc'"
  by (simp add: receive_frame_def rr_frame_def)

lemma concludeCommand_keeps [simp]:
  "rr_pgConn (concludeCommand t e rr) = rr_pgConn rr"
  "rr_multiResultReader (concludeCommand t e rr) = rr_multiResultReader rr"
  "rr_pipeline (concludeCommand t e rr) = rr_pipeline rr"
  "rr_ctx (concludeCommand t e rr) = rr_ctx rr"
  "rr_preloaded (concludeCommand t e rr) = rr_preloaded rr"
  "rr_closed (concludeCommand t e rr) = rr_closed rr"
  "rr_fieldDescriptions (concludeCommand t e rr) = rr_fieldDescriptions rr"
  "rr_commandConcluded (concludeCommand t e rr)"
  by (auto simp: concludeCommand_def Let_def)

lemma mrr_receiveMessage_frame:
  assumes "mrr_receiveMessage pc = (r, pc')"
  shows "rr_frame pc pc'"
proof -
  obtain r1 pc1 where r: "receiveMessage pc = (r1, pc1)" by fastforce
  have "rr_frame pc1 pc'"
  proof (cases r1)
    case (Inl err)
    with assms r show ?thesis by (auto simp: mrr_receiveMessage_def Let_def rr_frame_def)
  next
    case (Inr m)
    with assms r show ?thesis by (cases m) (auto simp: mrr_receiveMessage_def rr_frame_def)
  qed
  with receive_frame_rr [OF receiveMessage_frame [OF r]] show ?thesis by (rule rr_frame_trans)
qed

lemma rr_handle_frame: "rr_frame pc (rr_handle m pc)"
  by (simp add: rr_handle_def rr_frame_def Let_def store_fields_def split: BackendMessage.split)

lemma rr_receiveMessage_frame:
  assumes "rr_receiveMessage pc = (r, pc')"
  shows "rr_frame pc pc'"
proof (cases "rr_multiResultReader (pc_resultReader pc) \<or> rr_pgConn (pc_resultReader pc)")
  case False
  with assms show ?thesis by (auto simp: rr_receiveMessage_def rr_frame_def)
next
  case True
  obtain r1 pc1 where r: "(if rr_multiResultReader (pc_resultReader pc) then mrr_receiveMessage pc else receiveMessage pc) = (r1, pc1)"
    by fastforce
  then have f: "rr_frame pc pc1"
    by (auto dest: receiveMessage_frame receive_frame_rr mrr_receiveMessage_frame split: if_splits)
  show ?thesis
  proof (cases r1)
    case (Inl err)
    with assms r True have "rr_frame pc1 pc'"
      by (auto simp: rr_receiveMessage_def Let_def rr_frame_def conn_basic_defs split: if_splits)
    with f show ?thesis by (rule rr_frame_trans)
  next
    case (Inr m)
    with assms r True have "pc' = rr_handle m pc1" by (auto simp: rr_receiveMessage_def)
    with f rr_handle_frame show ?thesis by (metis rr_frame_trans)
  qed
qed

text \<open>
  A property that every message received by a result reader keeps is kept by its loops, which receive only
  until the command is concluded.
\<close>

lemma NextRow_loop_reads:
  assumes "\<And>pc r pc'. P pc \<Longrightarrow> \<not> rr_commandConcluded (pc_resultReader pc) \<Longrightarrow> rr_receiveMessage pc = (r, pc') \<Longrightarrow> P pc'"
    and "\<And>pc v. P pc \<Longrightarrow> P (upd_rr (\<lambda>rr. rr\<lparr>rr_rowValues := v\<rparr>) pc)"
  shows "P pc \<Longrightarrow> NextRow_loop pc = (b, pc') \<Longrightarrow> P pc'"
proof (induction pc rule: NextRow_loop.induct)
  case (1 pc)
  obtain r pc1 where r: "rr_receiveMessage pc = (r, pc1)" by fastforce
  note p = assms(1) [OF "1.prems"(1) _ r]
  show ?case
    using "1.prems" "1.IH" [OF _ r [symmetric]] p assms(2) [OF p]
    by (auto simp: NextRow_loop.simps [of pc] r split: if_splits sum.splits option.splits)
qed

lemma NextRow_loop_keeps:
  assumes "\<And>pc r pc'. P pc \<Longrightarrow> rr_receiveMessage pc = (r, pc') \<Longrightarrow> P pc'"
    and "\<And>pc v. P pc \<Longrightarrow> P (upd_rr (\<lambda>rr. rr\<lparr>rr_rowValues := v\<rparr>) pc)"
  shows "P pc \<Longrightarrow> NextRow_loop pc = (b, pc') \<Longrightarrow> P pc'"
  by (rule NextRow_loop_reads [where P = P]) (use assms in blast)+

lemma NextRow_loop_frame: "NextRow_loop pc = (b, pc') \<Longrightarrow> rr_frame pc pc'"
  by (rule NextRow_loop_keeps [where P = "rr_frame pc"])
    (auto simp: rr_frame_refl dest: rr_receiveMessage_frame intro: rr_frame_trans, simp add: rr_frame_def)

definition read_left :: "PgConn \<Rightarrow> nat" where
  "read_left pc = conn_left pc + (if rr_preloaded (pc_resultReader pc) then 1 else 0)"

lemma NextRow_left: "NextRow pc = (True, pc') \<Longrightarrow> read_left pc' < read_left pc"
  using NextRow_loop_left [of pc True pc'] NextRow_loop_frame [of pc True pc']
  by (auto simp: NextRow_def rr_frame_def read_left_def split: if_splits)

function Read_loop :: "Result \<Rightarrow> PgConn \<Rightarrow> Result \<times> PgConn" where
  "Read_loop br pc =
     (case NextRow pc of
        (False, pc') \<Rightarrow> (br, pc')
      | (True, pc') \<Rightarrow> Read_loop (add_row pc' br) pc')"
  by auto
termination
  by (relation "measure (\<lambda>(_, pc). read_left pc)") (auto dest: NextRow_left [OF sym])

declare Read_loop.simps [simp del]

definition ResultReader_Read :: "PgConn \<Rightarrow> Result \<times> PgConn" where
  "ResultReader_Read pc =
     (let br = \<lparr>res_FieldDescriptions = None, res_Rows = [], res_CommandTag = no_tag, res_Err = None\<rparr>;
          (br, pc) = Read_loop br pc;
          ((tag, err), pc) = ResultReader_Close pc
      in (br\<lparr>res_CommandTag := tag, res_Err := err\<rparr>, pc))"

text \<open>
  The loop before the first row of an extended query: the description of the columns, or that of a prepared
  statement, is loaded. An error ends it because it concludes the command.
\<close>

definition load_statement_fields :: "StatementDescription option \<Rightarrow> u16 list \<Rightarrow> PgConn \<Rightarrow> PgConn" where
  "load_statement_fields sd resultFormats pc =
     (case sd of
        None \<Rightarrow> pc
      | Some sd \<Rightarrow>
          (case combineFieldDescriptionsAndResultFormats (sd_Fields sd) resultFormats of
             Inr fds \<Rightarrow> upd_rr (\<lambda>rr. rr\<lparr>rr_fieldDescriptions := fds\<rparr>) (store_fields fds pc)
           | Inl err \<Rightarrow>
               upd_rr (\<lambda>rr. concludeCommand no_tag (Some err)
                  (rr\<lparr>rr_fieldDescriptions := getFieldDescriptionSlice (length (sd_Fields sd)) pc\<rparr>)) pc))"

function readUntilRowDescription :: "StatementDescription option \<Rightarrow> u16 list \<Rightarrow> PgConn \<Rightarrow> PgConn" where
  "readUntilRowDescription sd resultFormats pc =
     (if rr_commandConcluded (pc_resultReader pc) then pc
      else
        case rr_receiveMessage pc of
          (Inl _, pc') \<Rightarrow> pc'
        | (Inr msg, pc') \<Rightarrow>
            (case msg of
               BM_RowDescription _ \<Rightarrow> pc'
             | BM_DataRow values \<Rightarrow> load_statement_fields sd resultFormats (upd_rr (preloadRowValues values) pc')
             | BM_CommandComplete _ \<Rightarrow> load_statement_fields sd resultFormats pc'
             | _ \<Rightarrow> readUntilRowDescription sd resultFormats pc'))"
  by pat_completeness auto
termination
  by (relation "measure (\<lambda>(_, _, pc). conn_left pc)") (auto dest: rr_receiveMessage_left [OF sym])

declare readUntilRowDescription.simps [simp del]

section \<open>MultiResultReader\<close>

text \<open>A row without a description: the next statement of the batch describes it.\<close>

definition start_statement :: "PgConn \<Rightarrow> bool \<times> PgConn" where
  "start_statement pc =
     (case mrr_statementDescriptions (pc_multiResultReader pc) of
        [] \<Rightarrow>
          (False, upd_mrr (\<lambda>mrr. mrr\<lparr>mrr_err :=
             Some (MsgErr ''unexpected DataRow message without preceding RowDescription'')\<rparr>) pc)
      | sd # sds \<Rightarrow>
          (case mrr_resultFormats (pc_multiResultReader pc) of
             [] \<Rightarrow> (False, conn_panic ''index out of range'' pc)
           | resultFormats # rfs \<Rightarrow>
               (let pc = upd_mrr (\<lambda>mrr. mrr\<lparr>mrr_statementDescriptions := sds, mrr_resultFormats := rfs, mrr_rr := True\<rparr>) pc;
                    rr = (new_ResultReader (mrr_ctx (pc_multiResultReader pc)))\<lparr>rr_multiResultReader := True\<rparr>
                in (True, load_statement_fields (Some sd) resultFormats (pc\<lparr>pc_resultReader := rr\<rparr>)))))"

definition start_result :: "BackendMessage \<Rightarrow> PgConn \<Rightarrow> PgConn option" where
  "start_result msg pc =
     (let c = mrr_ctx (pc_multiResultReader pc);
          concluded = zero_ResultReader\<lparr>rr_commandConcluded := True, rr_closed := True\<rparr>;
          begin = (\<lambda>rr pc. upd_mrr (\<lambda>mrr. mrr\<lparr>mrr_rr := True\<rparr>) (pc\<lparr>pc_resultReader := rr\<rparr>))
      in case msg of
           BM_RowDescription m \<Rightarrow>
             Some (begin ((new_ResultReader c)\<lparr>rr_multiResultReader := True, rr_fieldDescriptions := convertRowDescription m\<rparr>)
               (store_fields (convertRowDescription m) pc))
         | BM_CommandComplete m \<Rightarrow>
             Some (begin (concluded\<lparr>rr_commandTag := makeCommandTag (cc_CommandTag m)\<rparr>) pc)
         | BM_EmptyQueryResponse \<Rightarrow> Some (begin concluded pc)
         | _ \<Rightarrow> None)"

lemma mrr_receive_after_peek:
  "(p, pc1) = peekMessage pc \<Longrightarrow> (Inr m, pc2) = mrr_receiveMessage pc1 \<Longrightarrow> conn_left pc2 < conn_left pc"
  using peekMessage_mono [of pc p pc1] mrr_receiveMessage_left [of pc1 m pc2] by simp

function NextResult :: "PgConn \<Rightarrow> bool \<times> PgConn" where
  "NextResult pc =
     (if mrr_closed (pc_multiResultReader pc) \<or> mrr_err (pc_multiResultReader pc) \<noteq> None then (False, pc)
      else
        case peekMessage pc of
          (peeked, pc1) \<Rightarrow>
            if (case peeked of Inr msg \<Rightarrow> DataRow_of msg \<noteq> None | Inl _ \<Rightarrow> False) then start_statement pc1
            else
              (case mrr_receiveMessage pc1 of
                 (Inl _, pc2) \<Rightarrow> (False, pc2)
               | (Inr msg, pc2) \<Rightarrow>
                   (case start_result msg pc2 of
                      Some pc3 \<Rightarrow> (True, pc3)
                    | None \<Rightarrow> NextResult pc2)))"
  by auto
termination
  by (relation "measure conn_left") (auto dest: mrr_receive_after_peek)

declare NextResult.simps [simp del]

function MultiResultReader_Close :: "PgConn \<Rightarrow> conn_err option \<times> PgConn" where
  "MultiResultReader_Close pc =
     (if mrr_closed (pc_multiResultReader pc) then (mrr_err (pc_multiResultReader pc), pc)
      else
        case mrr_receiveMessage pc of
          (Inl _, pc') \<Rightarrow> (mrr_err (pc_multiResultReader pc'), pc')
        | (Inr _, pc') \<Rightarrow> MultiResultReader_Close pc')"
  by auto
termination
  by (relation "measure conn_left") (auto dest: mrr_receiveMessage_left [OF sym])

declare MultiResultReader_Close.simps [simp del]

text \<open>No reader makes what is left longer.\<close>

lemma mrr_receiveMessage_mono: "mrr_receiveMessage pc = (r, pc') \<Longrightarrow> conn_left pc' \<le> conn_left pc"
proof (cases r)
  case (Inl e)
  assume "mrr_receiveMessage pc = (r, pc')"
  with Inl receiveMessage_mono [of pc] show ?thesis
    by (auto simp: mrr_receiveMessage_def Let_def split: prod.splits sum.splits)
qed (use mrr_receiveMessage_left in fastforce)

lemma rr_receiveMessage_mono: "rr_receiveMessage pc = (r, pc') \<Longrightarrow> conn_left pc' \<le> conn_left pc"
  by (auto simp: rr_receiveMessage_def Let_def dest: receiveMessage_mono mrr_receiveMessage_mono
      split: prod.splits sum.splits if_splits)

lemma Close_loop_reads:
  assumes "\<And>pc r pc'. P pc \<Longrightarrow> \<not> rr_commandConcluded (pc_resultReader pc) \<Longrightarrow> rr_receiveMessage pc = (r, pc') \<Longrightarrow> P pc'"
  shows "P pc \<Longrightarrow> Close_loop pc = (e, pc') \<Longrightarrow> P pc'"
proof (induction pc rule: Close_loop.induct)
  case (1 pc)
  obtain r pc1 where r: "rr_receiveMessage pc = (r, pc1)" by fastforce
  show ?case
    using "1.prems" "1.IH" [OF _ r [symmetric]] assms [OF "1.prems"(1) _ r]
    by (auto simp: Close_loop.simps [of pc] r split: if_splits sum.splits)
qed

lemma Close_loop_keeps:
  assumes "\<And>pc r pc'. P pc \<Longrightarrow> rr_receiveMessage pc = (r, pc') \<Longrightarrow> P pc'"
  shows "P pc \<Longrightarrow> Close_loop pc = (e, pc') \<Longrightarrow> P pc'"
  by (rule Close_loop_reads [where P = P]) (use assms in blast)+

lemma Close_ready_loop_keeps:
  assumes "\<And>pc r pc'. P pc \<Longrightarrow> rr_receiveMessage pc = (r, pc') \<Longrightarrow> P pc'"
    and "\<And>pc e. P pc \<Longrightarrow> P (upd_rr (\<lambda>rr. rr\<lparr>rr_err := e\<rparr>) pc)"
    and "\<And>pc. P pc \<Longrightarrow> P (conn_unlock (ctx_Unwatch pc))"
  shows "P pc \<Longrightarrow> Close_ready_loop pc = (res, pc') \<Longrightarrow> P pc'"
proof (induction pc rule: Close_ready_loop.induct)
  case (1 pc)
  obtain r pc1 where r: "rr_receiveMessage pc = (r, pc1)" by fastforce
  note p = assms(1) [OF "1.prems"(1) r]
  show ?case
  proof (cases r)
    case (Inl e)
    with r "1.prems" p show ?thesis by (simp add: Close_ready_loop.simps [of pc])
  next
    case (Inr m)
    show ?thesis
      using r "1.prems" p Inr "1.IH" [OF r [symmetric] Inr] assms(2) [OF p] assms(3) [OF p]
      by (cases m) (auto simp: Close_ready_loop.simps [of pc] Let_def)
  qed
qed

lemma ResultReader_Close_keeps:
  assumes "\<And>pc r pc'. P pc \<Longrightarrow> rr_receiveMessage pc = (r, pc') \<Longrightarrow> P pc'"
    and "\<And>pc e. P pc \<Longrightarrow> P (upd_rr (\<lambda>rr. rr\<lparr>rr_err := e\<rparr>) pc)"
    and "\<And>pc. P pc \<Longrightarrow> P (conn_unlock (ctx_Unwatch pc))"
    and "\<And>pc. P pc \<Longrightarrow> P (upd_rr (\<lambda>rr. rr\<lparr>rr_closed := True\<rparr>) pc)"
    and "P pc" and "ResultReader_Close pc = (res, pc')"
  shows "P pc'"
proof (cases "rr_closed (pc_resultReader pc)")
  case True
  with assms(5,6) show ?thesis by (simp add: ResultReader_Close_def)
next
  case False
  obtain e pc1 where e: "Close_loop (upd_rr (\<lambda>rr. rr\<lparr>rr_closed := True\<rparr>) pc) = (e, pc1)" by fastforce
  have p: "P pc1"
    by (rule Close_loop_keeps [where P = P, OF assms(1) assms(4) [OF assms(5)] e])
  have "P pc2" if "Close_ready_loop pc1 = (res, pc2)" for pc2
    by (rule Close_ready_loop_keeps [where P = P, OF assms(1-3) p that])
  with assms(6) False e p show ?thesis
    by (auto simp: ResultReader_Close_def split: option.splits if_splits)
qed

lemma NextRow_reads:
  assumes "\<And>pc r pc'. P pc \<Longrightarrow> \<not> rr_commandConcluded (pc_resultReader pc) \<Longrightarrow> rr_receiveMessage pc = (r, pc') \<Longrightarrow> P pc'"
    and "\<And>pc v. P pc \<Longrightarrow> P (upd_rr (\<lambda>rr. rr\<lparr>rr_rowValues := v\<rparr>) pc)"
    and "\<And>pc. P pc \<Longrightarrow> P (upd_rr (\<lambda>rr. rr\<lparr>rr_preloaded := False\<rparr>) pc)"
    and "P pc" and "NextRow pc = (b, pc')"
  shows "P pc'"
proof -
  have "P pc2" if "NextRow_loop pc = (b, pc2)" for pc2
    by (rule NextRow_loop_reads [where P = P, OF assms(1,2,4) that])
  with assms(3-5) show ?thesis by (auto simp: NextRow_def split: if_splits)
qed

lemma NextRow_keeps:
  assumes "\<And>pc r pc'. P pc \<Longrightarrow> rr_receiveMessage pc = (r, pc') \<Longrightarrow> P pc'"
    and "\<And>pc v. P pc \<Longrightarrow> P (upd_rr (\<lambda>rr. rr\<lparr>rr_rowValues := v\<rparr>) pc)"
    and "\<And>pc. P pc \<Longrightarrow> P (upd_rr (\<lambda>rr. rr\<lparr>rr_preloaded := False\<rparr>) pc)"
    and "P pc" and "NextRow pc = (b, pc')"
  shows "P pc'"
  by (rule NextRow_reads [where P = P, OF _ assms(2,3,4,5)]) (use assms(1) in blast)+

lemma Read_loop_keeps:
  assumes "\<And>pc b pc'. P pc \<Longrightarrow> NextRow pc = (b, pc') \<Longrightarrow> P pc'"
  shows "P pc \<Longrightarrow> Read_loop br pc = (br', pc') \<Longrightarrow> P pc'"
proof (induction br pc rule: Read_loop.induct)
  case (1 br pc)
  obtain b pc1 where r: "NextRow pc = (b, pc1)" by fastforce
  show ?case
    using "1.prems" "1.IH" [OF r [symmetric]] assms [OF "1.prems"(1) r]
    by (auto simp: Read_loop.simps [of br pc] r split: bool.splits)
qed

definition mrr_left :: "PgConn \<Rightarrow> nat" where
  "mrr_left pc = conn_left pc + length (mrr_statementDescriptions (pc_multiResultReader pc))"

definition mrr_shrinks :: "PgConn \<Rightarrow> PgConn \<Rightarrow> bool" where
  "mrr_shrinks pc pc' \<longleftrightarrow> conn_left pc' \<le> conn_left pc
     \<and> mrr_statementDescriptions (pc_multiResultReader pc') = mrr_statementDescriptions (pc_multiResultReader pc)"

lemma rr_receiveMessage_shrinks: "mrr_shrinks pc0 pc \<Longrightarrow> rr_receiveMessage pc = (r, pc') \<Longrightarrow> mrr_shrinks pc0 pc'"
  using rr_receiveMessage_mono [of pc r pc'] rr_receiveMessage_frame [of pc r pc']
  by (auto simp: mrr_shrinks_def rr_frame_def)

lemma Read_shrinks:
  assumes "ResultReader_Read pc = (res, pc')"
  shows "mrr_shrinks pc pc'"
proof -
  obtain br pc1 where read: "Read_loop \<lparr>res_FieldDescriptions = None, res_Rows = [], res_CommandTag = no_tag, res_Err = None\<rparr> pc = (br, pc1)"
    by fastforce
  have next_row: "mrr_shrinks pc pc3" if "mrr_shrinks pc pc2" "NextRow pc2 = (b, pc3)" for pc2 b pc3
    by (rule NextRow_keeps [where P = "mrr_shrinks pc", OF _ _ _ that])
      (auto intro: rr_receiveMessage_shrinks, simp_all add: mrr_shrinks_def)
  have p: "mrr_shrinks pc pc1"
    by (rule Read_loop_keeps [where P = "mrr_shrinks pc", OF next_row _ read]) (simp_all add: mrr_shrinks_def)
  obtain r pc2 where close: "ResultReader_Close pc1 = (r, pc2)" by fastforce
  have "mrr_shrinks pc pc2"
    by (rule ResultReader_Close_keeps [where P = "mrr_shrinks pc", OF _ _ _ _ p close])
      (auto intro: rr_receiveMessage_shrinks, simp_all add: mrr_shrinks_def)
  with assms read close show ?thesis
    by (auto simp: ResultReader_Read_def Let_def split: prod.splits)
qed

lemma load_statement_fields_left [simp]:
  "conn_left (load_statement_fields sd rf pc) = conn_left pc"
  "pc_multiResultReader (load_statement_fields sd rf pc) = pc_multiResultReader pc"
  by (simp_all add: load_statement_fields_def split: option.split sum.split)

lemma start_statement_left: "start_statement pc = (True, pc') \<Longrightarrow> mrr_left pc' < mrr_left pc"
  by (auto simp: start_statement_def Let_def mrr_left_def split: list.splits)

lemma start_result_shrinks: "start_result m pc = Some pc' \<Longrightarrow> mrr_shrinks pc pc'"
  by (cases m) (auto simp: start_result_def mrr_shrinks_def Let_def)

lemma NextResult_left: "NextResult pc = (True, pc') \<Longrightarrow> mrr_left pc' < mrr_left pc"
proof (induction pc rule: NextResult.induct)
  case (1 pc)
  obtain p pc1 where p: "peekMessage pc = (p, pc1)" by fastforce
  obtain r pc2 where r: "mrr_receiveMessage pc1 = (r, pc2)" by fastforce
  have m1: "mrr_left pc1 \<le> mrr_left pc"
    using peekMessage_mono [OF p] peekMessage_frame [OF p] by (auto simp: mrr_left_def receive_frame_def)
  show ?case
  proof (cases r)
    case (Inl e)
    with "1.prems" p r start_statement_left [of pc1 pc'] m1 show ?thesis
      by (auto simp: NextResult.simps [of pc] split: if_splits)
  next
    case (Inr m)
    with r have "mrr_left pc2 < mrr_left pc1"
      using mrr_receiveMessage_left [of pc1 m pc2] mrr_receiveMessage_frame [of pc1 r pc2]
      by (auto simp: mrr_left_def rr_frame_def)
    with "1.prems" p r Inr m1 start_statement_left [of pc1 pc'] start_result_shrinks [of m pc2 pc']
      "1.IH" [OF _ p [symmetric] _ r [symmetric] Inr]
    show ?thesis
      by (auto simp: NextResult.simps [of pc] mrr_left_def mrr_shrinks_def split: if_splits option.splits)
  qed
qed

lemma ReadAll_step:
  "NextResult pc = (True, pc1) \<Longrightarrow> ResultReader_Read pc1 = (res, pc2) \<Longrightarrow> mrr_left pc2 < mrr_left pc"
  using NextResult_left [of pc pc1] Read_shrinks [of pc1 res pc2] by (simp add: mrr_left_def mrr_shrinks_def)

function ReadAll_loop :: "Result list \<Rightarrow> PgConn \<Rightarrow> Result list \<times> PgConn" where
  "ReadAll_loop results pc =
     (case NextResult pc of
        (False, pc') \<Rightarrow> (results, pc')
      | (True, pc') \<Rightarrow>
          (case ResultReader_Read pc' of
             (res, pc'') \<Rightarrow> ReadAll_loop (results @ [res]) pc''))"
  by auto
termination
  by (relation "measure (\<lambda>(_, pc). mrr_left pc)") (auto dest: ReadAll_step [OF sym sym])

declare ReadAll_loop.simps [simp del]

definition ReadAll :: "PgConn \<Rightarrow> (Result list \<times> conn_err option) \<times> PgConn" where
  "ReadAll pc =
     (let (results, pc) = ReadAll_loop [] pc; (err, pc) = MultiResultReader_Close pc in ((results, err), pc))"

end
