(* ===== verification/Pgconn_Commands.thy ===== *)
theory Pgconn_Commands
  imports Pgconn_Results
begin

text \<open>
  The commands of \<open>PgConn\<close>: simple and extended queries, preparation and deallocation of statements,
  notifications, both directions of \<open>COPY\<close>, and batches.
\<close>

section \<open>Simple queries\<close>

text \<open>A command that cannot start returns a reader of its own; otherwise that of the connection.\<close>

datatype mrr_ref = Attached | Detached MultiResultReader

definition new_MultiResultReader :: "ctx \<Rightarrow> MultiResultReader" where
  "new_MultiResultReader c =
     \<lparr>mrr_ctx = c, mrr_rr = False, mrr_statementDescriptions = [], mrr_resultFormats = [],
      mrr_closed = False, mrr_err = None\<rparr>"

definition failed_MultiResultReader :: "ctx \<Rightarrow> conn_err \<Rightarrow> MultiResultReader" where
  "failed_MultiResultReader c err = (new_MultiResultReader c)\<lparr>mrr_closed := True, mrr_err := Some err\<rparr>"

definition PgConn_Exec :: "ctx \<Rightarrow> bytes \<Rightarrow> PgConn \<Rightarrow> mrr_ref \<times> PgConn" where
  "PgConn_Exec c sql pc =
     (case conn_lock pc of
        (Some err, pc) \<Rightarrow> (Detached (failed_MultiResultReader c err), pc)
      | (None, pc) \<Rightarrow>
          (case ctx_begin c (pc\<lparr>pc_multiResultReader := new_MultiResultReader c\<rparr>) of
             (Some err, pc) \<Rightarrow>
               (Attached, conn_unlock (upd_mrr (\<lambda>mrr. mrr\<lparr>mrr_closed := True, mrr_err := Some err\<rparr>) pc))
           | (None, pc) \<Rightarrow>
               (case conn_flush (fe_send (SendQuery \<lparr>query_String = sql\<rparr>) pc) of
                  (Some err, pc) \<Rightarrow>
                    (let pc = ctx_Unwatch (asyncClose pc);
                         pc = upd_mrr (\<lambda>mrr. mrr\<lparr>mrr_closed := True, mrr_err := Some err\<rparr>) pc
                     in (Attached, conn_unlock pc))
                | (None, pc) \<Rightarrow> (Attached, pc))))"

text \<open>\<open>ReadAll\<close> and \<open>Close\<close> of what \<open>Exec\<close> returned.\<close>

definition ref_ReadAll :: "mrr_ref \<times> PgConn \<Rightarrow> (Result list \<times> conn_err option) \<times> PgConn" where
  "ref_ReadAll p =
     (case p of
        (Attached, pc) \<Rightarrow> ReadAll pc
      | (Detached mrr, pc) \<Rightarrow> (([], mrr_err mrr), pc))"

definition ref_Close :: "mrr_ref \<times> PgConn \<Rightarrow> conn_err option \<times> PgConn" where
  "ref_Close p =
     (case p of
        (Attached, pc) \<Rightarrow> MultiResultReader_Close pc
      | (Detached mrr, pc) \<Rightarrow> (mrr_err mrr, pc))"

definition PgConn_Ping :: "ctx \<Rightarrow> PgConn \<Rightarrow> conn_err option \<times> PgConn" where
  "PgConn_Ping c pc = ref_Close (PgConn_Exec c (str ''-- ping'') pc)"

section \<open>Extended queries\<close>

text \<open>
  The reader of the connection is replaced before the lock is taken, so that a call on a busy connection
  overwrites the reader in use.
\<close>

definition execExtendedPrefix :: "ctx \<Rightarrow> bytes option list \<Rightarrow> PgConn \<Rightarrow> PgConn" where
  "execExtendedPrefix c paramValues pc =
     (let pc = pc\<lparr>pc_resultReader := new_ResultReader c\<rparr>;
          fail = (\<lambda>err. upd_rr (\<lambda>rr. (concludeCommand no_tag (Some err) rr)\<lparr>rr_closed := True\<rparr>))
      in case conn_lock pc of
           (Some err, pc) \<Rightarrow> fail err pc
         | (None, pc) \<Rightarrow>
             if length paramValues > 65535 then
               conn_unlock (fail (MsgErr ''extended protocol limited to %v parameters'') pc)
             else
               (case ctx_begin c pc of
                  (Some err, pc) \<Rightarrow> conn_unlock (fail err pc)
                | (None, pc) \<Rightarrow> pc))"

definition execExtendedSuffix :: "StatementDescription option \<Rightarrow> u16 list \<Rightarrow> PgConn \<Rightarrow> PgConn" where
  "execExtendedSuffix sd resultFormats pc =
     (let pc = (if sd = None then fe_send (SendDescribe \<lparr>desc_ObjectType = chr CHR ''P'', desc_Name = []\<rparr>) pc else pc);
          pc = fe_send (SendExecute \<lparr>exec_Portal = [], exec_MaxRows = 0\<rparr>) pc;
          pc = fe_send SendSync pc
      in case conn_flush pc of
           (Some err, pc) \<Rightarrow>
             (let pc = asyncClose pc;
                  pc = upd_rr (concludeCommand no_tag (Some err)) pc;
                  pc = ctx_Unwatch pc
              in conn_unlock (upd_rr (\<lambda>rr. rr\<lparr>rr_closed := True\<rparr>) pc))
         | (None, pc) \<Rightarrow> readUntilRowDescription sd resultFormats pc)"

definition send_bind :: "bytes \<Rightarrow> bytes option list \<Rightarrow> u16 list \<Rightarrow> u16 list \<Rightarrow> PgConn \<Rightarrow> PgConn" where
  "send_bind stmtName paramValues paramFormats resultFormats =
     fe_send (SendBind \<lparr>bind_DestinationPortal = [], bind_PreparedStatement = stmtName,
       bind_ParameterFormatCodes = paramFormats, bind_Parameters = paramValues,
       bind_ResultFormatCodes = resultFormats\<rparr>)"

definition PgConn_ExecParams ::
  "ctx \<Rightarrow> bytes \<Rightarrow> bytes option list \<Rightarrow> u32 list \<Rightarrow> u16 list \<Rightarrow> u16 list \<Rightarrow> PgConn \<Rightarrow> PgConn" where
  "PgConn_ExecParams c sql paramValues paramOIDs paramFormats resultFormats pc =
     (let pc = execExtendedPrefix c paramValues pc in
      if rr_closed (pc_resultReader pc) then pc
      else
        let pc = fe_send (SendParse \<lparr>parse_Name = [], parse_Query = sql, parse_ParameterOIDs = paramOIDs\<rparr>) pc;
            pc = send_bind [] paramValues paramFormats resultFormats pc
        in execExtendedSuffix None [] pc)"

definition PgConn_ExecPrepared ::
  "ctx \<Rightarrow> bytes \<Rightarrow> bytes option list \<Rightarrow> u16 list \<Rightarrow> u16 list \<Rightarrow> PgConn \<Rightarrow> PgConn" where
  "PgConn_ExecPrepared c stmtName paramValues paramFormats resultFormats pc =
     (let pc = execExtendedPrefix c paramValues pc in
      if rr_closed (pc_resultReader pc) then pc
      else execExtendedSuffix None [] (send_bind stmtName paramValues paramFormats resultFormats pc))"

definition PgConn_ExecStatement ::
  "ctx \<Rightarrow> StatementDescription \<Rightarrow> bytes option list \<Rightarrow> u16 list \<Rightarrow> u16 list \<Rightarrow> PgConn \<Rightarrow> PgConn" where
  "PgConn_ExecStatement c sd paramValues paramFormats resultFormats pc =
     (let pc = execExtendedPrefix c paramValues pc in
      if rr_closed (pc_resultReader pc) then pc
      else execExtendedSuffix (Some sd) resultFormats (send_bind (sd_Name sd) paramValues paramFormats resultFormats pc))"

section \<open>Prepared statements\<close>

text \<open>
  The commands that read their answer themselves: lock, context, send, flush; the deferred \<open>Unwatch\<close> and
  \<open>unlock\<close> run at every return after the lock.
\<close>

definition finish_command :: "ctx \<Rightarrow> 'a \<times> PgConn \<Rightarrow> 'a \<times> PgConn" where
  "finish_command c p = (case p of (r, pc) \<Rightarrow> (r, conn_unlock (ctx_end c pc)))"

definition run_command ::
  "ctx \<Rightarrow> (chunkReader Frontend \<Rightarrow> chunkReader Frontend) \<Rightarrow> (PgConn \<Rightarrow> (conn_err + 'a) \<times> PgConn) \<Rightarrow>
     PgConn \<Rightarrow> (conn_err + 'a) \<times> PgConn" where
  "run_command c send body pc =
     (case conn_lock pc of
        (Some err, pc) \<Rightarrow> (Inl err, pc)
      | (None, pc) \<Rightarrow>
          (case ctx_begin c pc of
             (Some err, pc) \<Rightarrow> (Inl err, conn_unlock pc)
           | (None, pc) \<Rightarrow>
               finish_command c
                 (case conn_flush (fe_send send pc) of
                    (Some err, pc) \<Rightarrow> (Inl err, asyncClose pc)
                  | (None, pc) \<Rightarrow> body pc)))"

function Prepare_loop ::
  "ctx \<Rightarrow> StatementDescription \<Rightarrow> bool \<Rightarrow> PgError option \<Rightarrow> PgConn \<Rightarrow> (conn_err + StatementDescription) \<times> PgConn" where
  "Prepare_loop c psd parseComplete pgErr pc =
     (case receiveMessage pc of
        (Inl err, pc') \<Rightarrow> (Inl (normalizeTimeoutError c err), asyncClose pc')
      | (Inr msg, pc') \<Rightarrow>
          (case msg of
             BM_ParseComplete \<Rightarrow> Prepare_loop c psd True pgErr pc'
           | BM_ParameterDescription m \<Rightarrow>
               Prepare_loop c (psd\<lparr>sd_ParamOIDs := pd_ParameterOIDs m\<rparr>) parseComplete pgErr pc'
           | BM_RowDescription m \<Rightarrow>
               Prepare_loop c (psd\<lparr>sd_Fields := convertRowDescription m\<rparr>) parseComplete pgErr pc'
           | BM_ErrorResponse m \<Rightarrow> Prepare_loop c psd parseComplete (Some (ErrorResponseToPgError m)) pc'
           | BM_ReadyForQuery _ \<Rightarrow>
               (case pgErr of
                  Some e \<Rightarrow> (Inl (PrepareErr e parseComplete), pc')
                | None \<Rightarrow> (Inr psd, pc'))
           | _ \<Rightarrow> Prepare_loop c psd parseComplete pgErr pc'))"
  by pat_completeness auto
termination
  by (relation "measure (\<lambda>(_, _, _, _, pc). conn_left pc)") (auto dest: receiveMessage_left [OF sym])

declare Prepare_loop.simps [simp del]

definition PgConn_Prepare ::
  "ctx \<Rightarrow> bytes \<Rightarrow> bytes \<Rightarrow> u32 list \<Rightarrow> PgConn \<Rightarrow> (conn_err + StatementDescription) \<times> PgConn" where
  "PgConn_Prepare c name sql paramOIDs =
     run_command c
       (\<lambda>f. SendSync (SendDescribe \<lparr>desc_ObjectType = chr CHR ''S'', desc_Name = name\<rparr>
          (SendParse \<lparr>parse_Name = name, parse_Query = sql, parse_ParameterOIDs = paramOIDs\<rparr> f)))
       (Prepare_loop c \<lparr>sd_Name = name, sd_SQL = sql, sd_ParamOIDs = [], sd_Fields = []\<rparr> False None)"

function Deallocate_loop :: "ctx \<Rightarrow> PgConn \<Rightarrow> (conn_err + unit) \<times> PgConn" where
  "Deallocate_loop c pc =
     (case receiveMessage pc of
        (Inl err, pc') \<Rightarrow> (Inl (normalizeTimeoutError c err), asyncClose pc')
      | (Inr msg, pc') \<Rightarrow>
          (case msg of
             BM_ErrorResponse m \<Rightarrow> (Inl (PgErr (ErrorResponseToPgError m)), pc')
           | BM_ReadyForQuery _ \<Rightarrow> (Inr (), pc')
           | _ \<Rightarrow> Deallocate_loop c pc'))"
  by pat_completeness auto
termination
  by (relation "measure (\<lambda>(_, pc). conn_left pc)") (auto dest: receiveMessage_left [OF sym])

declare Deallocate_loop.simps [simp del]

definition PgConn_Deallocate :: "ctx \<Rightarrow> bytes \<Rightarrow> PgConn \<Rightarrow> (conn_err + unit) \<times> PgConn" where
  "PgConn_Deallocate c name =
     run_command c (\<lambda>f. SendSync (SendClose \<lparr>desc_ObjectType = chr CHR ''S'', desc_Name = name\<rparr> f)) (Deallocate_loop c)"

section \<open>Single messages and notifications\<close>

text \<open>The commands that only receive: nothing is sent, and an error does not close the connection.\<close>

definition run_receive ::
  "ctx \<Rightarrow> (PgConn \<Rightarrow> (conn_err + 'a) \<times> PgConn) \<Rightarrow> PgConn \<Rightarrow> (conn_err + 'a) \<times> PgConn" where
  "run_receive c body pc =
     (case conn_lock pc of
        (Some err, pc) \<Rightarrow> (Inl err, pc)
      | (None, pc) \<Rightarrow>
          (case ctx_begin c pc of
             (Some err, pc) \<Rightarrow> (Inl err, conn_unlock pc)
           | (None, pc) \<Rightarrow> finish_command c (body pc)))"

definition PgConn_ReceiveMessage :: "ctx \<Rightarrow> PgConn \<Rightarrow> (conn_err + BackendMessage) \<times> PgConn" where
  "PgConn_ReceiveMessage c =
     run_receive c (\<lambda>pc.
       case receiveMessage pc of
         (Inl err, pc) \<Rightarrow> (Inl (PgconnErr ''receive message failed'' (normalizeTimeoutError c err) True), pc)
       | (Inr msg, pc) \<Rightarrow> (Inr msg, pc))"

definition PgConn_CheckConn :: "ctx \<Rightarrow> PgConn \<Rightarrow> conn_err option \<times> PgConn" where
  "PgConn_CheckConn c pc =
     (case PgConn_ReceiveMessage c pc of
        (Inl err, pc) \<Rightarrow> (if Timeout err then None else Some err, pc)
      | (Inr _, pc) \<Rightarrow> (None, pc))"

fun is_notification :: "BackendMessage \<Rightarrow> bool" where
  "is_notification (BM_NotificationResponse _) \<longleftrightarrow> True"
| "is_notification _ \<longleftrightarrow> False"

function WaitForNotification_loop :: "ctx \<Rightarrow> PgConn \<Rightarrow> (conn_err + unit) \<times> PgConn" where
  "WaitForNotification_loop c pc =
     (case receiveMessage pc of
        (Inl err, pc') \<Rightarrow> (Inl (normalizeTimeoutError c err), pc')
      | (Inr msg, pc') \<Rightarrow> if is_notification msg then (Inr (), pc') else WaitForNotification_loop c pc')"
  by auto
termination
  by (relation "measure (\<lambda>(_, pc). conn_left pc)") (auto dest: receiveMessage_left [OF sym])

declare WaitForNotification_loop.simps [simp del]

definition PgConn_WaitForNotification :: "ctx \<Rightarrow> PgConn \<Rightarrow> (conn_err + unit) \<times> PgConn" where
  "PgConn_WaitForNotification c = run_receive c (WaitForNotification_loop c)"

section \<open>COPY\<close>

text \<open>\<open>CopyTo\<close> hands the data to a writer; on an error the connection is closed and not unlocked.\<close>

function CopyTo_loop ::
  "ctx \<Rightarrow> CommandTag \<Rightarrow> conn_err option \<Rightarrow> writer \<Rightarrow> PgConn \<Rightarrow> ((CommandTag \<times> conn_err option) \<times> writer) \<times> PgConn" where
  "CopyTo_loop c tag pgErr w pc =
     (case receiveMessage pc of
        (Inl err, pc') \<Rightarrow> (((no_tag, Some (normalizeTimeoutError c err)), w), asyncClose pc')
      | (Inr msg, pc') \<Rightarrow>
          (case msg of
             BM_CopyData m \<Rightarrow>
               (case writer_Write (cd_Data m) w of
                  ((_, Some err), w) \<Rightarrow> (((no_tag, Some (NetErr err)), w), asyncClose pc')
                | ((_, None), w) \<Rightarrow> CopyTo_loop c tag pgErr w pc')
           | BM_ReadyForQuery _ \<Rightarrow> (((tag, pgErr), w), conn_unlock pc')
           | BM_CommandComplete m \<Rightarrow> CopyTo_loop c (makeCommandTag (cc_CommandTag m)) pgErr w pc'
           | BM_ErrorResponse m \<Rightarrow> CopyTo_loop c tag (Some (PgErr (ErrorResponseToPgError m))) w pc'
           | _ \<Rightarrow> CopyTo_loop c tag pgErr w pc'))"
  by pat_completeness auto
termination
  by (relation "measure (\<lambda>(_, _, _, _, pc). conn_left pc)") (auto dest: receiveMessage_left [OF sym])

declare CopyTo_loop.simps [simp del]

definition PgConn_CopyTo ::
  "ctx \<Rightarrow> writer \<Rightarrow> bytes \<Rightarrow> PgConn \<Rightarrow> ((CommandTag \<times> conn_err option) \<times> writer) \<times> PgConn" where
  "PgConn_CopyTo c w sql pc =
     (case conn_lock pc of
        (Some err, pc) \<Rightarrow> (((no_tag, Some err), w), pc)
      | (None, pc) \<Rightarrow>
          (case ctx_begin c pc of
             (Some err, pc) \<Rightarrow> (((no_tag, Some err), w), conn_unlock pc)
           | (None, pc) \<Rightarrow>
               (case conn_flush (fe_send (SendQuery \<lparr>query_String = sql\<rparr>) pc) of
                  (Some err, pc) \<Rightarrow> (((no_tag, Some err), w), ctx_end c (conn_unlock (asyncClose pc)))
                | (None, pc) \<Rightarrow> (case CopyTo_loop c no_tag None w pc of (r, pc) \<Rightarrow> (r, ctx_end c pc)))))"

text \<open>
  \<open>CopyFrom\<close> runs two goroutines: one copies from the reader to the server, the other waits for a message of
  the server or the end of the copy. A schedule says which goes next: \<open>True\<close> is an iteration of the copy or, when
  it has ended, the receipt of its error; \<open>False\<close> the message that has been signalled. When the schedule is
  used up the copy goes on.
\<close>

datatype copy_end =
    CopyErr conn_err
  | CopyPgErr PgError
  | CopyReturn conn_err

definition copy_iteration :: "reader \<Rightarrow> PgConn \<Rightarrow> conn_err option \<times> reader \<times> PgConn" where
  "copy_iteration rd pc =
     (case reader_Read 65531 rd of
        (d, readErr, rd') \<Rightarrow>
          if length d > 0 then
            (case SendUnbufferedEncodedCopyData (chr CHR ''d'' # be32 (of_nat (length d + 4)) @ d) (pc_frontend pc) of
               (Some writeErr, f) \<Rightarrow> (Some (NetErr writeErr), rd', pc\<lparr>pc_frontend := f\<rparr>)
             | (None, f) \<Rightarrow> (map_option NetErr readErr, rd', pc\<lparr>pc_frontend := f\<rparr>))
          else (map_option NetErr readErr, rd', pc))"

lemma reader_Read_shrinks: "reader_Read k rd = (d, e, rd') \<Longrightarrow> reader_size rd' \<le> reader_size rd"
  by (cases "(k, rd)" rule: reader_Read.cases) (auto simp: reader_size_def split: if_splits)

lemma copy_iteration_shrinks: "copy_iteration rd pc = (e, rd', pc') \<Longrightarrow> reader_size rd' \<le> reader_size rd"
  using reader_Read_shrinks [of 65531 rd]
  by (auto simp: copy_iteration_def split: prod.splits if_splits option.splits)

lemma copy_iteration_size: "copy_iteration rd pc = (None, rd', pc') \<Longrightarrow> reader_size rd' < reader_size rd"
  using reader_Read_size [of 65531 rd]
  by (auto simp: copy_iteration_def split: prod.splits if_splits option.splits)

function CopyFrom_loop ::
  "ctx \<Rightarrow> conn_err option \<Rightarrow> bool list \<Rightarrow> reader \<Rightarrow> PgConn \<Rightarrow> copy_end \<times> PgConn" where
  "CopyFrom_loop c copyErr sched rd pc =
     (if sched = [] \<or> hd sched then
        (case copyErr of
           Some err \<Rightarrow> (CopyErr err, pc)
         | None \<Rightarrow>
             (case copy_iteration rd pc of
                (Some err, rd', pc') \<Rightarrow> (if sched = [] then (CopyErr err, pc') else CopyFrom_loop c (Some err) (tl sched) rd' pc')
              | (None, rd', pc') \<Rightarrow> CopyFrom_loop c None (tl sched) rd' pc'))
      else
        (case pc_bufferingReceiveMsg pc of
           Inl err \<Rightarrow>
             (CopyReturn (normalizeTimeoutError c (NetErr err)), close_cleanupDone (pc\<lparr>pc_status := connStatusClosed\<rparr>))
         | Inr _ \<Rightarrow>
             (case receiveMessage pc of
                (Inl serverError, pc') \<Rightarrow> (CopyReturn serverError, pc')
              | (Inr msg, pc') \<Rightarrow>
                  (case msg of
                     BM_ErrorResponse m \<Rightarrow>
                       (CopyPgErr (ErrorResponseToPgError m),
                        if copyErr = None \<and> tl sched \<noteq> [] \<and> hd (tl sched)
                        then snd (snd (copy_iteration rd pc')) else pc')
                   | _ \<Rightarrow> CopyFrom_loop c copyErr (tl sched) rd (signalMessage pc')))))"
  by pat_completeness auto
termination
  by (relation "measures [\<lambda>(_, _, sched, rd, _). length sched + reader_size rd]")
     (auto dest: copy_iteration_size [OF sym] copy_iteration_shrinks [OF sym] simp: neq_Nil_conv less_Suc_eq_le)

declare CopyFrom_loop.simps [simp del]

function CopyFrom_results ::
  "ctx \<Rightarrow> CommandTag \<Rightarrow> conn_err option \<Rightarrow> PgConn \<Rightarrow> (CommandTag \<times> conn_err option) \<times> PgConn" where
  "CopyFrom_results c tag pgErr pc =
     (case receiveMessage pc of
        (Inl err, pc') \<Rightarrow> ((no_tag, Some (normalizeTimeoutError c err)), asyncClose pc')
      | (Inr msg, pc') \<Rightarrow>
          (case msg of
             BM_ReadyForQuery _ \<Rightarrow> ((tag, pgErr), pc')
           | BM_CommandComplete m \<Rightarrow> CopyFrom_results c (makeCommandTag (cc_CommandTag m)) pgErr pc'
           | BM_ErrorResponse m \<Rightarrow> CopyFrom_results c tag (Some (PgErr (ErrorResponseToPgError m))) pc'
           | _ \<Rightarrow> CopyFrom_results c tag pgErr pc'))"
  by pat_completeness auto
termination
  by (relation "measure (\<lambda>(_, _, _, pc). conn_left pc)") (auto dest: receiveMessage_left [OF sym])

declare CopyFrom_results.simps [simp del]

text \<open>After the copy: \<open>CopyDone\<close> or \<open>CopyFail\<close> with the text of the error, and the answer of the server.\<close>

definition CopyFrom_finish ::
  "ctx \<Rightarrow> FrontendMessage \<Rightarrow> conn_err option \<Rightarrow> PgConn \<Rightarrow> (CommandTag \<times> conn_err option) \<times> PgConn" where
  "CopyFrom_finish c msg pgErr pc =
     (case conn_flush (fe_send (Frontend_Send msg) pc) of
        (Some err, pc) \<Rightarrow> ((no_tag, Some err), asyncClose pc)
      | (None, pc) \<Rightarrow> CopyFrom_results c no_tag pgErr pc)"

definition CopyFrom_body ::
  "(conn_err \<Rightarrow> bytes) \<Rightarrow> ctx \<Rightarrow> reader \<Rightarrow> bool list \<Rightarrow> PgConn \<Rightarrow> (CommandTag \<times> conn_err option) \<times> PgConn" where
  "CopyFrom_body error_text c rd sched pc =
     (case CopyFrom_loop c None sched rd (signalMessage pc) of
        (CopyReturn err, pc) \<Rightarrow> ((no_tag, Some err), pc)
      | (CopyPgErr e, pc) \<Rightarrow> CopyFrom_finish c FM_CopyDone (Some (PgErr e)) pc
      | (CopyErr err, pc) \<Rightarrow>
          CopyFrom_finish c
            (if err = NetErr EOF then FM_CopyDone else FM_CopyFail \<lparr>cf_Message = error_text err\<rparr>) None pc)"

definition PgConn_CopyFrom ::
  "(conn_err \<Rightarrow> bytes) \<Rightarrow> ctx \<Rightarrow> reader \<Rightarrow> bytes \<Rightarrow> bool list \<Rightarrow> PgConn \<Rightarrow> (CommandTag \<times> conn_err option) \<times> PgConn" where
  "PgConn_CopyFrom error_text c rd sql sched pc =
     (case conn_lock pc of
        (Some err, pc) \<Rightarrow> ((no_tag, Some err), pc)
      | (None, pc) \<Rightarrow>
          (case ctx_begin c pc of
             (Some err, pc) \<Rightarrow> ((no_tag, Some err), conn_unlock pc)
           | (None, pc) \<Rightarrow>
               finish_command c
                 (case conn_flush (fe_send (SendQuery \<lparr>query_String = sql\<rparr>) pc) of
                    (Some err, pc) \<Rightarrow> ((no_tag, Some err), asyncClose pc)
                  | (None, pc) \<Rightarrow> CopyFrom_body error_text c rd sched pc)))"

section \<open>Batches\<close>

record Batch =
  ba_buf :: bytes
  ba_statementDescriptions :: "StatementDescription list"
  ba_resultFormats :: "u16 list list"
  ba_err :: "goerr option"

text \<open>One \<open>Encode\<close> into the buffer of the batch, skipped after an error; a failed one leaves no buffer.\<close>

definition batch_encode :: "(bytes \<Rightarrow> bytes result) \<Rightarrow> Batch \<Rightarrow> Batch" where
  "batch_encode enc b =
     (if ba_err b \<noteq> None then b
      else case enc (ba_buf b) of
        Inl err \<Rightarrow> b\<lparr>ba_buf := [], ba_err := Some err\<rparr>
      | Inr buf \<Rightarrow> b\<lparr>ba_buf := buf\<rparr>)"

definition batch_bind :: "bytes \<Rightarrow> bytes option list \<Rightarrow> u16 list \<Rightarrow> u16 list \<Rightarrow> Batch \<Rightarrow> Batch" where
  "batch_bind stmtName paramValues paramFormats resultFormats =
     batch_encode (Bind_Encode \<lparr>bind_DestinationPortal = [], bind_PreparedStatement = stmtName,
       bind_ParameterFormatCodes = paramFormats, bind_Parameters = paramValues,
       bind_ResultFormatCodes = resultFormats\<rparr>)"

definition Batch_ExecPrepared ::
  "bytes \<Rightarrow> bytes option list \<Rightarrow> u16 list \<Rightarrow> u16 list \<Rightarrow> Batch \<Rightarrow> Batch" where
  "Batch_ExecPrepared stmtName paramValues paramFormats resultFormats b =
     (let b = batch_bind stmtName paramValues paramFormats resultFormats b;
          b = batch_encode (Describe_Encode \<lparr>desc_ObjectType = chr CHR ''P'', desc_Name = []\<rparr>) b
      in batch_encode (Execute_Encode \<lparr>exec_Portal = [], exec_MaxRows = 0\<rparr>) b)"

definition Batch_ExecParams ::
  "bytes \<Rightarrow> bytes option list \<Rightarrow> u32 list \<Rightarrow> u16 list \<Rightarrow> u16 list \<Rightarrow> Batch \<Rightarrow> Batch" where
  "Batch_ExecParams sql paramValues paramOIDs paramFormats resultFormats b =
     (let b = batch_encode (Parse_Encode \<lparr>parse_Name = [], parse_Query = sql, parse_ParameterOIDs = paramOIDs\<rparr>) b
      in Batch_ExecPrepared [] paramValues paramFormats resultFormats b)"

definition Batch_ExecStatement ::
  "StatementDescription \<Rightarrow> bytes option list \<Rightarrow> u16 list \<Rightarrow> u16 list \<Rightarrow> Batch \<Rightarrow> Batch" where
  "Batch_ExecStatement sd paramValues paramFormats resultFormats b =
     (let b = batch_bind (sd_Name sd) paramValues paramFormats resultFormats b in
      if ba_err b \<noteq> None then b
      else
        batch_encode (Execute_Encode \<lparr>exec_Portal = [], exec_MaxRows = 0\<rparr>)
          (b\<lparr>ba_statementDescriptions := ba_statementDescriptions b @ [sd],
             ba_resultFormats := ba_resultFormats b @ [resultFormats]\<rparr>))"

text \<open>The batch is written past the buffer of the frontend.\<close>

definition conn_Write :: "bytes \<Rightarrow> PgConn \<Rightarrow> conn_err option \<times> PgConn" where
  "conn_Write p pc =
     (case writer_Write p (ep_w (pc_frontend pc)) of
        ((_, err), w) \<Rightarrow> (map_option NetErr err, pc\<lparr>pc_frontend := (pc_frontend pc)\<lparr>ep_w := w\<rparr>\<rparr>))"

definition PgConn_ExecBatch :: "ctx \<Rightarrow> Batch \<Rightarrow> PgConn \<Rightarrow> mrr_ref \<times> PgConn" where
  "PgConn_ExecBatch c batch pc =
     (case ba_err batch of
        Some err \<Rightarrow> (Detached (failed_MultiResultReader c (NetErr err)), pc)
      | None \<Rightarrow>
          (case conn_lock pc of
             (Some err, pc) \<Rightarrow> (Detached (failed_MultiResultReader c err), pc)
           | (None, pc) \<Rightarrow>
               (let mrr = (new_MultiResultReader c)\<lparr>mrr_statementDescriptions := ba_statementDescriptions batch,
                      mrr_resultFormats := ba_resultFormats batch\<rparr>;
                    fail = (\<lambda>err pc. asyncClose (upd_mrr (\<lambda>mrr. mrr\<lparr>mrr_closed := True,
                      mrr_err := Some (normalizeTimeoutError c err)\<rparr>) (ctx_Unwatch pc)))
                in case ctx_begin c (pc\<lparr>pc_multiResultReader := mrr\<rparr>) of
                     (Some err, pc) \<Rightarrow>
                       (Attached, conn_unlock (upd_mrr (\<lambda>mrr. mrr\<lparr>mrr_closed := True, mrr_err := Some err\<rparr>) pc))
                   | (None, pc) \<Rightarrow>
                       (let b = batch_encode (Sync_Encode ()) batch in
                        case ba_err b of
                          Some err \<Rightarrow> (Attached, fail (NetErr err) pc)
                        | None \<Rightarrow>
                            (case conn_Write (ba_buf b) pc of
                               (Some err, pc) \<Rightarrow> (Attached, fail err pc)
                             | (None, pc) \<Rightarrow> (Attached, pc))))))"

section \<open>Escaping\<close>

definition EscapeString :: "bytes \<Rightarrow> PgConn \<Rightarrow> conn_err + bytes" where
  "EscapeString s pc =
     (if PgConn_ParameterStatus (str ''standard_conforming_strings'') pc \<noteq> str ''on''
      then Inl (MsgErr ''EscapeString must be run with standard_conforming_strings=on'')
      else if PgConn_ParameterStatus (str ''client_encoding'') pc \<noteq> str ''UTF8''
      then Inl (MsgErr ''EscapeString must be run with client_encoding=UTF8'')
      else Inr (concat (map (\<lambda>c. if c = chr CHR 0x27 then [c, c] else [c]) s)))"

end
