(* ===== verification/Pgconn_Pipeline.thy ===== *)
theory Pgconn_Pipeline
  imports Pgconn_Results
begin

text \<open>
  Pipeline mode of \<open>pgconn/pgconn.go\<close>: the queue of requests that have been sent and not answered, and the
  reading of their answers in order.
\<close>

section \<open>The queue of requests\<close>

definition Init :: "pipelineState \<Rightarrow> pipelineState" where
  "Init s = s\<lparr>ps_requestEventQueue := [], ps_statementDescriptionsQueue := [], ps_resultFormatsQueue := [],
     ps_lastRequestType := pipelineNil\<rparr>"

text \<open>The two loops from the back of the queue: each stops at the first event that has its mark.\<close>

fun mark_until :: "('e \<Rightarrow> bool) \<Rightarrow> ('e \<Rightarrow> 'e) \<Rightarrow> 'e list \<Rightarrow> 'e list" where
  "mark_until marked mark [] = []"
| "mark_until marked mark (e # es) = (if marked e then e # es else mark e # mark_until marked mark es)"

definition RegisterSendingToServer :: "pipelineState \<Rightarrow> pipelineState" where
  "RegisterSendingToServer s = s\<lparr>ps_requestEventQueue :=
     rev (mark_until ev_WasSentToServer (\<lambda>e. e\<lparr>ev_WasSentToServer := True\<rparr>) (rev (ps_requestEventQueue s)))\<rparr>"

definition registerFlushingBufferOnServer :: "pipelineState \<Rightarrow> pipelineState" where
  "registerFlushingBufferOnServer s = s\<lparr>ps_requestEventQueue :=
     rev (mark_until ev_BeforeFlushOrSync (\<lambda>e. e\<lparr>ev_BeforeFlushOrSync := True\<rparr>) (rev (ps_requestEventQueue s)))\<rparr>"

definition PushBackRequestType :: "pipelineRequestType \<Rightarrow> pipelineState \<Rightarrow> pipelineState" where
  "PushBackRequestType req s =
     (if req = pipelineNil then s
      else
        let s = (if req \<noteq> pipelineFlushRequest
                 then s\<lparr>ps_requestEventQueue := ps_requestEventQueue s @
                        [\<lparr>ev_RequestType = req, ev_WasSentToServer = False, ev_BeforeFlushOrSync = False\<rparr>]\<rparr>
                 else s);
            s = (if req = pipelineFlushRequest \<or> req = pipelineSyncRequest
                 then registerFlushingBufferOnServer s else s);
            s = s\<lparr>ps_lastRequestType := req\<rparr>
        in if req = pipelineSyncRequest
           then s\<lparr>ps_expectedReadyForQueryCount := ps_expectedReadyForQueryCount s + 1\<rparr> else s)"

text \<open>After an error the requests up to the next synchronization point are dropped.\<close>

fun extract_front ::
  "pipelineRequestEvent list \<Rightarrow> PgError option \<Rightarrow> pipelineRequestType \<times> pipelineRequestEvent list \<times> PgError option" where
  "extract_front [] pgErr = (pipelineNil, [], pgErr)"
| "extract_front (e # es) pgErr =
     (if \<not> (ev_WasSentToServer e \<and> ev_BeforeFlushOrSync e) then (pipelineNil, e # es, pgErr)
      else
        let pgErr = (if ev_RequestType e = pipelineSyncRequest then None else pgErr) in
        if pgErr = None then (ev_RequestType e, es, pgErr) else extract_front es pgErr)"

definition ExtractFrontRequestType :: "pipelineState \<Rightarrow> pipelineRequestType \<times> pipelineState" where
  "ExtractFrontRequestType s =
     (case extract_front (ps_requestEventQueue s) (ps_pgErr s) of
        (t, q, e) \<Rightarrow> (t, s\<lparr>ps_requestEventQueue := q, ps_pgErr := e\<rparr>))"

definition PushBackStatementData :: "StatementDescription \<Rightarrow> u16 list \<Rightarrow> pipelineState \<Rightarrow> pipelineState" where
  "PushBackStatementData sd resultFormats s =
     s\<lparr>ps_statementDescriptionsQueue := ps_statementDescriptionsQueue s @ [sd],
       ps_resultFormatsQueue := ps_resultFormatsQueue s @ [resultFormats]\<rparr>"

definition ExtractFrontStatementData ::
  "pipelineState \<Rightarrow> (StatementDescription option \<times> u16 list) \<times> pipelineState" where
  "ExtractFrontStatementData s =
     (let (sd, sds) = (case ps_statementDescriptionsQueue s of [] \<Rightarrow> (None, []) | sd # sds \<Rightarrow> (Some sd, sds));
          (rf, rfs) = (case ps_resultFormatsQueue s of [] \<Rightarrow> ([], []) | rf # rfs \<Rightarrow> (rf, rfs))
      in ((sd, rf), s\<lparr>ps_statementDescriptionsQueue := sds, ps_resultFormatsQueue := rfs\<rparr>))"

definition HandleReadyForQuery :: "pipelineState \<Rightarrow> pipelineState" where
  "HandleReadyForQuery s = s\<lparr>ps_expectedReadyForQueryCount := ps_expectedReadyForQueryCount s - 1\<rparr>"

definition PendingSync :: "pipelineState \<Rightarrow> bool" where
  "PendingSync s =
     (\<not> (case rev (ps_requestEventQueue s) of
           e # _ \<Rightarrow> ev_RequestType e = pipelineSyncRequest \<and> ev_WasSentToServer e
         | [] \<Rightarrow> ps_lastRequestType s = pipelineSyncRequest \<or> ps_lastRequestType s = pipelineNil))"

definition ExpectedReadyForQuery :: "pipelineState \<Rightarrow> int" where
  "ExpectedReadyForQuery s = ps_expectedReadyForQueryCount s"

section \<open>Sending requests\<close>

definition new_pipelineState :: pipelineState where
  "new_pipelineState = Init \<lparr>ps_requestEventQueue = [], ps_statementDescriptionsQueue = [], ps_resultFormatsQueue = [],
     ps_lastRequestType = pipelineNil, ps_pgErr = None, ps_expectedReadyForQueryCount = 0\<rparr>"

definition new_Pipeline :: "ctx \<Rightarrow> Pipeline" where
  "new_Pipeline c = \<lparr>pl_ctx = c, pl_state = new_pipelineState, pl_err = None, pl_closed = False\<rparr>"

text \<open>A pipeline that cannot start is an object of its own; otherwise it is that of the connection.\<close>

datatype pl_ref = PipelineAttached | PipelineDetached Pipeline

definition StartPipeline :: "ctx \<Rightarrow> PgConn \<Rightarrow> pl_ref \<times> PgConn" where
  "StartPipeline c pc =
     (case conn_lock pc of
        (Some err, pc) \<Rightarrow> (PipelineDetached ((new_Pipeline c)\<lparr>pl_closed := True, pl_err := Some err\<rparr>), pc)
      | (None, pc) \<Rightarrow>
          (case ctx_begin c (pc\<lparr>pc_resultReader := zero_ResultReader\<lparr>rr_closed := True\<rparr>,
                               pc_pipeline := new_Pipeline c\<rparr>) of
             (Some err, pc) \<Rightarrow>
               (PipelineAttached, conn_unlock (upd_pl (\<lambda>p. p\<lparr>pl_closed := True, pl_err := Some err\<rparr>) pc))
           | (None, pc) \<Rightarrow> (PipelineAttached, pc)))"

definition upd_state :: "(pipelineState \<Rightarrow> pipelineState) \<Rightarrow> PgConn \<Rightarrow> PgConn" where
  "upd_state g = upd_pl (\<lambda>p. p\<lparr>pl_state := g (pl_state p)\<rparr>)"

definition SendPrepare :: "bytes \<Rightarrow> bytes \<Rightarrow> u32 list \<Rightarrow> PgConn \<Rightarrow> PgConn" where
  "SendPrepare name sql paramOIDs pc =
     (if pl_closed (pc_pipeline pc) then pc
      else
        let pc = fe_send (SendParse \<lparr>parse_Name = name, parse_Query = sql, parse_ParameterOIDs = paramOIDs\<rparr>) pc;
            pc = fe_send (SendDescribe \<lparr>desc_ObjectType = chr CHR ''S'', desc_Name = name\<rparr>) pc
        in upd_state (PushBackRequestType pipelinePrepare) pc)"

definition SendDeallocate :: "bytes \<Rightarrow> PgConn \<Rightarrow> PgConn" where
  "SendDeallocate name pc =
     (if pl_closed (pc_pipeline pc) then pc
      else
        let pc = fe_send (SendClose \<lparr>desc_ObjectType = chr CHR ''S'', desc_Name = name\<rparr>) pc
        in upd_state (PushBackRequestType pipelineDeallocate) pc)"

definition pl_bind :: "bytes \<Rightarrow> bytes option list \<Rightarrow> u16 list \<Rightarrow> u16 list \<Rightarrow> PgConn \<Rightarrow> PgConn" where
  "pl_bind stmtName paramValues paramFormats resultFormats =
     fe_send (SendBind \<lparr>bind_DestinationPortal = [], bind_PreparedStatement = stmtName,
       bind_ParameterFormatCodes = paramFormats, bind_Parameters = paramValues,
       bind_ResultFormatCodes = resultFormats\<rparr>)"

definition SendQueryParams ::
  "bytes \<Rightarrow> bytes option list \<Rightarrow> u32 list \<Rightarrow> u16 list \<Rightarrow> u16 list \<Rightarrow> PgConn \<Rightarrow> PgConn" where
  "SendQueryParams sql paramValues paramOIDs paramFormats resultFormats pc =
     (if pl_closed (pc_pipeline pc) then pc
      else
        let pc = fe_send (SendParse \<lparr>parse_Name = [], parse_Query = sql, parse_ParameterOIDs = paramOIDs\<rparr>) pc;
            pc = pl_bind [] paramValues paramFormats resultFormats pc;
            pc = fe_send (SendDescribe \<lparr>desc_ObjectType = chr CHR ''P'', desc_Name = []\<rparr>) pc;
            pc = fe_send (SendExecute \<lparr>exec_Portal = [], exec_MaxRows = 0\<rparr>) pc
        in upd_state (PushBackRequestType pipelineQueryParams) pc)"

definition SendQueryPrepared ::
  "bytes \<Rightarrow> bytes option list \<Rightarrow> u16 list \<Rightarrow> u16 list \<Rightarrow> PgConn \<Rightarrow> PgConn" where
  "SendQueryPrepared stmtName paramValues paramFormats resultFormats pc =
     (if pl_closed (pc_pipeline pc) then pc
      else
        let pc = pl_bind stmtName paramValues paramFormats resultFormats pc;
            pc = fe_send (SendDescribe \<lparr>desc_ObjectType = chr CHR ''P'', desc_Name = []\<rparr>) pc;
            pc = fe_send (SendExecute \<lparr>exec_Portal = [], exec_MaxRows = 0\<rparr>) pc
        in upd_state (PushBackRequestType pipelineQueryPrepared) pc)"

definition SendQueryStatement ::
  "StatementDescription \<Rightarrow> bytes option list \<Rightarrow> u16 list \<Rightarrow> u16 list \<Rightarrow> PgConn \<Rightarrow> PgConn" where
  "SendQueryStatement sd paramValues paramFormats resultFormats pc =
     (if pl_closed (pc_pipeline pc) then pc
      else
        let pc = pl_bind (sd_Name sd) paramValues paramFormats resultFormats pc;
            pc = fe_send (SendExecute \<lparr>exec_Portal = [], exec_MaxRows = 0\<rparr>) pc;
            pc = upd_state (PushBackRequestType pipelineQueryStatement) pc
        in upd_state (PushBackStatementData sd resultFormats) pc)"

definition SendFlushRequest :: "PgConn \<Rightarrow> PgConn" where
  "SendFlushRequest pc =
     (if pl_closed (pc_pipeline pc) then pc
      else upd_state (PushBackRequestType pipelineFlushRequest) (fe_send (Frontend_Send FM_Flush) pc))"

definition SendPipelineSync :: "PgConn \<Rightarrow> PgConn" where
  "SendPipelineSync pc =
     (if pl_closed (pc_pipeline pc) then pc
      else upd_state (PushBackRequestType pipelineSyncRequest) (fe_send SendSync pc))"

definition closed_error :: "Pipeline \<Rightarrow> conn_err" where
  "closed_error p = (case pl_err p of Some err \<Rightarrow> err | None \<Rightarrow> MsgErr ''pipeline closed'')"

definition Pipeline_Flush :: "PgConn \<Rightarrow> conn_err option \<times> PgConn" where
  "Pipeline_Flush pc =
     (if pl_closed (pc_pipeline pc) then (Some (closed_error (pc_pipeline pc)), pc)
      else
        case conn_flush pc of
          (Some err, pc) \<Rightarrow>
            (let err = normalizeTimeoutError (pl_ctx (pc_pipeline pc)) err;
                 pc = conn_unlock (ctx_Unwatch (asyncClose pc))
             in (Some err, upd_pl (\<lambda>p. p\<lparr>pl_closed := True, pl_err := Some err\<rparr>) pc))
        | (None, pc) \<Rightarrow> (None, upd_state RegisterSendingToServer pc))"

definition Pipeline_Sync :: "PgConn \<Rightarrow> conn_err option \<times> PgConn" where
  "Pipeline_Sync pc = Pipeline_Flush (SendPipelineSync pc)"

section \<open>Reading results\<close>

datatype pipeline_result =
    NoResults
  | PrepareResult StatementDescription
  | QueryResult
  | CloseCompleteResult
  | PipelineSyncResult

type_synonym 'a pl_step = "PgConn \<Rightarrow> (conn_err + 'a) \<times> PgConn"

definition and_then :: "'a pl_step \<Rightarrow> ('a \<Rightarrow> 'b pl_step) \<Rightarrow> 'b pl_step" where
  "and_then s k pc =
     (case s pc of
        (Inl err, pc') \<Rightarrow> (Inl err, pc')
      | (Inr x, pc') \<Rightarrow> k x pc')"

fun filtered_message :: "BackendMessage \<Rightarrow> bool" where
  "filtered_message (BM_ParameterStatus _) \<longleftrightarrow> True"
| "filtered_message (BM_NoticeResponse _) \<longleftrightarrow> True"
| "filtered_message (BM_NotificationResponse _) \<longleftrightarrow> True"
| "filtered_message _ \<longleftrightarrow> False"

function pl_receiveMessage :: "BackendMessage pl_step" where
  "pl_receiveMessage pc =
     (case receiveMessage pc of
        (Inl err, pc') \<Rightarrow>
          (Inl (normalizeTimeoutError (pl_ctx (pc_pipeline pc')) err),
           asyncClose (upd_pl (\<lambda>p. p\<lparr>pl_err := Some err\<rparr>) pc'))
      | (Inr msg, pc') \<Rightarrow> if filtered_message msg then pl_receiveMessage pc' else (Inr msg, pc'))"
  by auto
termination
  by (relation "measure conn_left") (auto dest: receiveMessage_left [OF sym])

declare pl_receiveMessage.simps [simp del]

definition handleUnexpectedMessage :: "string \<Rightarrow> 'a pl_step" where
  "handleUnexpectedMessage errStr pc =
     (let err = MsgErr (''pipeline: '' @ errStr @ '': received unexpected message type %T'')
      in (Inl err, asyncClose (upd_pl (\<lambda>p. p\<lparr>pl_err := Some err\<rparr>) pc)))"

definition pl_error :: "ErrorResponse \<Rightarrow> 'a pl_step" where
  "pl_error m pc =
     (let pgErr = ErrorResponseToPgError m in (Inl (PgErr pgErr), upd_state (HandleError pgErr) pc))"

definition pl_error_close :: "ErrorResponse \<Rightarrow> 'a pl_step" where
  "pl_error_close m pc =
     (let (r, pc) = pl_error m pc in (r, upd_rr (\<lambda>rr. rr\<lparr>rr_closed := True\<rparr>) pc))"

definition receiveParseComplete :: "string \<Rightarrow> unit pl_step" where
  "receiveParseComplete errStr = and_then pl_receiveMessage (\<lambda>msg.
     case msg of
       BM_ParseComplete \<Rightarrow> (\<lambda>pc. (Inr (), pc))
     | BM_ErrorResponse m \<Rightarrow> pl_error m
     | _ \<Rightarrow> handleUnexpectedMessage (errStr @ '' Parse''))"

definition receiveBindComplete :: "string \<Rightarrow> unit pl_step" where
  "receiveBindComplete errStr = and_then pl_receiveMessage (\<lambda>msg.
     case msg of
       BM_BindComplete \<Rightarrow> (\<lambda>pc. (Inr (), pc))
     | BM_ErrorResponse m \<Rightarrow> pl_error m
     | _ \<Rightarrow> handleUnexpectedMessage (errStr @ '' Bind''))"

definition concluded_reader :: "bytes \<Rightarrow> pgconn_FieldDescription list \<Rightarrow> PgConn \<Rightarrow> (conn_err + pipeline_result) \<times> PgConn" where
  "concluded_reader tag fds pc =
     (Inr QueryResult, pc\<lparr>pc_resultReader := zero_ResultReader
        \<lparr>rr_commandTag := makeCommandTag tag, rr_commandConcluded := True, rr_closed := True,
         rr_fieldDescriptions := fds\<rparr>\<rparr>)"

definition open_reader :: "pgconn_FieldDescription list \<Rightarrow> PgConn \<Rightarrow> PgConn" where
  "open_reader fds pc =
     pc\<lparr>pc_resultReader := (new_ResultReader (pl_ctx (pc_pipeline pc)))\<lparr>rr_pipeline := True, rr_fieldDescriptions := fds\<rparr>\<rparr>"

definition receiveDescribedResultReader :: "string \<Rightarrow> pipeline_result pl_step" where
  "receiveDescribedResultReader errStr = and_then pl_receiveMessage (\<lambda>msg.
     case msg of
       BM_RowDescription m \<Rightarrow> (\<lambda>pc.
         (Inr QueryResult, open_reader (convertRowDescription m) (store_fields (convertRowDescription m) pc)))
     | BM_NoData \<Rightarrow> and_then pl_receiveMessage (\<lambda>msg.
         case msg of
           BM_CommandComplete m \<Rightarrow> concluded_reader (cc_CommandTag m) []
         | BM_ErrorResponse m \<Rightarrow> pl_error_close m
         | _ \<Rightarrow> handleUnexpectedMessage (errStr @ '' CommandComplete''))
     | BM_ErrorResponse m \<Rightarrow> pl_error_close m
     | _ \<Rightarrow> handleUnexpectedMessage (errStr @ '' RowDescription or NoData''))"

definition getResultsPrepare :: "pipeline_result pl_step" where
  "getResultsPrepare = and_then (receiveParseComplete ''Prepare'') (\<lambda>_. and_then pl_receiveMessage (\<lambda>msg.
     case msg of
       BM_ParameterDescription p \<Rightarrow>
         (let psd = \<lparr>sd_Name = [], sd_SQL = [], sd_ParamOIDs = pd_ParameterOIDs p, sd_Fields = []\<rparr> in
          and_then pl_receiveMessage (\<lambda>msg.
            case msg of
              BM_RowDescription m \<Rightarrow> (\<lambda>pc. (Inr (PrepareResult (psd\<lparr>sd_Fields := convertRowDescription m\<rparr>)), pc))
            | BM_NoData \<Rightarrow> (\<lambda>pc. (Inr (PrepareResult psd), pc))
            | BM_ErrorResponse m \<Rightarrow> pl_error m
            | _ \<Rightarrow> handleUnexpectedMessage ''Prepare RowDescription''))
     | BM_ErrorResponse m \<Rightarrow> pl_error m
     | _ \<Rightarrow> handleUnexpectedMessage ''Prepare ParameterDescription''))"

definition getResultsQueryParams :: "pipeline_result pl_step" where
  "getResultsQueryParams = and_then (receiveParseComplete ''QueryParams'') (\<lambda>_.
     and_then (receiveBindComplete ''QueryParams'') (\<lambda>_. receiveDescribedResultReader ''QueryParams''))"

definition getResultsQueryPrepared :: "pipeline_result pl_step" where
  "getResultsQueryPrepared =
     and_then (receiveBindComplete ''QueryPrepared'') (\<lambda>_. receiveDescribedResultReader ''QueryPrepared'')"

text \<open>The data of the statement is taken from its queue once the first message after the bind is there.\<close>

definition extract_statement :: "(StatementDescription option \<times> u16 list) pl_step" where
  "extract_statement pc =
     (let (d, st) = ExtractFrontStatementData (pl_state (pc_pipeline pc))
      in (Inr d, upd_pl (\<lambda>p. p\<lparr>pl_state := st\<rparr>) pc))"

definition statement_reader :: "BackendMessage \<Rightarrow> pgconn_FieldDescription list \<Rightarrow> pipeline_result pl_step" where
  "statement_reader msg fds =
     (case msg of
        BM_DataRow values \<Rightarrow> (\<lambda>pc.
          (Inr QueryResult, upd_rr (preloadRowValues values) (open_reader fds (store_fields fds pc))))
      | BM_CommandComplete m \<Rightarrow> (\<lambda>pc. concluded_reader (cc_CommandTag m) fds (store_fields fds pc))
      | BM_ErrorResponse m \<Rightarrow> (\<lambda>pc. pl_error_close m (store_fields fds pc))
      | _ \<Rightarrow> (\<lambda>pc. handleUnexpectedMessage ''QueryStatement'' (store_fields fds pc)))"

definition statement_result :: "BackendMessage \<Rightarrow> pipeline_result pl_step" where
  "statement_result msg = and_then extract_statement (\<lambda>(sd, resultFormats).
     case sd of
       None \<Rightarrow> (\<lambda>pc. (Inl (MsgErr ''BUG: missing statement description or result formats for QueryStatement''), pc))
     | Some sd \<Rightarrow>
         (case combineFieldDescriptionsAndResultFormats (sd_Fields sd) resultFormats of
            Inl err \<Rightarrow> (\<lambda>pc. (Inl err, pc))
          | Inr fds \<Rightarrow> statement_reader msg fds))"

definition getResultsQueryStatement :: "pipeline_result pl_step" where
  "getResultsQueryStatement =
     and_then (receiveBindComplete ''QueryStatement'') (\<lambda>_. and_then pl_receiveMessage statement_result)"

definition getResultsDeallocate :: "pipeline_result pl_step" where
  "getResultsDeallocate = and_then pl_receiveMessage (\<lambda>msg.
     case msg of
       BM_CloseComplete \<Rightarrow> (\<lambda>pc. (Inr CloseCompleteResult, pc))
     | BM_ErrorResponse m \<Rightarrow> pl_error_close m
     | _ \<Rightarrow> handleUnexpectedMessage ''Deallocate'')"

definition PushFrontSync :: "pipelineState \<Rightarrow> pipelineState" where
  "PushFrontSync s = s\<lparr>ps_requestEventQueue :=
     \<lparr>ev_RequestType = pipelineSyncRequest, ev_WasSentToServer = True, ev_BeforeFlushOrSync = True\<rparr> # ps_requestEventQueue s\<rparr>"

definition sync_result :: "BackendMessage \<Rightarrow> pipeline_result pl_step" where
  "sync_result msg =
     (case msg of
        BM_ReadyForQuery _ \<Rightarrow> (\<lambda>pc. (Inr PipelineSyncResult, upd_state HandleReadyForQuery pc))
      | BM_ErrorResponse m \<Rightarrow> (\<lambda>pc. pl_error_close m (upd_state PushFrontSync pc))
      | _ \<Rightarrow> handleUnexpectedMessage ''Sync'')"

definition getResultsSync :: "pipeline_result pl_step" where
  "getResultsSync = and_then pl_receiveMessage sync_result"

definition dispatch_request :: "pipelineRequestType \<Rightarrow> pipeline_result pl_step" where
  "dispatch_request t =
     (case t of
        pipelineNil \<Rightarrow> (\<lambda>pc. (Inr NoResults, pc))
      | pipelinePrepare \<Rightarrow> getResultsPrepare
      | pipelineQueryParams \<Rightarrow> getResultsQueryParams
      | pipelineQueryPrepared \<Rightarrow> getResultsQueryPrepared
      | pipelineQueryStatement \<Rightarrow> getResultsQueryStatement
      | pipelineDeallocate \<Rightarrow> getResultsDeallocate
      | pipelineSyncRequest \<Rightarrow> getResultsSync
      | pipelineFlushRequest \<Rightarrow> (\<lambda>pc. (Inl (MsgErr ''BUG: pipelineFlushRequest should not be in request queue''), pc)))"

definition close_reader :: "unit pl_step" where
  "close_reader pc =
     (if rr_closed (pc_resultReader pc) then (Inr (), pc)
      else
        case ResultReader_Close pc of
          ((_, Some err), pc) \<Rightarrow> (Inl err, pc)
        | ((_, None), pc) \<Rightarrow> (Inr (), pc))"

definition next_request :: "pipeline_result pl_step" where
  "next_request pc =
     (let (t, st) = ExtractFrontRequestType (pl_state (pc_pipeline pc))
      in dispatch_request t (upd_pl (\<lambda>p. p\<lparr>pl_state := st\<rparr>) pc))"

definition pl_getResults :: "pipeline_result pl_step" where
  "pl_getResults = and_then close_reader (\<lambda>_. next_request)"

definition GetResults :: "pipeline_result pl_step" where
  "GetResults pc =
     (if pl_closed (pc_pipeline pc) then (Inl (closed_error (pc_pipeline pc)), pc) else pl_getResults pc)"

section \<open>Each result takes from the queue or from the messages\<close>

abbreviation pl_queue :: "PgConn \<Rightarrow> pipelineRequestEvent list" where
  "pl_queue pc \<equiv> ps_requestEventQueue (pl_state (pc_pipeline pc))"

definition pl_weight :: "PgConn \<Rightarrow> nat" where
  "pl_weight pc = conn_left pc + length (pl_queue pc)"

definition pl_left :: "PgConn \<Rightarrow> nat" where
  "pl_left pc = pl_weight pc + (if rr_closed (pc_resultReader pc) then 0 else 1)"

text \<open>A step that adds no weight, and opens no reader when it fails.\<close>

definition pl_bounded :: "'a pl_step \<Rightarrow> bool" where
  "pl_bounded s \<longleftrightarrow> (\<forall>pc r pc'. s pc = (r, pc') \<longrightarrow>
     pl_weight pc' \<le> pl_weight pc
   \<and> (isl r \<longrightarrow> rr_closed (pc_resultReader pc) \<longrightarrow> rr_closed (pc_resultReader pc')))"

lemma pl_boundedD:
  "pl_bounded s \<Longrightarrow> s pc = (r, pc') \<Longrightarrow> pl_weight pc' \<le> pl_weight pc
     \<and> (isl r \<longrightarrow> rr_closed (pc_resultReader pc) \<longrightarrow> rr_closed (pc_resultReader pc'))"
  by (simp add: pl_bounded_def)

lemma pl_receiveMessage_weight:
  "pl_receiveMessage pc = (r, pc') \<Longrightarrow>
     pl_weight pc' \<le> pl_weight pc \<and> (\<not> isl r \<longrightarrow> pl_weight pc' < pl_weight pc)
   \<and> rr_closed (pc_resultReader pc') = rr_closed (pc_resultReader pc)"
proof (induction pc rule: pl_receiveMessage.induct)
  case (1 pc)
  obtain r1 pc1 where r: "receiveMessage pc = (r1, pc1)" by fastforce
  note f = receiveMessage_frame [OF r] receiveMessage_mono [OF r]
  show ?case
  proof (cases r1)
    case (Inl e)
    with "1.prems" r f show ?thesis
      by (auto simp: pl_receiveMessage.simps [of pc] pl_weight_def receive_frame_def)
  next
    case (Inr m)
    with "1.prems" r f receiveMessage_left [of pc m pc1] "1.IH" [OF r [symmetric] Inr] show ?thesis
      by (fastforce simp: pl_receiveMessage.simps [of pc] pl_weight_def receive_frame_def split: if_splits)
  qed
qed

lemma pl_bounded_receive [simp]: "pl_bounded pl_receiveMessage"
  using pl_receiveMessage_weight by (fastforce simp: pl_bounded_def)

lemma pl_bounded_and_then:
  assumes "pl_bounded s" and "\<And>x. pl_bounded (k x)"
    and "\<And>pc x pc'. s pc = (Inr x, pc') \<Longrightarrow> rr_closed (pc_resultReader pc') = rr_closed (pc_resultReader pc)"
  shows "pl_bounded (and_then s k)"
  unfolding pl_bounded_def
proof (intro allI impI)
  fix pc r pc'
  assume a: "and_then s k pc = (r, pc')"
  obtain r1 pc1 where r: "s pc = (r1, pc1)" by fastforce
  show "pl_weight pc' \<le> pl_weight pc \<and> (isl r \<longrightarrow> rr_closed (pc_resultReader pc) \<longrightarrow> rr_closed (pc_resultReader pc'))"
  proof (cases r1)
    case (Inl e)
    with a r pl_boundedD [OF assms(1) r] show ?thesis by (auto simp: and_then_def)
  next
    case (Inr x)
    with a r have "k x pc1 = (r, pc')" by (simp add: and_then_def)
    from pl_boundedD [OF assms(2) this] pl_boundedD [OF assms(1) r] assms(3) [of pc x pc1] r Inr
    show ?thesis by auto
  qed
qed

lemma pl_bounded_and_receive: "(\<And>x. pl_bounded (k x)) \<Longrightarrow> pl_bounded (and_then pl_receiveMessage k)"
  by (rule pl_bounded_and_then) (auto dest: pl_receiveMessage_weight)

lemma upd_state_rr [simp]: "pc_resultReader (upd_state g pc) = pc_resultReader pc"
  by (simp add: upd_state_def)

lemma pl_weight_simps [simp]:
  "pl_weight (pc\<lparr>pc_resultReader := rr\<rparr>) = pl_weight pc"
  "pl_weight (asyncClose pc) = pl_weight pc"
  "pl_weight (store_fields fds pc) = pl_weight pc"
  "pl_weight (upd_pl (\<lambda>p. p\<lparr>pl_err := e\<rparr>) pc) = pl_weight pc"
  "pl_weight (upd_state (HandleError err) pc) = pl_weight pc"
  "pl_weight (upd_state HandleReadyForQuery pc) = pl_weight pc"
  "pl_weight (upd_state PushFrontSync pc) = Suc (pl_weight pc)"
  by (simp_all add: pl_weight_def upd_state_def HandleError_def HandleReadyForQuery_def PushFrontSync_def)

lemma pl_bounded_simps [simp]:
  "pl_bounded (\<lambda>pc. (Inr x, pc))"
  "pl_bounded (\<lambda>pc. (Inl e, pc))"
  "pl_bounded (pl_error m)"
  "pl_bounded (pl_error_close m)"
  "pl_bounded (handleUnexpectedMessage s)"
  "pl_bounded (concluded_reader t fds)"
  "pl_bounded (\<lambda>pc. (Inr x, open_reader fds (store_fields fds pc)))"
  "pl_bounded (\<lambda>pc. (Inr x, upd_state HandleReadyForQuery pc))"
  by (auto simp: pl_bounded_def pl_error_def pl_error_close_def handleUnexpectedMessage_def concluded_reader_def
      open_reader_def Let_def)

definition pl_strict :: "'a pl_step \<Rightarrow> bool" where
  "pl_strict s \<longleftrightarrow> pl_bounded s \<and> (\<forall>pc x pc'. s pc = (Inr x, pc') \<longrightarrow> pl_weight pc' < pl_weight pc)"

lemma pl_strict_and_then:
  assumes "pl_strict s" and "\<And>x. pl_bounded (k x)"
    and "\<And>pc x pc'. s pc = (Inr x, pc') \<Longrightarrow> rr_closed (pc_resultReader pc') = rr_closed (pc_resultReader pc)"
  shows "pl_strict (and_then s k)"
proof -
  have "pl_weight pc' < pl_weight pc" if "and_then s k pc = (Inr x, pc')" for pc x pc'
  proof -
    from that obtain y pc1 where y: "s pc = (Inr y, pc1)" "k y pc1 = (Inr x, pc')"
      by (auto simp: and_then_def split: prod.splits sum.splits)
    with assms(1) pl_boundedD [OF assms(2) y(2)] show ?thesis by (fastforce simp: pl_strict_def)
  qed
  with pl_bounded_and_then [of s k, OF _ assms(2,3)] assms(1) show ?thesis by (simp add: pl_strict_def)
qed

lemma pl_strict_receive: "pl_strict pl_receiveMessage"
  using pl_receiveMessage_weight by (fastforce simp: pl_strict_def)

lemma pl_strict_and_receive: "(\<And>x. pl_bounded (k x)) \<Longrightarrow> pl_strict (and_then pl_receiveMessage k)"
  by (rule pl_strict_and_then) (auto simp: pl_strict_receive dest: pl_receiveMessage_weight)

lemma pl_strict_bounded: "pl_strict s \<Longrightarrow> pl_bounded s"
  by (simp add: pl_strict_def)

lemma receiveParse_strict [simp]: "pl_strict (receiveParseComplete s)"
  unfolding receiveParseComplete_def by (rule pl_strict_and_receive) (simp split: BackendMessage.split)

lemma receiveBind_strict [simp]: "pl_strict (receiveBindComplete s)"
  unfolding receiveBindComplete_def by (rule pl_strict_and_receive) (simp split: BackendMessage.split)

lemma receive_expected_keeps:
  "receiveParseComplete s pc = (Inr x, pc') \<Longrightarrow> rr_closed (pc_resultReader pc') = rr_closed (pc_resultReader pc)"
  "receiveBindComplete s pc = (Inr x, pc') \<Longrightarrow> rr_closed (pc_resultReader pc') = rr_closed (pc_resultReader pc)"
  using pl_receiveMessage_weight [of pc]
  by (auto simp: receiveParseComplete_def receiveBindComplete_def and_then_def pl_error_def handleUnexpectedMessage_def
      Let_def split: prod.splits sum.splits BackendMessage.splits)

lemma receiveDescribed_strict [simp]: "pl_strict (receiveDescribedResultReader s)"
  unfolding receiveDescribedResultReader_def
  by (rule pl_strict_and_receive)
    (auto split: BackendMessage.split intro!: pl_bounded_and_receive)

lemma extract_statement_bounded: "pl_bounded extract_statement"
  "extract_statement pc = (Inr x, pc') \<Longrightarrow> rr_closed (pc_resultReader pc') = rr_closed (pc_resultReader pc)"
  by (auto simp: extract_statement_def pl_bounded_def ExtractFrontStatementData_def pl_weight_def Let_def
      split: prod.splits)

lemma pl_bounded_store: "pl_bounded s \<Longrightarrow> pl_bounded (\<lambda>pc. s (store_fields fds pc))"
  by (fastforce simp: pl_bounded_def)

lemma statement_reader_bounded [simp]: "pl_bounded (statement_reader msg fds)"
proof (cases msg)
  case (BM_DataRow vs)
  then show ?thesis by (simp add: statement_reader_def pl_bounded_def open_reader_def)
qed (simp_all add: statement_reader_def pl_bounded_store)

lemma statement_result_bounded [simp]: "pl_bounded (statement_result msg)"
  unfolding statement_result_def
  by (rule pl_bounded_and_then) (auto simp: extract_statement_bounded split: option.split sum.split)

lemma getResults_strict [simp]:
  "pl_strict getResultsPrepare" "pl_strict getResultsQueryParams" "pl_strict getResultsQueryPrepared"
  "pl_strict getResultsQueryStatement" "pl_strict getResultsDeallocate"
proof -
  show "pl_strict getResultsPrepare"
    unfolding getResultsPrepare_def
    by (rule pl_strict_and_then)
      (auto simp: receive_expected_keeps Let_def split: BackendMessage.split intro!: pl_bounded_and_receive)
  show "pl_strict getResultsQueryParams"
    unfolding getResultsQueryParams_def
    by (rule pl_strict_and_then)
      (auto simp: receive_expected_keeps pl_strict_bounded intro!: pl_bounded_and_then)
  show "pl_strict getResultsQueryPrepared"
    unfolding getResultsQueryPrepared_def
    by (rule pl_strict_and_then) (auto simp: receive_expected_keeps pl_strict_bounded)
  show "pl_strict getResultsQueryStatement"
    unfolding getResultsQueryStatement_def
    by (rule pl_strict_and_then) (auto simp: receive_expected_keeps intro!: pl_bounded_and_receive)
  show "pl_strict getResultsDeallocate"
    unfolding getResultsDeallocate_def
    by (rule pl_strict_and_receive) (simp split: BackendMessage.split)
qed

lemma sync_result_bounded: "\<not> (\<exists>e. m = BM_ErrorResponse e) \<Longrightarrow> pl_bounded (sync_result m)"
  by (cases m) (simp_all add: sync_result_def)

lemma sync_result_error:
  assumes "sync_result (BM_ErrorResponse e) pc = (r, pc')"
  shows "isl r" "pl_weight pc' = Suc (pl_weight pc)" "rr_closed (pc_resultReader pc')"
  using assms by (auto simp: sync_result_def pl_error_close_def pl_error_def Let_def)

lemma sync_result_weight:
  assumes "sync_result m pc = (r, pc')"
  shows "if isl r then pl_weight pc' \<le> Suc (pl_weight pc) \<and> (rr_closed (pc_resultReader pc) \<longrightarrow> rr_closed (pc_resultReader pc'))
    else pl_weight pc' \<le> pl_weight pc"
proof (cases "\<exists>e. m = BM_ErrorResponse e")
  case True
  then obtain e where "m = BM_ErrorResponse e" by blast
  with sync_result_error [of e pc r pc'] assms show ?thesis by simp
next
  case False
  from pl_boundedD [OF sync_result_bounded [OF False] assms] show ?thesis by simp
qed

lemma getResultsSync_weight:
  assumes "getResultsSync pc = (r, pc')"
  shows "pl_weight pc' \<le> pl_weight pc" and "isl r \<Longrightarrow> rr_closed (pc_resultReader pc) \<Longrightarrow> rr_closed (pc_resultReader pc')"
    and "\<not> isl r \<Longrightarrow> pl_weight pc' < pl_weight pc"
proof -
  obtain r1 pc1 where r: "pl_receiveMessage pc = (r1, pc1)" by fastforce
  note w = pl_receiveMessage_weight [OF r]
  have "pl_weight pc' \<le> pl_weight pc \<and> (isl r \<longrightarrow> rr_closed (pc_resultReader pc) \<longrightarrow> rr_closed (pc_resultReader pc'))
      \<and> (\<not> isl r \<longrightarrow> pl_weight pc' < pl_weight pc)"
  proof (cases r1)
    case (Inl e)
    with assms r have "r = Inl e" "pc' = pc1" by (simp_all add: getResultsSync_def and_then_def)
    with w show ?thesis by simp
  next
    case (Inr m)
    with assms r have "sync_result m pc1 = (r, pc')" by (simp add: getResultsSync_def and_then_def)
    from sync_result_weight [OF this] w Inr show ?thesis by (cases "isl r") simp_all
  qed
  then show "pl_weight pc' \<le> pl_weight pc" "isl r \<Longrightarrow> rr_closed (pc_resultReader pc) \<Longrightarrow> rr_closed (pc_resultReader pc')"
    "\<not> isl r \<Longrightarrow> pl_weight pc' < pl_weight pc"
    by blast+
qed

lemma getResultsSync_strict [simp]: "pl_strict getResultsSync"
  unfolding pl_strict_def pl_bounded_def
  using getResultsSync_weight by (metis isl_def sum.disc(2))

lemma extract_front_shrinks:
  "extract_front q e = (t, q', e') \<Longrightarrow> length q' \<le> length q \<and> (t \<noteq> pipelineNil \<longrightarrow> length q' < length q)"
proof (induction q e rule: extract_front.induct)
  case (2 ev es e)
  then show ?case by (auto simp: Let_def split: if_splits)
qed simp

lemma pl_strict_fail [simp]: "pl_strict (\<lambda>pc. (Inl e, pc))"
  by (simp add: pl_strict_def)

lemma dispatch_strict: "t \<noteq> pipelineNil \<Longrightarrow> pl_strict (dispatch_request t)"
  by (cases t) (simp_all add: dispatch_request_def)

lemma next_request_left:
  assumes "next_request pc = (r, pc')" and "r \<noteq> Inr NoResults"
  shows "pl_left pc' < pl_left pc"
proof -
  obtain t st where e: "ExtractFrontRequestType (pl_state (pc_pipeline pc)) = (t, st)" by fastforce
  let ?pc = "upd_pl (\<lambda>p. p\<lparr>pl_state := st\<rparr>) pc"
  have d: "dispatch_request t ?pc = (r, pc')"
    using assms(1) e by (simp add: next_request_def)
  with assms(2) have t: "t \<noteq> pipelineNil" by (auto simp: dispatch_request_def)
  then have w: "pl_weight ?pc < pl_weight pc"
    using e extract_front_shrinks [of "pl_queue pc" "ps_pgErr (pl_state (pc_pipeline pc))"]
    by (auto simp: ExtractFrontRequestType_def pl_weight_def split: prod.splits)
  from dispatch_strict [OF t] have s: "pl_strict (dispatch_request t)" .
  show ?thesis
  proof (cases r)
    case (Inl err)
    with pl_boundedD [OF pl_strict_bounded [OF s] d] w show ?thesis by (auto simp: pl_left_def)
  next
    case (Inr x)
    with s d have "pl_weight pc' < pl_weight ?pc" unfolding pl_strict_def by blast
    with w show ?thesis by (auto simp: pl_left_def)
  qed
qed

text \<open>Reading through the reader leaves the queue as it is.\<close>

lemma mrr_receiveMessage_pipeline:
  assumes "mrr_receiveMessage pc = (r, pc')"
  shows "pc_pipeline pc' = pc_pipeline pc"
proof -
  obtain r1 pc1 where r: "receiveMessage pc = (r1, pc1)" by fastforce
  then have "pc_pipeline pc1 = pc_pipeline pc" by (auto dest!: receiveMessage_frame simp: receive_frame_def)
  moreover have "pc_pipeline pc' = pc_pipeline pc1"
  proof (cases r1)
    case (Inl e)
    with assms r show ?thesis by (auto simp: mrr_receiveMessage_def Let_def)
  next
    case (Inr m)
    with assms r show ?thesis by (cases m) (auto simp: mrr_receiveMessage_def)
  qed
  ultimately show ?thesis by simp
qed

lemma rr_handle_queue: "pl_queue (rr_handle m pc) = pl_queue pc"
  by (simp add: rr_handle_def Let_def HandleError_def split: BackendMessage.split)

lemma rr_receiveMessage_queue:
  assumes "rr_receiveMessage pc = (r, pc')"
  shows "pl_queue pc' = pl_queue pc"
proof -
  obtain r1 pc1 where r: "(if rr_multiResultReader (pc_resultReader pc) then mrr_receiveMessage pc else receiveMessage pc) = (r1, pc1)"
    by fastforce
  then have "pc_pipeline pc1 = pc_pipeline pc"
    by (auto dest!: receiveMessage_frame mrr_receiveMessage_pipeline simp: receive_frame_def split: if_splits)
  with assms r show ?thesis
    by (cases r1) (auto simp: rr_receiveMessage_def Let_def rr_handle_queue split: if_splits)
qed

lemma close_reader_left:
  assumes "close_reader pc = (r, pc')"
  shows "pl_left pc' \<le> pl_left pc" and "isl r \<Longrightarrow> pl_left pc' < pl_left pc"
proof -
  have "pl_left pc' \<le> pl_left pc \<and> (isl r \<longrightarrow> pl_left pc' < pl_left pc)"
  proof (cases "rr_closed (pc_resultReader pc)")
    case True
    with assms show ?thesis by (auto simp: close_reader_def)
  next
    case False
    let ?P = "\<lambda>x. conn_left x \<le> conn_left pc \<and> pl_queue x = pl_queue pc \<and> rr_closed (pc_resultReader x)"
    obtain res pc1 where c: "ResultReader_Close pc = (res, pc1)" by fastforce
    let ?pc0 = "upd_rr (\<lambda>rr. rr\<lparr>rr_closed := True\<rparr>) pc"
    have step: "?P pc3" if "?P pc2" "rr_receiveMessage pc2 = (r2, pc3)" for pc2 r2 pc3
      using that rr_receiveMessage_mono [OF that(2)] rr_receiveMessage_queue [OF that(2)] rr_receiveMessage_frame [OF that(2)]
      by (auto simp: rr_frame_def)
    obtain e pc2 where e: "Close_loop ?pc0 = (e, pc2)" by fastforce
    have p2: "?P pc2" by (rule Close_loop_keeps [where P = ?P, OF step _ e]) auto
    have "?P pc3" if "Close_ready_loop pc2 = (res, pc3)" for pc3
      by (rule Close_ready_loop_keeps [where P = ?P, OF step _ _ p2 that]) auto
    with p2 c e False have "?P pc1"
      by (auto simp: ResultReader_Close_def split: option.splits if_splits)
    with assms False c show ?thesis
      by (auto simp: close_reader_def pl_left_def pl_weight_def split: prod.splits option.splits)
  qed
  then show "pl_left pc' \<le> pl_left pc" "isl r \<Longrightarrow> pl_left pc' < pl_left pc" by blast+
qed

lemma pl_getResults_left:
  assumes "pl_getResults pc = (r, pc')" and "r \<noteq> Inr NoResults"
  shows "pl_left pc' < pl_left pc"
proof -
  obtain r1 pc1 where c: "close_reader pc = (r1, pc1)" by fastforce
  show ?thesis
    using assms c close_reader_left [OF c] next_request_left [of pc1 r pc']
    by (cases r1) (auto simp: pl_getResults_def and_then_def)
qed

lemma pl_getResults_continue:
  "pl_getResults pc = (Inl err, pc') \<Longrightarrow> pl_left (upd_pl (\<lambda>p. p\<lparr>pl_err := e\<rparr>) pc') < pl_left pc"
  "pl_getResults pc = (Inr x, pc') \<Longrightarrow> x \<noteq> NoResults \<Longrightarrow> pl_left pc' < pl_left pc"
  using pl_getResults_left [of pc "Inl err" pc'] pl_getResults_left [of pc "Inr x" pc'] by (auto simp: pl_left_def)

function Close_results_loop :: "PgConn \<Rightarrow> PgConn" where
  "Close_results_loop pc =
     (if ExpectedReadyForQuery (pl_state (pc_pipeline pc)) > 0 then
        (case pl_getResults pc of
           (Inl err, pc') \<Rightarrow>
             (let pc'' = upd_pl (\<lambda>p. p\<lparr>pl_err := Some err\<rparr>) pc' in
              if as_PgError err = None then asyncClose pc'' else Close_results_loop pc'')
         | (Inr results, pc') \<Rightarrow>
             if results = NoResults then
               upd_pl (\<lambda>p. if pl_err p = None
                 then p\<lparr>pl_err := Some (MsgErr ''pipeline: no more results but expected ReadyForQuery'')\<rparr> else p)
                 (asyncClose pc')
             else Close_results_loop pc')
      else pc)"
  by auto
termination
  by (relation "measure pl_left")
     (auto intro: pl_getResults_continue [OF sym])

declare Close_results_loop.simps [simp del]

definition Pipeline_Close :: "PgConn \<Rightarrow> conn_err option \<times> PgConn" where
  "Pipeline_Close pc =
     (if pl_closed (pc_pipeline pc) then (pl_err (pc_pipeline pc), pc)
      else
        let pc = upd_pl (\<lambda>p. p\<lparr>pl_closed := True\<rparr>) pc in
        if PendingSync (pl_state (pc_pipeline pc)) then
          (let err = MsgErr ''pipeline has unsynced requests'';
               pc = upd_pl (\<lambda>p. p\<lparr>pl_err := Some err\<rparr>) (asyncClose pc)
           in (Some err, conn_unlock (ctx_Unwatch pc)))
        else
          let pc = conn_unlock (ctx_Unwatch (Close_results_loop pc))
          in (pl_err (pc_pipeline pc), pc))"

end
