(* ===== verification/Pgconn_Inv.thy ===== *)
theory Pgconn_Inv
  imports Pgconn_Commands Pgconn_Pipeline
begin

text \<open>
  The life of a connection as a transition system: which commands and readers may be used when, and the
  invariant that holds throughout, whatever the server sends and the network does.
\<close>

section \<open>What the operations keep\<close>

text \<open>The invariant of a connection says nothing about its readers.\<close>

lemma conn_ok_cong:
  assumes "pc_panics pc' = pc_panics pc" and "pc_status pc' = pc_status pc" and "pc_cleanupDone pc' = pc_cleanupDone pc"
    and "pc_watching pc' = pc_watching pc" and "pc_bufferingReceive pc' = pc_bufferingReceive pc"
    and "pc_bufferingReceiveMsg pc' = pc_bufferingReceiveMsg pc" and "ep_cr (pc_frontend pc') = ep_cr (pc_frontend pc)"
    and "pc_peekedMsg pc' = pc_peekedMsg pc"
  shows "conn_ok pc' = conn_ok pc"
  using assms by (simp add: conn_ok_def conn_sound_def)

lemma conn_ok_simps [simp]:
  "conn_ok (pc\<lparr>pc_resultReader := rr\<rparr>) = conn_ok pc"
  "conn_ok (pc\<lparr>pc_multiResultReader := mrr\<rparr>) = conn_ok pc"
  "conn_ok (pc\<lparr>pc_pipeline := pl\<rparr>) = conn_ok pc"
  "conn_ok (store_fields fds pc) = conn_ok pc"
  by (rule conn_ok_cong; simp)+

lemma rr_handle_keeps [simp]:
  "conn_ok (rr_handle m pc) = conn_ok pc" "pc_status (rr_handle m pc) = pc_status pc"
  "pc_watching (rr_handle m pc) = pc_watching pc"
  "pc_multiResultReader (rr_handle m pc) = pc_multiResultReader pc"
  "rr_closed (pc_resultReader (rr_handle m pc)) = rr_closed (pc_resultReader pc)"
  "pl_closed (pc_pipeline (rr_handle m pc)) = pl_closed (pc_pipeline pc)"
  by (cases m; simp add: rr_handle_def Let_def)+

lemma peekMessage_status:
  assumes "peekMessage pc = (Inr m, pc')"
  shows "pc_status pc' = pc_status pc"
  using assms by (auto simp: peekMessage_def buffered_Receive_def conn_Receive_def Let_def
      split: option.splits prod.splits sum.splits if_splits)

lemma handle_message_status: "handle_message m pc = (Inr m', pc') \<Longrightarrow> pc_status pc' = pc_status pc \<and> m' = m"
  by (cases m) (auto simp: handle_message_def Let_def split: option.splits if_splits)

lemma receiveMessage_status:
  assumes "receiveMessage pc = (Inr m, pc')"
  shows "pc_status pc' = pc_status pc"
proof -
  from assms obtain m1 pc1 where p: "peekMessage pc = (Inr m1, pc1)"
    "handle_message m1 (pc1\<lparr>pc_peekedMsg := None\<rparr>) = (Inr m, pc')"
    by (auto simp: receiveMessage_def split: if_splits prod.splits sum.splits)
  with peekMessage_status [OF p(1)] handle_message_status [OF p(2)] show ?thesis by simp
qed

lemma receiveMessage_keeps:
  assumes "receiveMessage pc = (r, pc')"
  shows "pc_resultReader pc' = pc_resultReader pc" "pc_multiResultReader pc' = pc_multiResultReader pc"
    "pc_pipeline pc' = pc_pipeline pc" "pc_watching pc' = pc_watching pc"
    "pc_status pc' = pc_status pc \<or> pc_status pc' = connStatusClosed"
  using receiveMessage_frame [OF assms] by (simp_all add: receive_frame_def)

section \<open>The reader of one result\<close>

text \<open>
  A reader that does not belong to a reader of several results: receiving keeps the invariant, and an error
  closes both the reader and the connection.
\<close>

lemma rr_receive_single:
  assumes "conn_ok pc" and "\<not> rr_multiResultReader (pc_resultReader pc)" and "rr_receiveMessage pc = (r, pc')"
    and "rr_pgConn (pc_resultReader pc)"
  shows "conn_ok pc'" and "isl r \<Longrightarrow> pc_status pc' = connStatusClosed \<and> rr_closed (pc_resultReader pc')
      \<and> rr_commandConcluded (pc_resultReader pc')"
    and "\<not> isl r \<Longrightarrow> pc_status pc' = pc_status pc \<and> rr_closed (pc_resultReader pc') = rr_closed (pc_resultReader pc)"
    and "pl_closed (pc_pipeline pc') = pl_closed (pc_pipeline pc)"
    and "pc_multiResultReader pc' = pc_multiResultReader pc"
proof -
  obtain r1 pc1 where r: "receiveMessage pc = (r1, pc1)" by fastforce
  note ok = receiveMessage_ok [OF assms(1) r] and keeps = receiveMessage_keeps [OF r]
  have "conn_ok pc' \<and> (isl r \<longrightarrow> pc_status pc' = connStatusClosed \<and> rr_closed (pc_resultReader pc')
      \<and> rr_commandConcluded (pc_resultReader pc'))
    \<and> (\<not> isl r \<longrightarrow> pc_status pc' = pc_status pc \<and> rr_closed (pc_resultReader pc') = rr_closed (pc_resultReader pc))
    \<and> pl_closed (pc_pipeline pc') = pl_closed (pc_pipeline pc) \<and> pc_multiResultReader pc' = pc_multiResultReader pc"
  proof (cases r1)
    case (Inl e)
    define rr where "rr = (concludeCommand no_tag (Some (normalizeTimeoutError (rr_ctx (pc_resultReader pc1)) e))
      (pc_resultReader pc1))\<lparr>rr_closed := True\<rparr>"
    have "isl r" "pc' = asyncClose ((ctx_Unwatch pc1)\<lparr>pc_resultReader := rr\<rparr>)"
      using Inl assms(2-4) r keeps(1) by (auto simp: rr_receiveMessage_def Let_def rr_def ctx_Unwatch_def)
    with ok keeps show ?thesis by (simp add: asyncClose_ok ctx_Unwatch_ok rr_def)
  next
    case (Inr m)
    with assms(2-4) r have "r = Inr m" "pc' = rr_handle m pc1" by (simp_all add: rr_receiveMessage_def)
    with Inr r keeps ok receiveMessage_status [of pc m pc1] show ?thesis by simp
  qed
  then show "conn_ok pc'" "isl r \<Longrightarrow> pc_status pc' = connStatusClosed \<and> rr_closed (pc_resultReader pc')
      \<and> rr_commandConcluded (pc_resultReader pc')"
    "\<not> isl r \<Longrightarrow> pc_status pc' = pc_status pc \<and> rr_closed (pc_resultReader pc') = rr_closed (pc_resultReader pc)"
    "pl_closed (pc_pipeline pc') = pl_closed (pc_pipeline pc)"
    "pc_multiResultReader pc' = pc_multiResultReader pc"
    by blast+
qed

text \<open>What a reader may rely on while it reads, and how it leaves the connection.\<close>

definition rr_session :: "PgConn \<Rightarrow> bool" where
  "rr_session pc \<longleftrightarrow> conn_ok pc \<and> rr_pgConn (pc_resultReader pc) \<and> \<not> rr_multiResultReader (pc_resultReader pc) \<and> \<not> rr_pipeline (pc_resultReader pc)
     \<and> (if rr_closed (pc_resultReader pc)
        then rr_commandConcluded (pc_resultReader pc) \<and> pc_status pc \<in> {connStatusIdle, connStatusClosed}
        else pc_status pc \<in> {connStatusBusy, connStatusClosed})"

lemma rr_handle_concluded:
  "rr_commandConcluded (pc_resultReader pc) \<Longrightarrow> rr_commandConcluded (pc_resultReader (rr_handle m pc))"
  by (cases m) (simp_all add: rr_handle_def Let_def)

lemma rr_receive_concluded:
  assumes "rr_commandConcluded (pc_resultReader pc)" and "\<not> rr_multiResultReader (pc_resultReader pc)"
    and "rr_receiveMessage pc = (r, pc')"
  shows "rr_commandConcluded (pc_resultReader pc')"
proof -
  obtain r1 pc1 where r: "receiveMessage pc = (r1, pc1)" by fastforce
  have c: "pc_resultReader pc1 = pc_resultReader pc" using receiveMessage_keeps [OF r] by simp
  show ?thesis
  proof (cases r1)
    case (Inl e)
    with assms c r show ?thesis by (auto simp: rr_receiveMessage_def Let_def split: if_splits)
  next
    case (Inr m)
    with assms(2,3) r have "pc' = rr_handle m pc1 \<or> pc_resultReader pc' = pc_resultReader pc"
      by (auto simp: rr_receiveMessage_def split: if_splits)
    with assms(1) c show ?thesis by (auto simp: rr_handle_concluded)
  qed
qed

lemma rr_handle_peeked [simp]: "pc_peekedMsg (rr_handle m pc) = pc_peekedMsg pc"
  by (cases m) (simp_all add: rr_handle_def Let_def)

lemma rr_receive_peeked:
  assumes "\<not> rr_multiResultReader (pc_resultReader pc)" and "rr_receiveMessage pc = (r, pc')"
  shows "pc_peekedMsg pc' = None \<or> isl r \<and> pc_peekedMsg pc' = pc_peekedMsg pc"
proof -
  obtain r1 pc1 where r: "receiveMessage pc = (r1, pc1)" by fastforce
  with assms receiveMessage_peeked [OF r] receiveMessage_keeps(1) [OF r] show ?thesis
    by (cases r1) (auto simp: rr_receiveMessage_def Let_def split: if_splits)
qed

lemma rr_receive_session:
  assumes "rr_session pc" and "rr_receiveMessage pc = (r, pc')"
  shows "rr_session pc'"
proof -
  have m: "\<not> rr_multiResultReader (pc_resultReader pc)" and ok: "conn_ok pc" and at: "rr_pgConn (pc_resultReader pc)"
    using assms(1) by (simp_all add: rr_session_def)
  note s = rr_receive_single [OF ok m assms(2) at] and f = rr_receiveMessage_frame [OF assms(2)]
  show ?thesis
  proof (cases "isl r")
    case True
    with s f assms(1) show ?thesis by (simp add: rr_session_def rr_frame_def)
  next
    case False
    with s f assms(1) rr_receive_concluded [OF _ m assms(2)] show ?thesis
      by (auto simp: rr_session_def rr_frame_def split: if_splits)
  qed
qed

lemma NextRow_session: "rr_session pc \<Longrightarrow> NextRow pc = (b, pc') \<Longrightarrow> rr_session pc'"
  by (rule NextRow_keeps [where P = rr_session]; (erule (1) rr_receive_session | assumption | auto simp: rr_session_def split: if_splits))

text \<open>\<open>Close\<close> marks the reader as closed first; until \<open>ReadyForQuery\<close> the connection stays busy.\<close>

definition rr_closing :: "PgConn \<Rightarrow> bool" where
  "rr_closing pc \<longleftrightarrow> conn_ok pc \<and> rr_pgConn (pc_resultReader pc) \<and> \<not> rr_multiResultReader (pc_resultReader pc) \<and> \<not> rr_pipeline (pc_resultReader pc)
     \<and> rr_closed (pc_resultReader pc) \<and> pc_status pc \<in> {connStatusBusy, connStatusClosed}"

lemma rr_receive_closing:
  assumes "rr_closing pc" and "rr_receiveMessage pc = (r, pc')"
  shows "rr_closing pc'" and "isl r \<Longrightarrow> rr_session pc'"
proof -
  have m: "\<not> rr_multiResultReader (pc_resultReader pc)" and ok: "conn_ok pc" and at: "rr_pgConn (pc_resultReader pc)"
    using assms(1) by (simp_all add: rr_closing_def)
  note s = rr_receive_single [OF ok m assms(2) at] and f = rr_receiveMessage_frame [OF assms(2)]
  show "rr_closing pc'" and "isl r \<Longrightarrow> rr_session pc'"
    using s f assms(1) by (cases "isl r"; simp add: rr_closing_def rr_session_def rr_frame_def)+
qed

lemma Close_loop_closing:
  "rr_closing pc \<Longrightarrow> Close_loop pc = (e, pc') \<Longrightarrow>
     rr_closing pc' \<and> (e = None \<longrightarrow> rr_commandConcluded (pc_resultReader pc')) \<and> (e \<noteq> None \<longrightarrow> rr_session pc')"
proof (induction pc rule: Close_loop.induct)
  case (1 pc)
  obtain r pc1 where r: "rr_receiveMessage pc = (r, pc1)" by fastforce
  show ?case
  proof (cases r)
    case (Inl err)
    with r "1.prems" rr_receive_closing [OF "1.prems"(1) r] show ?thesis
      by (auto simp: Close_loop.simps [of pc] split: if_splits)
  next
    case (Inr m)
    with r "1.prems" "1.IH" [OF _ r [symmetric] Inr] rr_receive_closing(1) [OF "1.prems"(1) r] show ?thesis
      by (auto simp: Close_loop.simps [of pc] split: if_splits)
  qed
qed

lemma conn_unlock_closing:
  assumes "conn_ok pc" and "pc_status pc \<in> {connStatusBusy, connStatusClosed}" and "pc_peekedMsg pc = None"
  shows "conn_ok (conn_unlock (ctx_Unwatch pc))"
    and "pc_status (conn_unlock (ctx_Unwatch pc)) \<in> {connStatusIdle, connStatusClosed}"
  using conn_unlock_ok [OF ctx_Unwatch_ok [OF assms(1)]] assms(2,3) by (auto simp: ctx_Unwatch_def)

lemma Close_ready_loop_session:
  "rr_closing pc \<Longrightarrow> rr_commandConcluded (pc_resultReader pc) \<Longrightarrow> Close_ready_loop pc = (res, pc') \<Longrightarrow>
     rr_session pc' \<and> rr_closed (pc_resultReader pc')"
proof (induction pc rule: Close_ready_loop.induct)
  case (1 pc)
  obtain r pc1 where r: "rr_receiveMessage pc = (r, pc1)" by fastforce
  note c = rr_receive_closing [OF "1.prems"(1) r]
  have m: "\<not> rr_multiResultReader (pc_resultReader pc)" using "1.prems"(1) by (simp add: rr_closing_def)
  note conc = rr_receive_concluded [OF "1.prems"(2) m r]
  show ?case
  proof (cases r)
    case (Inl err)
    with r "1.prems"(3) c show ?thesis by (auto simp: Close_ready_loop.simps [of pc] rr_closing_def)
  next
    case (Inr msg)
    note ih = "1.IH" [OF r [symmetric] Inr]
    show ?thesis
    proof (cases "\<exists>x. msg = BM_ReadyForQuery x")
      case True
      with Inr r "1.prems"(3) have "pc' = conn_unlock (ctx_Unwatch pc1)"
        by (auto simp: Close_ready_loop.simps [of pc] Let_def)
      with c(1) conc conn_unlock_closing [of pc1] rr_receive_peeked [OF m r] Inr show ?thesis
        by (simp add: rr_closing_def rr_session_def)
    next
      case False
      with Inr r "1.prems"(3) c(1) conc ih show ?thesis
        by (cases msg) (simp_all add: Close_ready_loop.simps [of pc] rr_closing_def)
    qed
  qed
qed

lemma ResultReader_Close_session:
  assumes "rr_session pc" and "ResultReader_Close pc = (res, pc')"
  shows "rr_session pc' \<and> rr_closed (pc_resultReader pc')"
proof (cases "rr_closed (pc_resultReader pc)")
  case True
  with assms show ?thesis by (simp add: ResultReader_Close_def)
next
  case False
  let ?pc = "upd_rr (\<lambda>rr. rr\<lparr>rr_closed := True\<rparr>) pc"
  obtain e pc1 where e: "Close_loop ?pc = (e, pc1)" by fastforce
  have "rr_closing ?pc" using assms(1) False by (simp add: rr_session_def rr_closing_def)
  note l = Close_loop_closing [OF this e]
  show ?thesis
  proof (cases e)
    case None
    with l assms(2) False e have "Close_ready_loop pc1 = (res, pc')"
      by (simp add: ResultReader_Close_def rr_closing_def)
    with l None Close_ready_loop_session show ?thesis by blast
  next
    case (Some err)
    with l assms(2) False e show ?thesis by (simp add: ResultReader_Close_def rr_closing_def)
  qed
qed

lemma ResultReader_Read_session:
  assumes "rr_session pc" and "ResultReader_Read pc = (res, pc')"
  shows "rr_session pc' \<and> rr_closed (pc_resultReader pc')"
proof -
  obtain br pc1 where r: "Read_loop \<lparr>res_FieldDescriptions = None, res_Rows = [], res_CommandTag = no_tag, res_Err = None\<rparr> pc = (br, pc1)"
    by fastforce
  have "rr_session pc1" by (rule Read_loop_keeps [where P = rr_session, OF NextRow_session assms(1) r])
  moreover obtain x pc2 where c: "ResultReader_Close pc1 = (x, pc2)" by fastforce
  ultimately have "rr_session pc2 \<and> rr_closed (pc_resultReader pc2)"
    by (rule ResultReader_Close_session)
  with assms(2) r c show ?thesis by (auto simp: ResultReader_Read_def Let_def split: prod.splits)
qed

lemma load_statement_fields_session: "rr_session pc \<Longrightarrow> rr_session (load_statement_fields sd rf pc)"
  by (auto simp: load_statement_fields_def rr_session_def split: option.split sum.split if_splits)

lemma preload_session: "rr_session pc \<Longrightarrow> rr_session (upd_rr (preloadRowValues vs) pc)"
  by (simp add: preloadRowValues_def rr_session_def split: if_splits)

lemma readUntilRowDescription_session:
  "rr_session pc \<Longrightarrow> rr_session (readUntilRowDescription sd rf pc)"
proof (induction sd rf pc rule: readUntilRowDescription.induct)
  case (1 sd rf pc)
  obtain r pc1 where r: "rr_receiveMessage pc = (r, pc1)" by fastforce
  note s = rr_receive_session [OF "1.prems" r]
  show ?case
  proof (cases "rr_commandConcluded (pc_resultReader pc) \<or> isl r")
    case True
    with s r "1.prems" show ?thesis by (auto simp: readUntilRowDescription.simps [of sd rf pc] split: sum.splits)
  next
    case False
    then obtain m where m: "r = Inr m" by (cases r) auto
    note ih = "1.IH" [OF _ r [symmetric] m]
    show ?thesis
      using False r s m ih load_statement_fields_session [OF s] load_statement_fields_session [OF preload_session [OF s]]
      by (cases m) (simp_all add: readUntilRowDescription.simps [of sd rf pc])
  qed
qed

section \<open>Commands\<close>

lemma fe_send_ok [simp]:
  "conn_ok (fe_send (endpoint_Send enc) pc) = conn_ok pc"
  "pc_status (fe_send g pc) = pc_status pc" "pc_watching (fe_send g pc) = pc_watching pc"
  "pc_resultReader (fe_send g pc) = pc_resultReader pc"
  "pc_multiResultReader (fe_send g pc) = pc_multiResultReader pc" "pc_pipeline (fe_send g pc) = pc_pipeline pc"
proof -
  have "ep_cr (endpoint_Send enc (pc_frontend pc)) = ep_cr (pc_frontend pc)"
    by (subst endpoint_Send_reading) simp
  then show "conn_ok (fe_send (endpoint_Send enc) pc) = conn_ok pc"
    by (intro conn_ok_cong) (simp_all add: fe_send_def)
qed (simp_all add: fe_send_def)

lemmas send_defs = SendQuery_def SendParse_def SendDescribe_def SendExecute_def SendSync_def SendBind_def SendClose_def
  Frontend_Send_def send_bind_def pl_bind_def

lemma conn_flush_keeps:
  assumes "conn_flush pc = (e, pc')"
  shows "conn_ok pc' = conn_ok pc" "pc_status pc' = pc_status pc" "pc_watching pc' = pc_watching pc"
    "pc_resultReader pc' = pc_resultReader pc" "pc_multiResultReader pc' = pc_multiResultReader pc"
    "pc_pipeline pc' = pc_pipeline pc"
  using conn_flush_ok(1) [OF assms] assms by (auto simp: conn_flush_def Let_def split: prod.splits)

text \<open>An extended query on a connection that is not busy.\<close>

lemma conn_unlock_busy:
  "conn_ok pc \<Longrightarrow> pc_status pc = connStatusBusy \<Longrightarrow> \<not> pc_watching pc \<Longrightarrow> pc_peekedMsg pc = None \<Longrightarrow>
     conn_ok (conn_unlock pc) \<and> pc_status (conn_unlock pc) = connStatusIdle"
  by (simp add: conn_unlock_def conn_ok_def conn_sound_def)

lemma conn_unlock_closed [simp]: "pc_status pc = connStatusClosed \<Longrightarrow> conn_unlock pc = pc"
  by (simp add: conn_unlock_def)

lemma execExtendedPrefix_session:
  assumes "conn_ok pc" and "pc_status pc \<in> {connStatusIdle, connStatusClosed}"
  shows "rr_session (execExtendedPrefix c pv pc)"
proof -
  let ?pc = "pc\<lparr>pc_resultReader := new_ResultReader c\<rparr>"
  obtain e pc1 where l: "conn_lock ?pc = (e, pc1)" by fastforce
  have ok: "conn_ok ?pc" using assms(1) by simp
  note lk = conn_lock_ok [OF ok l]
  show ?thesis
  proof (cases e)
    case (Some err)
    with lk(3) assms l show ?thesis
      by (auto simp: execExtendedPrefix_def Let_def rr_session_def new_ResultReader_def)
  next
    case None
    then have pc1: "pc1 = ?pc\<lparr>pc_status := connStatusBusy\<rparr>" "conn_ok pc1" "\<not> pc_watching pc1"
      "pc_peekedMsg pc1 = None"
      using lk by auto
    obtain e2 pc2 where b: "ctx_begin c pc1 = (e2, pc2)" by fastforce
    have busy: "pc_status pc1 = connStatusBusy" using pc1(1) by simp
    note cb = ctx_begin_ok [OF pc1(2) busy pc1(3) b]
    have rr1: "pc_resultReader pc1 = new_ResultReader c" by (simp add: pc1(1))
    then have rr2: "pc_resultReader pc2 = new_ResultReader c" by (subst cb(5)) simp
    show ?thesis
    proof (cases "e2 = None \<and> length pv \<le> 65535")
      case True
      with None l b cb(1,2) rr2 show ?thesis
        by (simp add: execExtendedPrefix_def Let_def rr_session_def new_ResultReader_def)
    next
      case False
      have u: "rr_session (conn_unlock (upd_rr (\<lambda>rr. (concludeCommand no_tag (Some err) rr)\<lparr>rr_closed := True\<rparr>) pc1))" for err
        using conn_unlock_busy [of "upd_rr (\<lambda>rr. (concludeCommand no_tag (Some err) rr)\<lparr>rr_closed := True\<rparr>) pc1"] pc1(2-4) busy
        by (simp add: rr_session_def rr1 new_ResultReader_def)
      from False None l b u cb(3) show ?thesis
        by (auto simp: execExtendedPrefix_def Let_def split: option.splits)
    qed
  qed
qed

lemma rr_session_send [simp]: "rr_session (fe_send (endpoint_Send enc) pc) = rr_session pc"
  by (simp add: rr_session_def)

lemma execExtendedSuffix_session:
  assumes "rr_session pc"
  shows "rr_session (execExtendedSuffix sd rf pc)"
proof -
  define pc0 where "pc0 = fe_send SendSync (fe_send (SendExecute \<lparr>exec_Portal = [], exec_MaxRows = 0\<rparr>)
    (if sd = None then fe_send (SendDescribe \<lparr>desc_ObjectType = chr CHR ''P'', desc_Name = []\<rparr>) pc else pc))"
  have s0: "rr_session pc0" using assms by (simp add: pc0_def send_defs)
  obtain e pc1 where f: "conn_flush pc0 = (e, pc1)" by fastforce
  note k = conn_flush_keeps [OF f]
  have s1: "rr_session pc1" using s0 k by (auto simp: rr_session_def split: if_splits)
  have eq: "execExtendedSuffix sd rf pc =
      (case e of Some err \<Rightarrow>
             (let pc = asyncClose pc1;
                  pc = upd_rr (concludeCommand no_tag (Some err)) pc;
                  pc = ctx_Unwatch pc
              in conn_unlock (upd_rr (\<lambda>rr. rr\<lparr>rr_closed := True\<rparr>) pc))
         | None \<Rightarrow> readUntilRowDescription sd rf pc1)"
    using f by (simp add: execExtendedSuffix_def pc0_def Let_def split: option.split)
  show ?thesis
  proof (cases e)
    case None
    with eq s1 readUntilRowDescription_session show ?thesis by simp
  next
    case (Some err)
    have "conn_ok (ctx_Unwatch (asyncClose pc1))"
      using s1 by (simp add: rr_session_def asyncClose_ok ctx_Unwatch_ok)
    moreover have "ctx_Unwatch (upd_rr g (asyncClose pc1)) = upd_rr g (ctx_Unwatch (asyncClose pc1))" for g
      by (simp add: ctx_Unwatch_def)
    ultimately show ?thesis
      using eq Some s1 by (simp add: Let_def rr_session_def)
  qed
qed

lemma exec_extended_session:
  assumes "conn_ok pc" and "pc_status pc \<in> {connStatusIdle, connStatusClosed}"
  shows "rr_session (PgConn_ExecParams c sql pv oids pf rf pc)"
    and "rr_session (PgConn_ExecPrepared c name pv pf rf pc)"
    and "rr_session (PgConn_ExecStatement c sd pv pf rf pc)"
  using execExtendedPrefix_session [OF assms, of c pv] execExtendedSuffix_session
  by (auto simp: PgConn_ExecParams_def PgConn_ExecPrepared_def PgConn_ExecStatement_def Let_def send_defs)


section \<open>Commands that read their own answer\<close>

text \<open>
  The state of such a command after the lock: busy or closed, with the readers as they were when it started.
  While \<open>CopyFrom\<close> copies, a message may also have been received in the background.
\<close>

definition same_readers :: "PgConn \<Rightarrow> PgConn \<Rightarrow> bool" where
  "same_readers pc0 pc \<longleftrightarrow> pc_resultReader pc = pc_resultReader pc0
     \<and> pc_multiResultReader pc = pc_multiResultReader pc0 \<and> pc_pipeline pc = pc_pipeline pc0"

definition copy_state :: "ctx \<Rightarrow> PgConn \<Rightarrow> PgConn \<Rightarrow> bool" where
  "copy_state c pc0 pc \<longleftrightarrow> conn_sound pc \<and> pc_status pc \<in> {connStatusBusy, connStatusClosed}
     \<and> pc_peekedMsg pc = None \<and> (pc_watching pc \<longrightarrow> \<not> ctx_Background c) \<and> same_readers pc0 pc"

definition cmd_state :: "ctx \<Rightarrow> PgConn \<Rightarrow> PgConn \<Rightarrow> bool" where
  "cmd_state c pc0 pc \<longleftrightarrow> copy_state c pc0 pc \<and> (pc_bufferingReceive pc \<longrightarrow> pc_status pc = connStatusClosed)"

text \<open>How it ends: the lock was refused, or the connection is idle or closed again.\<close>

definition cmd_result :: "PgConn \<Rightarrow> PgConn \<Rightarrow> bool" where
  "cmd_result pc0 pc \<longleftrightarrow>
     pc = pc0 \<and> pc_status pc0 \<noteq> connStatusIdle
   \<or> conn_ok pc \<and> pc_status pc \<in> {connStatusIdle, connStatusClosed} \<and> pc_peekedMsg pc = None
     \<and> same_readers pc0 pc \<and> pc_status pc0 \<notin> {connStatusBusy, connStatusClosed}"

lemma cmd_state_ok: "cmd_state c pc0 pc \<Longrightarrow> conn_ok pc"
  by (auto simp: cmd_state_def copy_state_def conn_ok_def)

lemma copy_state_receive:
  assumes "copy_state c pc0 pc" and "receiveMessage pc = (r, pc')"
  shows "cmd_state c pc0 pc'"
proof -
  have s: "conn_sound pc" and p: "pc_peekedMsg pc = None" using assms(1) by (simp_all add: copy_state_def)
  note f = receiveMessage_keeps [OF assms(2)] and snd = receiveMessage_sound [OF s assms(2)]
    and pk = receiveMessage_peeked [OF assms(2)]
  have "\<not> pc_bufferingReceive pc'" if "pc_status pc \<noteq> connStatusClosed"
  proof -
    obtain m pc1 where m: "peekMessage pc = (m, pc1)" by fastforce
    with peekMessage_sound [OF s m] p have b: "\<not> pc_bufferingReceive pc1" by simp
    show ?thesis
    proof (cases m)
      case (Inl e)
      with m that assms(2) b show ?thesis by (simp add: receiveMessage_def)
    next
      case (Inr x)
      let ?pc = "pc1\<lparr>pc_peekedMsg := None\<rparr>"
      from Inr m that assms(2) have h: "handle_message x ?pc = (r, pc')" by (simp add: receiveMessage_def)
      have "pc_status ?pc \<noteq> connStatusClosed" using peekMessage_status [of pc x pc1] m Inr that by simp
      moreover have "conn_sound ?pc" using peekMessage_sound [OF s m] by (simp add: conn_sound_def)
      ultimately show ?thesis using handle_message_sound [OF _ _ h] b by simp
    qed
  qed
  moreover have "pc' = pc" if "pc_status pc = connStatusClosed"
    using that assms(2) by (simp add: receiveMessage_def)
  ultimately show ?thesis
    using assms(1) f snd pk by (auto simp: cmd_state_def copy_state_def same_readers_def)
qed

lemma cmd_copy_state: "cmd_state c pc0 pc \<Longrightarrow> copy_state c pc0 pc"
  by (simp add: cmd_state_def)

lemmas cmd_state_receive = copy_state_receive [OF cmd_copy_state]

lemma copy_state_asyncClose: "copy_state c pc0 pc \<Longrightarrow> cmd_state c pc0 (asyncClose pc)"
  using asyncClose_sound [of pc] by (simp add: cmd_state_def copy_state_def same_readers_def)

lemmas cmd_state_asyncClose = copy_state_asyncClose [OF cmd_copy_state]

lemma Prepare_loop_keeps:
  "cmd_state c pc0 pc \<Longrightarrow> Prepare_loop c psd b e pc = (r, pc') \<Longrightarrow> cmd_state c pc0 pc'"
proof (induction c psd b e pc rule: Prepare_loop.induct)
  case (1 c psd b e pc)
  obtain r1 pc1 where r: "receiveMessage pc = (r1, pc1)" by fastforce
  note p = cmd_state_receive [OF "1.prems"(1) r]
  show ?case
  proof (cases r1)
    case (Inl err)
    with r "1.prems" p show ?thesis by (auto simp: Prepare_loop.simps [of c psd b e pc] cmd_state_asyncClose)
  next
    case (Inr m)
    show ?thesis
      using r "1.prems" p Inr "1.IH" [OF r [symmetric] Inr]
      by (cases m) (auto simp: Prepare_loop.simps [of c psd b e pc] split: option.splits)
  qed
qed

lemma Deallocate_loop_keeps:
  "cmd_state c pc0 pc \<Longrightarrow> Deallocate_loop c pc = (r, pc') \<Longrightarrow> cmd_state c pc0 pc'"
proof (induction c pc rule: Deallocate_loop.induct)
  case (1 c pc)
  obtain r1 pc1 where r: "receiveMessage pc = (r1, pc1)" by fastforce
  note p = cmd_state_receive [OF "1.prems"(1) r]
  show ?case
  proof (cases r1)
    case (Inl err)
    with r "1.prems" p show ?thesis by (auto simp: Deallocate_loop.simps [of c pc] cmd_state_asyncClose)
  next
    case (Inr m)
    show ?thesis
      using r "1.prems" p Inr "1.IH" [OF r [symmetric] Inr]
      by (cases m) (auto simp: Deallocate_loop.simps [of c pc])
  qed
qed

lemma WaitForNotification_loop_keeps:
  "cmd_state c pc0 pc \<Longrightarrow> WaitForNotification_loop c pc = (r, pc') \<Longrightarrow> cmd_state c pc0 pc'"
proof (induction c pc rule: WaitForNotification_loop.induct)
  case (1 c pc)
  obtain r1 pc1 where r: "receiveMessage pc = (r1, pc1)" by fastforce
  note p = cmd_state_receive [OF "1.prems"(1) r]
  show ?case
    using r "1.prems" p "1.IH" [OF r [symmetric]]
    by (cases r1) (auto simp: WaitForNotification_loop.simps [of c pc] split: if_splits)
qed

lemma CopyFrom_results_keeps:
  "copy_state c pc0 pc \<Longrightarrow> CopyFrom_results c t e pc = (r, pc') \<Longrightarrow> cmd_state c pc0 pc'"
proof (induction c t e pc rule: CopyFrom_results.induct)
  case (1 c t e pc)
  obtain r1 pc1 where r: "receiveMessage pc = (r1, pc1)" by fastforce
  note p = copy_state_receive [OF "1.prems"(1) r]
  show ?case
  proof (cases r1)
    case (Inl err)
    with r "1.prems" p show ?thesis by (auto simp: CopyFrom_results.simps [of c t e pc] cmd_state_asyncClose)
  next
    case (Inr m)
    show ?thesis
      using r "1.prems" p Inr "1.IH" [OF r [symmetric] Inr] cmd_copy_state [OF p]
      by (cases m) (auto simp: CopyFrom_results.simps [of c t e pc])
  qed
qed

text \<open>\<open>CopyTo\<close> unlocks inside its loop, before the context is released; the order makes no difference.\<close>

lemma ctx_end_unlock: "ctx_end c (conn_unlock pc) = conn_unlock (ctx_end c pc)"
  by (simp add: ctx_end_def ctx_Unwatch_def conn_unlock_def conn_panic_def split: connStatus.split)

lemma CopyTo_loop_keeps:
  "cmd_state c pc0 pc \<Longrightarrow> CopyTo_loop c t e w pc = (r, pc') \<Longrightarrow> \<exists>pc1. cmd_state c pc0 pc1 \<and> pc' = conn_unlock pc1"
proof (induction c t e w pc rule: CopyTo_loop.induct)
  case (1 c t e w pc)
  obtain r1 pc1 where r: "receiveMessage pc = (r1, pc1)" by fastforce
  note p = cmd_state_receive [OF "1.prems"(1) r]
  have closed: "\<exists>pc2. cmd_state c pc0 pc2 \<and> asyncClose pc1 = conn_unlock pc2"
    by (rule exI [of _ "asyncClose pc1"]) (simp add: cmd_state_asyncClose [OF p])
  show ?case
  proof (cases r1)
    case (Inl err)
    with r "1.prems" closed show ?thesis by (auto simp: CopyTo_loop.simps [of c t e w pc])
  next
    case (Inr m)
    note ih = "1.IH" [OF r [symmetric] Inr]
    show ?thesis
    proof (cases m)
      case (BM_CopyData x)
      obtain n we w' where w: "writer_Write (cd_Data x) w = ((n, we), w')" by (metis surj_pair)
      with r "1.prems"(2) Inr BM_CopyData closed ih p show ?thesis
        by (cases we) (auto simp: CopyTo_loop.simps [of c t e w pc])
    qed (use r "1.prems" p Inr ih in \<open>auto simp: CopyTo_loop.simps [of c t e w pc]\<close>)
  qed
qed


text \<open>The start and the end that these commands share.\<close>

lemma cmd_begin:
  assumes "conn_ok pc" and "conn_lock pc = (None, pc1)" and "ctx_begin c pc1 = (e, pc2)"
  shows "cmd_state c pc pc2" and "e \<noteq> None \<Longrightarrow> cmd_result pc (conn_unlock pc2)" and "e \<noteq> None \<Longrightarrow> pc2 = pc1"
    and "pc_status pc2 = connStatusBusy" and "\<not> pc_bufferingReceive pc2"
    and "pc_status pc \<notin> {connStatusBusy, connStatusClosed}"
proof -
  note lk = conn_lock_ok [OF assms(1,2)]
  have l: "pc_status pc1 = connStatusBusy" "\<not> pc_watching pc1" "\<not> pc_bufferingReceive pc1" "pc_peekedMsg pc1 = None"
    "pc1 = pc\<lparr>pc_status := connStatusBusy\<rparr>" using lk by auto
  note b = ctx_begin_ok [OF lk(1) l(1,2) assms(3)]
  have p2: "pc_resultReader pc2 = pc_resultReader pc" "pc_multiResultReader pc2 = pc_multiResultReader pc"
    "pc_pipeline pc2 = pc_pipeline pc" by (subst b(5), simp add: l(5))+
  have pb: "pc_peekedMsg pc2 = None" "\<not> pc_bufferingReceive pc2"
    using l(3,4) by (subst b(5), simp)+
  show "cmd_state c pc pc2"
    using b(1,2,6) p2 pb by (auto simp: cmd_state_def copy_state_def same_readers_def conn_ok_def)
  show st: "pc_status pc \<notin> {connStatusBusy, connStatusClosed}"
    using assms(2) by (auto simp: conn_lock_def split: connStatus.splits)
  show "pc2 = pc1" if "e \<noteq> None" using that b(3) by simp
  then show "cmd_result pc (conn_unlock pc2)" if "e \<noteq> None"
    using that conn_unlock_busy [of pc1] lk(1) l st p2 pb by (simp add: cmd_result_def same_readers_def)
  show "pc_status pc2 = connStatusBusy" "\<not> pc_bufferingReceive pc2" using b(2) pb by simp_all
qed

lemma cmd_finish:
  assumes "cmd_state c pc0 pc" and "pc_status pc0 \<notin> {connStatusBusy, connStatusClosed}"
  shows "cmd_result pc0 (conn_unlock (ctx_end c pc))"
proof -
  have w: "\<not> pc_watching (ctx_end c pc)" "pc_peekedMsg (ctx_end c pc) = None"
    and s: "pc_status (ctx_end c pc) \<in> {connStatusBusy, connStatusClosed}" and r: "same_readers pc0 (ctx_end c pc)"
    using assms(1) by (auto simp: cmd_state_def copy_state_def ctx_end_def ctx_Unwatch_def same_readers_def)
  have "conn_ok (ctx_end c pc)" by (rule ctx_end_ok [OF cmd_state_ok [OF assms(1)]])
  with conn_unlock_ok [of "ctx_end c pc"] w s r assms(2) show ?thesis
    by (auto simp: cmd_result_def same_readers_def)
qed

lemma cmd_lock_refused:
  assumes "conn_ok pc" and "conn_lock pc = (Some e, pc1)"
  shows "pc1 = pc" and "cmd_result pc pc"
  using conn_lock_ok [OF assms] by (auto simp: cmd_result_def)

text \<open>Sending keeps the state of the command.\<close>

lemma copy_state_frontend:
  assumes "copy_state c pc0 pc" and "ep_cr f = ep_cr (pc_frontend pc)"
  shows "copy_state c pc0 (pc\<lparr>pc_frontend := f\<rparr>)"
  using assms by (auto simp: copy_state_def conn_sound_def same_readers_def)

lemma copy_state_flush:
  assumes "copy_state c pc0 pc" and "conn_flush pc = (e, pc')"
  shows "copy_state c pc0 pc'"
  by (subst conn_flush_ok(2) [OF assms(2)]) (rule copy_state_frontend [OF assms(1) conn_flush_ok(3) [OF assms(2)]])

lemma cmd_state_flush:
  assumes "cmd_state c pc0 pc" and "conn_flush pc = (e, pc')"
  shows "cmd_state c pc0 pc'"
proof -
  have "pc_bufferingReceive pc' = pc_bufferingReceive pc" "pc_status pc' = pc_status pc"
    by (subst conn_flush_ok(2) [OF assms(2)], simp)+
  with copy_state_flush [OF cmd_copy_state [OF assms(1)] assms(2)] assms(1) show ?thesis
    by (simp add: cmd_state_def)
qed

definition sends_only :: "(chunkReader Frontend \<Rightarrow> chunkReader Frontend) \<Rightarrow> bool" where
  "sends_only g \<longleftrightarrow> (\<forall>f. ep_cr (g f) = ep_cr f)"

lemma endpoint_Send_cr [simp]: "ep_cr (endpoint_Send enc f) = ep_cr f"
  by (subst endpoint_Send_reading) simp

lemma cmd_state_send: "sends_only g \<Longrightarrow> cmd_state c pc0 pc \<Longrightarrow> cmd_state c pc0 (fe_send g pc)"
  using copy_state_frontend [of c pc0 pc "g (pc_frontend pc)"] by (simp add: sends_only_def fe_send_def cmd_state_def)

lemma run_command_ok:
  assumes "conn_ok pc" and "sends_only g"
    and "\<And>pc1 r pc2. cmd_state c pc pc1 \<Longrightarrow> body pc1 = (r, pc2) \<Longrightarrow> cmd_state c pc pc2"
    and "run_command c g body pc = (r, pc')"
  shows "cmd_result pc pc'"
proof -
  obtain e pc1 where l: "conn_lock pc = (e, pc1)" by fastforce
  show ?thesis
  proof (cases e)
    case (Some err)
    with l assms(4) cmd_lock_refused [OF assms(1)] show ?thesis by (auto simp: run_command_def)
  next
    case None
    obtain e2 pc2 where b: "ctx_begin c pc1 = (e2, pc2)" by fastforce
    note cb = cmd_begin [OF assms(1) l [unfolded None] b]
    show ?thesis
    proof (cases e2)
      case (Some err)
      with l None b cb(2) assms(4) show ?thesis by (auto simp: run_command_def)
    next
      case no_err: None
      obtain e3 pc3 where f: "conn_flush (fe_send g pc2) = (e3, pc3)" by fastforce
      note st = cmd_state_flush [OF cmd_state_send [OF assms(2) cb(1)] f]
      obtain r4 pc4 where body: "body pc3 = (r4, pc4)" by fastforce
      from assms(4) l None b no_err f body
      have "pc' = conn_unlock (ctx_end c (if e3 = None then pc4 else asyncClose pc3))"
        by (cases e3) (auto simp: run_command_def finish_command_def)
      with cmd_finish [OF _ cb(6)] assms(3) [OF st body] cmd_state_asyncClose [OF st] show ?thesis by auto
    qed
  qed
qed

lemma run_receive_ok:
  assumes "conn_ok pc"
    and "\<And>pc1 r pc2. cmd_state c pc pc1 \<Longrightarrow> body pc1 = (r, pc2) \<Longrightarrow> cmd_state c pc pc2"
    and "run_receive c body pc = (r, pc')"
  shows "cmd_result pc pc'"
proof -
  obtain e pc1 where l: "conn_lock pc = (e, pc1)" by fastforce
  show ?thesis
  proof (cases e)
    case (Some err)
    with l assms(3) cmd_lock_refused [OF assms(1)] show ?thesis by (auto simp: run_receive_def)
  next
    case None
    obtain e2 pc2 where b: "ctx_begin c pc1 = (e2, pc2)" by fastforce
    note cb = cmd_begin [OF assms(1) l [unfolded None] b]
    obtain r4 pc4 where body: "body pc2 = (r4, pc4)" by fastforce
    show ?thesis
      using l None b cb(2) assms(3) cmd_finish [OF assms(2) [OF cb(1) body] cb(6)] body
      by (cases e2) (auto simp: run_receive_def finish_command_def)
  qed
qed

lemma PgConn_Prepare_ok: "conn_ok pc \<Longrightarrow> PgConn_Prepare c name sql oids pc = (r, pc') \<Longrightarrow> cmd_result pc pc'"
  unfolding PgConn_Prepare_def
  by (rule run_command_ok [rotated 3], assumption+, simp add: sends_only_def send_defs, erule (1) Prepare_loop_keeps)

lemma PgConn_Deallocate_ok: "conn_ok pc \<Longrightarrow> PgConn_Deallocate c name pc = (r, pc') \<Longrightarrow> cmd_result pc pc'"
  unfolding PgConn_Deallocate_def
  by (rule run_command_ok [rotated 3], assumption+, simp add: sends_only_def send_defs, erule (1) Deallocate_loop_keeps)

lemma PgConn_ReceiveMessage_ok: "conn_ok pc \<Longrightarrow> PgConn_ReceiveMessage c pc = (r, pc') \<Longrightarrow> cmd_result pc pc'"
  unfolding PgConn_ReceiveMessage_def
  by (erule run_receive_ok [rotated 2]) (auto split: prod.splits sum.splits dest: cmd_state_receive)

lemma PgConn_CheckConn_ok: "conn_ok pc \<Longrightarrow> PgConn_CheckConn c pc = (r, pc') \<Longrightarrow> cmd_result pc pc'"
  by (auto simp: PgConn_CheckConn_def split: prod.splits sum.splits dest: PgConn_ReceiveMessage_ok)

lemma PgConn_WaitForNotification_ok:
  "conn_ok pc \<Longrightarrow> PgConn_WaitForNotification c pc = (r, pc') \<Longrightarrow> cmd_result pc pc'"
  unfolding PgConn_WaitForNotification_def
  by (erule run_receive_ok [rotated 2]) (auto intro: WaitForNotification_loop_keeps)


lemma PgConn_CopyTo_ok:
  assumes "conn_ok pc" and "PgConn_CopyTo c w sql pc = (r, pc')"
  shows "cmd_result pc pc'"
proof -
  obtain e pc1 where l: "conn_lock pc = (e, pc1)" by fastforce
  show ?thesis
  proof (cases e)
    case (Some err)
    with l assms(2) cmd_lock_refused [OF assms(1)] show ?thesis by (auto simp: PgConn_CopyTo_def)
  next
    case None
    obtain e2 pc2 where b: "ctx_begin c pc1 = (e2, pc2)" by fastforce
    note cb = cmd_begin [OF assms(1) l [unfolded None] b]
    show ?thesis
    proof (cases e2)
      case (Some err)
      with l None b cb(2) assms(2) show ?thesis by (auto simp: PgConn_CopyTo_def)
    next
      case no_err: None
      obtain e3 pc3 where f: "conn_flush (fe_send (SendQuery \<lparr>query_String = sql\<rparr>) pc2) = (e3, pc3)" by fastforce
      have st: "cmd_state c pc pc3"
        by (rule cmd_state_flush [OF cmd_state_send [OF _ cb(1)] f]) (simp add: sends_only_def send_defs)
      obtain r4 pc4 where loop: "CopyTo_loop c no_tag None w pc3 = (r4, pc4)" by fastforce
      obtain pc5 where p5: "cmd_state c pc pc5" "pc4 = conn_unlock pc5" using CopyTo_loop_keeps [OF st loop] by blast
      from assms(2) l None b no_err f loop p5(2)
      have "pc' = conn_unlock (ctx_end c (if e3 = None then pc5 else asyncClose pc3))"
        by (cases e3) (auto simp: PgConn_CopyTo_def ctx_end_unlock)
      with cmd_finish [OF _ cb(6)] p5(1) cmd_state_asyncClose [OF st] show ?thesis by auto
    qed
  qed
qed

text \<open>While the copy runs the connection is busy and a message is being received in the background.\<close>

definition copying :: "ctx \<Rightarrow> PgConn \<Rightarrow> PgConn \<Rightarrow> bool" where
  "copying c pc0 pc \<longleftrightarrow> copy_state c pc0 pc \<and> pc_status pc = connStatusBusy \<and> pc_bufferingReceive pc"

lemma signalMessage_copying:
  assumes "cmd_state c pc0 pc" and "pc_status pc = connStatusBusy"
  shows "copying c pc0 (signalMessage pc)"
proof -
  have nb: "\<not> pc_bufferingReceive pc" using assms by (auto simp: cmd_state_def)
  obtain r pc1 where r: "conn_Receive pc = (r, pc1)" by fastforce
  have s: "conn_sound pc" using assms(1) by (simp add: cmd_state_def copy_state_def)
  note cr = conn_Receive_sound [OF s r]
  have pc1: "pc1 = pc\<lparr>pc_frontend := pc_frontend pc1\<rparr>" using cr by blast
  then obtain f where f: "pc1 = pc\<lparr>pc_frontend := f\<rparr>" by blast
  have "signalMessage pc = pc1\<lparr>pc_bufferingReceive := True, pc_bufferingReceiveMsg := r\<rparr>"
    using nb r by (simp add: signalMessage_def)
  with assms cr show ?thesis
    by (simp add: f copying_def cmd_state_def copy_state_def same_readers_def conn_sound_def)
qed

lemma SendUnbuffered_reading: "SendUnbufferedEncodedCopyData msg s = (e, s') \<Longrightarrow> ep_cr s' = ep_cr s"
proof -
  assume a: "SendUnbufferedEncodedCopyData msg s = (e, s')"
  obtain e1 s1 where f: "Frontend_Flush s = (e1, s1)" by fastforce
  have "ep_cr s1 = ep_cr s" by (subst Flush_reading [OF f]) simp
  with a f show ?thesis
    by (auto simp: SendUnbufferedEncodedCopyData_def endpoint_write_def split: option.splits prod.splits)
qed

lemma copy_iteration_frontend:
  assumes "copy_iteration rd pc = (e, rd', pc')"
  shows "\<exists>f. pc' = pc\<lparr>pc_frontend := f\<rparr> \<and> ep_cr f = ep_cr (pc_frontend pc)"
proof -
  obtain d re rd1 where d: "reader_Read 65531 rd = (d, re, rd1)" by (metis surj_pair)
  show ?thesis
  proof (cases "length d > 0")
    case True
    obtain e1 f where f: "SendUnbufferedEncodedCopyData (chr CHR ''d'' # be32 (of_nat (length d + 4)) @ d) (pc_frontend pc) = (e1, f)"
      by fastforce
    with assms d True have "pc' = pc\<lparr>pc_frontend := f\<rparr>"
      by (cases e1) (auto simp: copy_iteration_def)
    with SendUnbuffered_reading [OF f] show ?thesis by blast
  next
    case False
    with assms d have "pc' = pc\<lparr>pc_frontend := pc_frontend pc\<rparr>" by (auto simp: copy_iteration_def)
    then show ?thesis by blast
  qed
qed

lemma copying_iteration:
  assumes "copy_iteration rd pc = (e, rd', pc')"
  shows "copy_state c pc0 pc \<Longrightarrow> copy_state c pc0 pc'" and "copying c pc0 pc \<Longrightarrow> copying c pc0 pc'"
    and "cmd_state c pc0 pc \<Longrightarrow> cmd_state c pc0 pc'"
proof -
  obtain f where f: "pc' = pc\<lparr>pc_frontend := f\<rparr>" "ep_cr f = ep_cr (pc_frontend pc)"
    using copy_iteration_frontend [OF assms] by blast
  show s: "copy_state c pc0 pc \<Longrightarrow> copy_state c pc0 pc'" by (simp add: f copy_state_frontend)
  then show "copying c pc0 pc \<Longrightarrow> copying c pc0 pc'" "cmd_state c pc0 pc \<Longrightarrow> cmd_state c pc0 pc'"
    by (auto simp: copying_def cmd_state_def f(1))
qed

lemma copying_broken:
  assumes "copying c pc0 pc"
  shows "cmd_state c pc0 (close_cleanupDone (pc\<lparr>pc_status := connStatusClosed\<rparr>))"
proof -
  have "\<not> pc_cleanupDone pc" using assms by (auto simp: copying_def copy_state_def conn_sound_def)
  then have "close_cleanupDone (pc\<lparr>pc_status := connStatusClosed\<rparr>) = pc\<lparr>pc_status := connStatusClosed, pc_cleanupDone := True\<rparr>"
    by (simp add: close_cleanupDone_def)
  with assms show ?thesis
    by (simp add: copying_def cmd_state_def copy_state_def same_readers_def conn_sound_def)
qed

lemma CopyFrom_loop_keeps:
  "copying c pc0 pc \<Longrightarrow> CopyFrom_loop c ce sched rd pc = (r, pc') \<Longrightarrow>
     copy_state c pc0 pc' \<and> (\<forall>err. r = CopyReturn err \<longrightarrow> cmd_state c pc0 pc')"
proof (induction c ce sched rd pc rule: CopyFrom_loop.induct)
  case (1 c ce sched rd pc)
  note prem = "1.prems"(2) [unfolded CopyFrom_loop.simps [of c ce sched rd pc]]
  have cs: "copy_state c pc0 pc" using "1.prems"(1) by (simp add: copying_def)
  show ?case
  proof (cases "sched = [] \<or> hd sched")
    case go: True
    show ?thesis
    proof (cases ce)
      case (Some err)
      with go prem cs show ?thesis by auto
    next
      case None
      obtain e rd1 pc1 where it: "copy_iteration rd pc = (e, rd1, pc1)" by (metis surj_pair)
      note k = copying_iteration [OF it]
      show ?thesis
        using go None it prem k(1) [OF cs] k(2) [OF "1.prems"(1)]
          "1.IH"(1) [OF go None it [symmetric]] "1.IH"(2) [OF go None it [symmetric]]
        by (cases e) (auto split: if_splits)
    qed
  next
    case stop: False
    obtain r1 pc1 where rm: "receiveMessage pc = (r1, pc1)" by fastforce
    note st = copy_state_receive [OF cs rm]
    show ?thesis
    proof (cases "pc_bufferingReceiveMsg pc")
      case (Inl err)
      with stop prem copying_broken [OF "1.prems"(1)] show ?thesis
        by (auto dest: cmd_copy_state)
    next
      case buf: (Inr x)
      show ?thesis
      proof (cases r1)
        case (Inl err)
        with stop buf rm prem st show ?thesis by (auto dest: cmd_copy_state)
      next
        case (Inr m)
        have "pc_status pc1 = connStatusBusy"
          using receiveMessage_status [of pc m pc1] rm Inr "1.prems"(1) by (simp add: copying_def)
        note sig = signalMessage_copying [OF st this]
        show ?thesis
        proof (cases "\<exists>e. m = BM_ErrorResponse e")
          case True
          obtain e2 rd2 pc2 where it: "copy_iteration rd pc1 = (e2, rd2, pc2)" by (metis surj_pair)
          with True stop buf rm Inr prem st copying_iteration(3) [OF it st] show ?thesis
            by (auto dest: cmd_copy_state split: if_splits)
        next
          case False
          with stop buf rm Inr prem have "CopyFrom_loop c ce (tl sched) rd (signalMessage pc1) = (r, pc')"
            by (cases m) auto
          with "1.IH"(3-) [OF stop buf rm [symmetric] Inr] False sig show ?thesis by (cases m) simp_all
        qed
      qed
    qed
  qed
qed

lemma CopyFrom_finish_keeps:
  assumes "copy_state c pc0 pc" and "CopyFrom_finish c m e pc = (r, pc')"
  shows "cmd_state c pc0 pc'"
proof -
  obtain e1 pc1 where f: "conn_flush (fe_send (Frontend_Send m) pc) = (e1, pc1)" by fastforce
  have "copy_state c pc0 (fe_send (Frontend_Send m) pc)"
    using copy_state_frontend [OF assms(1)] by (simp add: fe_send_def Frontend_Send_def)
  note st = copy_state_flush [OF this f]
  show ?thesis
    using assms(2) f copy_state_asyncClose [OF st] CopyFrom_results_keeps [OF st]
    by (cases e1) (auto simp: CopyFrom_finish_def)
qed

lemma CopyFrom_body_keeps:
  assumes "cmd_state c pc0 pc" and "pc_status pc = connStatusBusy" and "CopyFrom_body et c rd sched pc = (r, pc')"
  shows "cmd_state c pc0 pc'"
proof -
  obtain ce pc1 where l: "CopyFrom_loop c None sched rd (signalMessage pc) = (ce, pc1)" by fastforce
  note k = CopyFrom_loop_keeps [OF signalMessage_copying [OF assms(1,2)] l]
  show ?thesis
    using assms(3) l k CopyFrom_finish_keeps [of c pc0 pc1]
    by (cases ce) (auto simp: CopyFrom_body_def)
qed

lemma PgConn_CopyFrom_ok:
  assumes "conn_ok pc" and "PgConn_CopyFrom et c rd sql sched pc = (r, pc')"
  shows "cmd_result pc pc'"
proof -
  obtain e pc1 where l: "conn_lock pc = (e, pc1)" by fastforce
  show ?thesis
  proof (cases e)
    case (Some err)
    with l assms(2) cmd_lock_refused [OF assms(1)] show ?thesis by (auto simp: PgConn_CopyFrom_def)
  next
    case None
    obtain e2 pc2 where b: "ctx_begin c pc1 = (e2, pc2)" by fastforce
    note cb = cmd_begin [OF assms(1) l [unfolded None] b]
    show ?thesis
    proof (cases e2)
      case (Some err)
      with l None b cb(2) assms(2) show ?thesis by (auto simp: PgConn_CopyFrom_def)
    next
      case no_err: None
      obtain e3 pc3 where f: "conn_flush (fe_send (SendQuery \<lparr>query_String = sql\<rparr>) pc2) = (e3, pc3)" by fastforce
      have st: "cmd_state c pc pc3"
        by (rule cmd_state_flush [OF cmd_state_send [OF _ cb(1)] f]) (simp add: sends_only_def send_defs)
      have busy: "pc_status pc3 = connStatusBusy" using conn_flush_keeps(2) [OF f] cb(4) by simp
      obtain r4 pc4 where body: "CopyFrom_body et c rd sched pc3 = (r4, pc4)" by fastforce
      from assms(2) l None b no_err f body
      have "pc' = conn_unlock (ctx_end c (if e3 = None then pc4 else asyncClose pc3))"
        by (cases e3) (auto simp: PgConn_CopyFrom_def finish_command_def)
      with cmd_finish [OF _ cb(6)] CopyFrom_body_keeps [OF st busy body] cmd_state_asyncClose [OF st]
      show ?thesis by auto
    qed
  qed
qed

end
