(* ===== verification/Pgconn_Multi.thy ===== *)
theory Pgconn_Multi
  imports Pgconn_Inv
begin

text \<open>
  The readers of several results, and the rows of one of them, keep the invariant of the connection, but for
  one panic: \<open>ReadyForQuery\<close> is received by the reader of one result although the results have ended.
\<close>

section \<open>The reader that a client has\<close>

text \<open>
  A reader that some method has returned: it has a connection, or its command is concluded. Not so the one of
  a new connection and the one that \<open>StartPipeline\<close> puts in place of an earlier one. While nothing else has
  the connection, or a reader of several results has it, such a reader belongs to that one or to an earlier
  pipeline, or it is done with.
\<close>

definition rr_returned :: "ResultReader \<Rightarrow> bool" where
  "rr_returned rr \<longleftrightarrow> rr_pgConn rr \<or> rr_commandConcluded rr"

definition rr_settled :: "ResultReader \<Rightarrow> bool" where
  "rr_settled rr \<longleftrightarrow> (rr_returned rr \<longrightarrow>
     rr_pgConn rr \<and> (rr_multiResultReader rr \<or> rr_pipeline rr) \<or> rr_commandConcluded rr \<and> rr_closed rr)"

lemma rr_settled_simps [simp]:
  "rr_settled (rr\<lparr>rr_rowValues := v\<rparr>) = rr_settled rr"
  "rr_settled (rr\<lparr>rr_preloaded := p\<rparr>) = rr_settled rr"
  "rr_settled rr \<Longrightarrow> rr_settled (rr\<lparr>rr_closed := True\<rparr>)"
  "rr_returned (rr\<lparr>rr_rowValues := v\<rparr>) = rr_returned rr"
  "rr_returned (rr\<lparr>rr_preloaded := p\<rparr>) = rr_returned rr"
  "rr_returned (rr\<lparr>rr_closed := c\<rparr>) = rr_returned rr"
  by (auto simp: rr_settled_def rr_returned_def)

section \<open>Several results\<close>

definition mrr_session :: "PgConn \<Rightarrow> bool" where
  "mrr_session pc \<longleftrightarrow> conn_ok pc
     \<and> pc_status pc \<in> (if mrr_closed (pc_multiResultReader pc) then {connStatusIdle, connStatusClosed}
                        else {connStatusBusy, connStatusClosed})
     \<and> length (mrr_statementDescriptions (pc_multiResultReader pc)) = length (mrr_resultFormats (pc_multiResultReader pc))
     \<and> rr_settled (pc_resultReader pc)"

lemma mrr_receive_session:
  assumes "mrr_session pc" and "\<not> mrr_closed (pc_multiResultReader pc)" and "mrr_receiveMessage pc = (r, pc')"
  shows "mrr_session pc'" and "isl r \<Longrightarrow> mrr_closed (pc_multiResultReader pc')"
proof -
  obtain r1 pc1 where r: "receiveMessage pc = (r1, pc1)" by fastforce
  have ok: "conn_ok pc" using assms(1) by (simp add: mrr_session_def)
  note k = receiveMessage_keeps [OF r] and ok1 = receiveMessage_ok [OF ok r] and pk = receiveMessage_peeked [OF r]
  have st: "pc_status pc1 \<in> {connStatusBusy, connStatusClosed}" using k(5) assms(1,2) by (auto simp: mrr_session_def)
  have len: "length (mrr_statementDescriptions (pc_multiResultReader pc1)) = length (mrr_resultFormats (pc_multiResultReader pc1))"
    using k(2) assms(1) by (simp add: mrr_session_def)
  have rd: "rr_settled (pc_resultReader pc1)" using k(1) assms(1) by (simp add: mrr_session_def)
  have "mrr_session pc' \<and> (isl r \<longrightarrow> mrr_closed (pc_multiResultReader pc'))"
  proof (cases r1)
    case (Inl e)
    define mrr where "mrr = (pc_multiResultReader pc1)
      \<lparr>mrr_err := Some (normalizeTimeoutError (mrr_ctx (pc_multiResultReader pc1)) e), mrr_closed := True\<rparr>"
    have "pc' = asyncClose ((ctx_Unwatch pc1)\<lparr>pc_multiResultReader := mrr\<rparr>)"
      using Inl r assms(3) by (simp add: mrr_receiveMessage_def Let_def mrr_def)
    then show ?thesis using ok1 len rd by (simp add: mrr_session_def asyncClose_ok ctx_Unwatch_ok mrr_def)
  next
    case (Inr m)
    show ?thesis
    proof (cases "\<exists>x. m = BM_ReadyForQuery x")
      case True
      let ?pc = "upd_mrr (\<lambda>mrr. mrr\<lparr>mrr_closed := True\<rparr>) pc1"
      from True Inr r assms(3) have "pc' = conn_unlock (ctx_Unwatch ?pc)" "r = Inr m"
        by (auto simp: mrr_receiveMessage_def)
      with conn_unlock_closing [of ?pc] ok1 st pk Inr len rd show ?thesis by (simp add: mrr_session_def)
    next
      case False
      have same: "pc1 = upd_mrr (\<lambda>mrr. mrr\<lparr>mrr_err := mrr_err (pc_multiResultReader pc1)\<rparr>) pc1" by simp
      obtain x where x: "pc' = upd_mrr (\<lambda>mrr. mrr\<lparr>mrr_err := x\<rparr>) pc1" "r = Inr m"
      proof (cases "\<exists>e. m = BM_ErrorResponse e")
        case True
        with Inr r assms(3) that show ?thesis by (auto simp: mrr_receiveMessage_def)
      next
        case no_err: False
        with False Inr r assms(3) have "pc' = pc1" "r = Inr m" by (cases m; simp add: mrr_receiveMessage_def)+
        with same that show ?thesis by metis
      qed
      have "\<not> mrr_closed (pc_multiResultReader pc1)" using assms(2) k(2) by simp
      then have "mrr_session pc'" using st len ok1 rd by (simp add: x(1) mrr_session_def)
      then show ?thesis by (simp add: x(2))
    qed
  qed
  then show "mrr_session pc'" "isl r \<Longrightarrow> mrr_closed (pc_multiResultReader pc')" by blast+
qed

lemma mrr_session_settled: "mrr_session pc \<Longrightarrow> rr_settled (pc_resultReader pc)"
  by (simp add: mrr_session_def)

lemma MultiResultReader_Close_session:
  "mrr_session pc \<Longrightarrow> MultiResultReader_Close pc = (e, pc') \<Longrightarrow> mrr_session pc' \<and> mrr_closed (pc_multiResultReader pc')"
proof (induction pc rule: MultiResultReader_Close.induct)
  case (1 pc)
  obtain r pc1 where r: "mrr_receiveMessage pc = (r, pc1)" by fastforce
  show ?case
  proof (cases "mrr_closed (pc_multiResultReader pc)")
    case True
    with "1.prems" show ?thesis by (simp add: MultiResultReader_Close.simps [of pc])
  next
    case False
    note s = mrr_receive_session [OF "1.prems"(1) False r]
    with "1.prems"(2) False r "1.IH" [OF False r [symmetric]] show ?thesis
      by (cases r) (auto simp: MultiResultReader_Close.simps [of pc])
  qed
qed

lemma load_statement_fields_keeps [simp]:
  "conn_ok (load_statement_fields sd rf pc) = conn_ok pc"
  "pc_status (load_statement_fields sd rf pc) = pc_status pc"
  "rr_pgConn (pc_resultReader (load_statement_fields sd rf pc)) = rr_pgConn (pc_resultReader pc)"
  "rr_multiResultReader (pc_resultReader (load_statement_fields sd rf pc)) = rr_multiResultReader (pc_resultReader pc)"
  by (simp_all add: load_statement_fields_def split: option.split sum.split)

lemma start_statement_session:
  assumes "mrr_session pc" and "start_statement pc = (b, pc')"
  shows "mrr_session pc'"
  using assms by (auto simp: start_statement_def mrr_session_def rr_settled_def new_ResultReader_def Let_def split: list.splits)

lemma start_result_session: "mrr_session pc \<Longrightarrow> start_result m pc = Some pc' \<Longrightarrow> mrr_session pc'"
  by (cases m) (auto simp: start_result_def mrr_session_def rr_settled_def new_ResultReader_def Let_def)

lemma peekMessage_session:
  assumes "mrr_session pc" and "\<not> mrr_closed (pc_multiResultReader pc)" and "peekMessage pc = (r, pc')"
  shows "mrr_session pc'" and "\<not> mrr_closed (pc_multiResultReader pc')"
  using peekMessage_ok [OF _ _ assms(3)] peekMessage_frame [OF assms(3)] assms(1,2)
  by (auto simp: mrr_session_def receive_frame_def)

lemma NextResult_session: "mrr_session pc \<Longrightarrow> NextResult pc = (b, pc') \<Longrightarrow> mrr_session pc'"
proof (induction pc rule: NextResult.induct)
  case (1 pc)
  show ?case
  proof (cases "mrr_closed (pc_multiResultReader pc) \<or> mrr_err (pc_multiResultReader pc) \<noteq> None")
    case True
    with "1.prems" show ?thesis by (simp add: NextResult.simps [of pc])
  next
    case go: False
    obtain p pc1 where p: "peekMessage pc = (p, pc1)" by fastforce
    have open_mrr: "\<not> mrr_closed (pc_multiResultReader pc)" using go by simp
    note s1 = peekMessage_session [OF "1.prems"(1) open_mrr p]
    obtain r pc2 where r: "mrr_receiveMessage pc1 = (r, pc2)" by fastforce
    note s2 = mrr_receive_session(1) [OF s1 r]
    let ?row = "case p of Inr msg \<Rightarrow> DataRow_of msg \<noteq> None | Inl _ \<Rightarrow> False"
    show ?thesis
    proof (cases ?row)
      case True
      with go p "1.prems"(2) start_statement_session [OF s1(1)] show ?thesis by (simp add: NextResult.simps [of pc])
    next
      case no_row: False
      show ?thesis
        using go p no_row r "1.prems"(2) s2 "1.IH" [OF go p [symmetric] no_row r [symmetric]] start_result_session [OF s2]
        by (cases r) (auto simp: NextResult.simps [of pc] split: option.splits)
    qed
  qed
qed


text \<open>The start of a reader of several results: an attached one has the connection, a detached one failed.\<close>

lemma mrr_begin:
  assumes "conn_ok pc" and "conn_lock pc = (None, pc1)" and "length (mrr_statementDescriptions mrr) = length (mrr_resultFormats mrr)"
    and "ctx_begin c (pc1\<lparr>pc_multiResultReader := mrr\<rparr>) = (e, pc2)" and "\<not> mrr_closed mrr"
    and "pc_status pc = connStatusIdle \<longrightarrow> rr_settled (pc_resultReader pc)"
    and "pc_status pc \<in> {connStatusIdle, connStatusBusy, connStatusClosed}"
  shows "mrr_session pc2" and "pc_multiResultReader pc2 = mrr"
    and "e \<noteq> None \<Longrightarrow> mrr_session (conn_unlock (upd_mrr (\<lambda>mrr. mrr\<lparr>mrr_closed := True, mrr_err := x\<rparr>) pc2))"
proof -
  let ?pc = "pc1\<lparr>pc_multiResultReader := mrr\<rparr>"
  note lk = conn_lock_ok [OF assms(1,2)]
  have l: "conn_ok ?pc" "pc_status ?pc = connStatusBusy" "\<not> pc_watching ?pc" "pc_peekedMsg ?pc = None"
    using lk by auto
  note b = ctx_begin_ok [OF l(1-3) assms(4)]
  have "pc_status pc = connStatusIdle" using assms(2,7) by (auto simp: conn_lock_def)
  then have rd1: "rr_settled (pc_resultReader pc1)" using assms(2,6) by (auto simp: conn_lock_def)
  then have rd: "rr_settled (pc_resultReader pc2)" by (subst b(5)) simp
  show mrr2: "pc_multiResultReader pc2 = mrr" by (subst b(5)) simp
  show "mrr_session pc2" using b(1,2) assms(3,5) mrr2 rd by (simp add: mrr_session_def)
  show "mrr_session (conn_unlock (upd_mrr (\<lambda>mrr. mrr\<lparr>mrr_closed := True, mrr_err := x\<rparr>) pc2))" if "e \<noteq> None"
    using conn_unlock_busy [of "upd_mrr (\<lambda>mrr. mrr\<lparr>mrr_closed := True, mrr_err := x\<rparr>) pc2"] b(3) [OF that] l assms(3) rd1
    by (simp add: mrr_session_def)
qed

lemma mrr_session_failed:
  assumes "mrr_session pc"
  shows "mrr_session (conn_unlock (upd_mrr (\<lambda>mrr. mrr\<lparr>mrr_closed := True, mrr_err := x\<rparr>) (ctx_Unwatch (asyncClose pc))))"
    and "mrr_session (asyncClose (upd_mrr (\<lambda>mrr. mrr\<lparr>mrr_closed := True, mrr_err := x\<rparr>) (ctx_Unwatch pc)))"
  using assms by (simp_all add: mrr_session_def asyncClose_ok ctx_Unwatch_ok)

lemma PgConn_Exec_session:
  assumes "conn_ok pc" and "PgConn_Exec c sql pc = (ref, pc')"
    and "pc_status pc = connStatusIdle \<longrightarrow> rr_settled (pc_resultReader pc)"
    and "pc_status pc \<in> {connStatusIdle, connStatusBusy, connStatusClosed}"
  shows "if ref = Attached then mrr_session pc' else pc' = pc"
proof -
  obtain e pc1 where l: "conn_lock pc = (e, pc1)" by fastforce
  show ?thesis
  proof (cases e)
    case (Some err)
    with l assms cmd_lock_refused(1) [OF assms(1)] show ?thesis by (auto simp: PgConn_Exec_def)
  next
    case None
    obtain e2 pc2 where b: "ctx_begin c (pc1\<lparr>pc_multiResultReader := new_MultiResultReader c\<rparr>) = (e2, pc2)" by fastforce
    note mb = mrr_begin [OF assms(1) l [unfolded None] _ b _ assms(3,4)]
    obtain e3 pc3 where f: "conn_flush (fe_send (SendQuery \<lparr>query_String = sql\<rparr>) pc2) = (e3, pc3)" by fastforce
    have "mrr_session pc3"
      using mb(1) conn_flush_keeps [OF f] by (simp add: mrr_session_def new_MultiResultReader_def send_defs)
    then show ?thesis
      using l None b f assms(2) mb(3) mrr_session_failed(1) [of pc3]
      by (cases e2; cases e3) (auto simp: PgConn_Exec_def new_MultiResultReader_def Let_def)
  qed
qed

definition batch_ok :: "Batch \<Rightarrow> bool" where
  "batch_ok b \<longleftrightarrow> length (ba_statementDescriptions b) = length (ba_resultFormats b)"

text \<open>Every batch is one of these, being built from an empty one.\<close>

lemma batch_encode_ok [simp]: "batch_ok (batch_encode enc b) = batch_ok b"
  by (simp add: batch_encode_def batch_ok_def split: sum.split)

lemma batch_ops_ok:
  "batch_ok \<lparr>ba_buf = [], ba_statementDescriptions = [], ba_resultFormats = [], ba_err = None\<rparr>"
  "batch_ok b \<Longrightarrow> batch_ok (Batch_ExecPrepared name pv pf rf b)"
  "batch_ok b \<Longrightarrow> batch_ok (Batch_ExecParams sql pv oids pf rf b)"
  "batch_ok b \<Longrightarrow> batch_ok (Batch_ExecStatement sd pv pf rf b)"
proof -
  assume b: "batch_ok b"
  then show p: "batch_ok (Batch_ExecPrepared name pv pf rf b)"
    by (simp add: Batch_ExecPrepared_def batch_bind_def Let_def)
  from b show "batch_ok (Batch_ExecParams sql pv oids pf rf b)"
    by (simp add: Batch_ExecParams_def Batch_ExecPrepared_def batch_bind_def Let_def)
  have "batch_ok (batch_bind (sd_Name sd) pv pf rf b)" using b by (simp add: batch_bind_def)
  then show "batch_ok (Batch_ExecStatement sd pv pf rf b)"
    by (simp add: Batch_ExecStatement_def Let_def) (simp add: batch_ok_def)
qed (simp add: batch_ok_def)

lemma conn_Write_keeps:
  assumes "conn_Write p pc = (e, pc')" and "mrr_session pc"
  shows "mrr_session pc'"
proof -
  obtain f where f: "pc' = pc\<lparr>pc_frontend := f\<rparr>" "ep_cr f = ep_cr (pc_frontend pc)"
    using assms(1) by (auto simp: conn_Write_def split: prod.splits)
  have "conn_ok pc' = conn_ok pc" by (rule conn_ok_cong) (simp_all add: f)
  with assms(2) show ?thesis by (simp add: mrr_session_def f(1))
qed

lemma PgConn_ExecBatch_session:
  assumes "conn_ok pc" and "batch_ok ba" and "PgConn_ExecBatch c ba pc = (ref, pc')"
    and "pc_status pc = connStatusIdle \<longrightarrow> rr_settled (pc_resultReader pc)"
    and "pc_status pc \<in> {connStatusIdle, connStatusBusy, connStatusClosed}"
  shows "if ref = Attached then mrr_session pc' else pc' = pc"
proof (cases "ba_err ba")
  case (Some err)
  with assms(3) show ?thesis by (auto simp: PgConn_ExecBatch_def)
next
  case no_err: None
  obtain e pc1 where l: "conn_lock pc = (e, pc1)" by fastforce
  show ?thesis
  proof (cases e)
    case (Some err)
    with l no_err assms cmd_lock_refused(1) [OF assms(1)] show ?thesis by (auto simp: PgConn_ExecBatch_def)
  next
    case None
    define mrr where "mrr = (new_MultiResultReader c)\<lparr>mrr_statementDescriptions := ba_statementDescriptions ba,
      mrr_resultFormats := ba_resultFormats ba\<rparr>"
    obtain e2 pc2 where b: "ctx_begin c (pc1\<lparr>pc_multiResultReader := mrr\<rparr>) = (e2, pc2)" by fastforce
    have mrr: "length (mrr_statementDescriptions mrr) = length (mrr_resultFormats mrr)" "\<not> mrr_closed mrr"
      using assms(2) by (simp_all add: mrr_def batch_ok_def new_MultiResultReader_def)
    note mb = mrr_begin [OF assms(1) l [unfolded None] mrr(1) b mrr(2) assms(4,5)]
    define b3 where "b3 = batch_encode (Sync_Encode ()) ba"
    obtain e4 pc4 where w: "conn_Write (ba_buf b3) pc2 = (e4, pc4)" by fastforce
    note s4 = conn_Write_keeps [OF w mb(1)]
    show ?thesis
      using l no_err None b w assms(3) mb(1,3) mrr_session_failed(2) [OF mb(1)] mrr_session_failed(2) [OF s4] s4
      by (cases e2; cases "ba_err b3"; cases e4)
        (auto simp: PgConn_ExecBatch_def Let_def mrr_def [symmetric] b3_def [symmetric])
  qed
qed


section \<open>The rows of one of several results\<close>

text \<open>The panic of \<open>unlock\<close>. Once there is a panic, nothing that is read afterwards replaces it.\<close>

definition unlock_panic :: "PgConn \<Rightarrow> bool" where
  "unlock_panic pc \<longleftrightarrow> pc_panics pc = [''BUG: cannot unlock unlocked connection'']"

lemma panics_stay [simp]:
  "pc_panics pc \<noteq> [] \<Longrightarrow> pc_panics (conn_panic s pc) = pc_panics pc"
  "pc_panics pc \<noteq> [] \<Longrightarrow> pc_panics (conn_unlock pc) = pc_panics pc"
  "pc_panics pc \<noteq> [] \<Longrightarrow> pc_panics (close_cleanupDone pc) = pc_panics pc"
  "pc_panics pc \<noteq> [] \<Longrightarrow> pc_panics (asyncClose pc) = pc_panics pc"
  "pc_panics (ctx_Unwatch pc) = pc_panics pc"
  "pc_panics (rr_handle m pc) = pc_panics pc"
  by (simp_all add: conn_basic_defs rr_handle_def Let_def split: connStatus.split BackendMessage.split)

lemma receiveMessage_panics:
  assumes "receiveMessage pc = (r, pc')" and "pc_panics pc \<noteq> []"
  shows "pc_panics pc' = pc_panics pc"
proof -
  have receive: "pc_panics x' = pc_panics x" if "buffered_Receive x = (y, x')" for x x' y
    using that by (auto simp: buffered_Receive_def conn_Receive_def Let_def split: if_splits prod.splits sum.splits)
  have peek: "pc_panics x' = pc_panics x" if "peekMessage x = (y, x')" "pc_panics x \<noteq> []" for x x' y
    using that receive [of x] by (auto simp: peekMessage_def split: option.splits prod.splits sum.splits if_splits)
  have handle: "pc_panics x' = pc_panics x" if "handle_message m x = (y, x')" "pc_panics x \<noteq> []" for m x x' y
    using that by (cases m) (auto simp: handle_message_def Let_def split: option.splits if_splits)
  obtain y pc1 where p: "peekMessage pc = (y, pc1)" by fastforce
  note p1 = peek [OF p assms(2)]
  show ?thesis
    using assms p p1 handle [of _ "pc1\<lparr>pc_peekedMsg := None\<rparr>" r pc']
    by (cases y) (auto simp: receiveMessage_def split: if_splits)
qed

lemma mrr_receiveMessage_panics:
  assumes "mrr_receiveMessage pc = (r, pc')" and "pc_panics pc \<noteq> []"
  shows "pc_panics pc' = pc_panics pc"
proof -
  obtain r1 pc1 where r: "receiveMessage pc = (r1, pc1)" by fastforce
  note p = receiveMessage_panics [OF r assms(2)]
  show ?thesis
  proof (cases r1)
    case (Inr m)
    with assms r p show ?thesis by (cases m) (auto simp: mrr_receiveMessage_def)
  qed (use assms r p in \<open>auto simp: mrr_receiveMessage_def Let_def\<close>)
qed

lemma rr_receiveMessage_panics:
  assumes "rr_receiveMessage pc = (r, pc')" and "pc_panics pc \<noteq> []"
  shows "pc_panics pc' = pc_panics pc"
  using assms receiveMessage_panics [of pc] mrr_receiveMessage_panics [of pc]
  by (auto simp: rr_receiveMessage_def Let_def split: if_splits prod.splits sum.splits)

text \<open>Receiving after the results have ended: the connection is idle.\<close>

lemma mrr_receive_ended:
  assumes "mrr_session pc" and "mrr_closed (pc_multiResultReader pc)" and "mrr_receiveMessage pc = (r, pc')"
  shows "mrr_session pc' \<or> unlock_panic pc'"
proof -
  obtain r1 pc1 where r: "receiveMessage pc = (r1, pc1)" by fastforce
  have ok: "conn_ok pc" using assms(1) by (simp add: mrr_session_def)
  note k = receiveMessage_keeps [OF r] and ok1 = receiveMessage_ok [OF ok r]
  have s1: "mrr_session pc1" using assms(1,2) ok1 k(1,2,5) by (auto simp: mrr_session_def)
  show ?thesis
  proof (cases r1)
    case (Inl e)
    define mrr where "mrr = (pc_multiResultReader pc1)
      \<lparr>mrr_err := Some (normalizeTimeoutError (mrr_ctx (pc_multiResultReader pc1)) e), mrr_closed := True\<rparr>"
    have "pc' = asyncClose ((ctx_Unwatch pc1)\<lparr>pc_multiResultReader := mrr\<rparr>)"
      using Inl r assms(3) by (simp add: mrr_receiveMessage_def Let_def mrr_def)
    then show ?thesis using s1 by (simp add: mrr_session_def asyncClose_ok ctx_Unwatch_ok mrr_def)
  next
    case (Inr m)
    show ?thesis
    proof (cases "\<exists>x. m = BM_ReadyForQuery x")
      case True
      let ?pc = "ctx_Unwatch (upd_mrr (\<lambda>mrr. mrr\<lparr>mrr_closed := True\<rparr>) pc1)"
      have pc': "pc' = conn_unlock ?pc" using True Inr r assms(3) by (auto simp: mrr_receiveMessage_def)
      have "pc_panics ?pc = []" using ok1 by (simp add: conn_ok_def conn_sound_def)
      then have "unlock_panic pc'" if "pc_status pc1 = connStatusIdle"
        using that by (simp add: pc' conn_unlock_def conn_panic_def unlock_panic_def)
      moreover have "mrr_session pc'" if "pc_status pc1 = connStatusClosed"
        using that s1 by (simp add: pc' mrr_session_def ctx_Unwatch_ok)
      ultimately show ?thesis using s1 k(2) assms(2) by (auto simp: mrr_session_def)
    next
      case False
      then have "pc' = (case m of
          BM_ErrorResponse e \<Rightarrow> upd_mrr (\<lambda>mrr. mrr\<lparr>mrr_err := Some (PgErr (ErrorResponseToPgError e))\<rparr>) pc1
        | _ \<Rightarrow> pc1)"
        using Inr r assms(3) by (cases m) (simp_all add: mrr_receiveMessage_def)
      moreover have "mrr_session (upd_mrr (\<lambda>mrr. mrr\<lparr>mrr_err := x\<rparr>) pc1)" for x
        using s1 by (simp add: mrr_session_def)
      ultimately show ?thesis using s1 by (cases m) simp_all
    qed
  qed
qed

lemma rr_receive_rows:
  assumes "mrr_session pc" and "\<not> rr_commandConcluded (pc_resultReader pc)" and "rr_returned (pc_resultReader pc)"
    and "rr_receiveMessage pc = (r, pc')"
  shows "mrr_session pc' \<or> unlock_panic pc'"
proof (cases "rr_multiResultReader (pc_resultReader pc)")
  case True
  obtain r1 pc1 where r: "mrr_receiveMessage pc = (r1, pc1)" by fastforce
  have s: "mrr_session pc1 \<or> unlock_panic pc1"
    using mrr_receive_session(1) [OF assms(1) _ r] mrr_receive_ended [OF assms(1) _ r] by blast
  have rd: "rr_pgConn (pc_resultReader pc1)" "rr_multiResultReader (pc_resultReader pc1)"
    using mrr_receiveMessage_frame [OF r] assms(2,3) True by (simp_all add: rr_frame_def rr_returned_def)
  show ?thesis
  proof (cases r1)
    case (Inl e)
    define rr where "rr = (concludeCommand no_tag (Some (normalizeTimeoutError (rr_ctx (pc_resultReader pc1)) e))
      (pc_resultReader pc1))\<lparr>rr_closed := True\<rparr>"
    have "pc' = (ctx_Unwatch pc1)\<lparr>pc_resultReader := rr\<rparr>"
      using Inl True rd assms(4) r by (auto simp: rr_receiveMessage_def Let_def rr_def ctx_Unwatch_def)
    with s show ?thesis
      by (auto simp: mrr_session_def unlock_panic_def rr_settled_def rr_def ctx_Unwatch_ok)
  next
    case (Inr m)
    then have pc': "pc' = rr_handle m pc1" using True assms(4) r by (simp add: rr_receiveMessage_def)
    have "rr_settled (pc_resultReader pc')"
      using rr_handle_frame [of pc1 m] rd by (simp add: pc' rr_settled_def rr_frame_def)
    with s show ?thesis by (auto simp: pc' mrr_session_def unlock_panic_def)
  qed
next
  case False
  have ok: "conn_ok pc" and at: "rr_pgConn (pc_resultReader pc)" and pl: "rr_pipeline (pc_resultReader pc)"
    using assms(1-3) False by (auto simp: mrr_session_def rr_returned_def rr_settled_def)
  note s = rr_receive_single [OF ok False assms(4) at] and f = rr_receiveMessage_frame [OF assms(4)]
  have "rr_settled (pc_resultReader pc')" using f at pl by (simp add: rr_settled_def rr_frame_def)
  with s assms(1) show ?thesis by (cases "isl r") (auto simp: mrr_session_def)
qed

text \<open>While the rows are read: the invariant, or the panic.\<close>

definition rows_read :: "PgConn \<Rightarrow> bool" where
  "rows_read pc \<longleftrightarrow> mrr_session pc \<and> rr_returned (pc_resultReader pc) \<or> unlock_panic pc"

lemma rr_receive_rows_read:
  assumes "rows_read pc" and "\<not> rr_commandConcluded (pc_resultReader pc)" and "rr_receiveMessage pc = (r, pc')"
  shows "rows_read pc'"
proof (cases "unlock_panic pc")
  case True
  with rr_receiveMessage_panics [OF assms(3)] show ?thesis by (simp add: rows_read_def unlock_panic_def)
next
  case False
  with assms(1) have s: "mrr_session pc" "rr_returned (pc_resultReader pc)" by (simp_all add: rows_read_def)
  then have "rr_returned (pc_resultReader pc')"
    using rr_receiveMessage_frame [OF assms(3)] assms(2) by (simp add: rr_returned_def rr_frame_def)
  with rr_receive_rows [OF s(1) assms(2) s(2) assms(3)] show ?thesis by (auto simp: rows_read_def)
qed

lemma rows_read_simps [simp]:
  "rows_read pc \<Longrightarrow> rows_read (upd_rr (\<lambda>rr. rr\<lparr>rr_rowValues := v\<rparr>) pc)"
  "rows_read pc \<Longrightarrow> rows_read (upd_rr (\<lambda>rr. rr\<lparr>rr_preloaded := b\<rparr>) pc)"
  "rows_read pc \<Longrightarrow> rows_read (upd_rr (\<lambda>rr. rr\<lparr>rr_closed := True\<rparr>) pc)"
  by (auto simp: rows_read_def mrr_session_def unlock_panic_def)

lemma NextRow_rows: "rows_read pc \<Longrightarrow> NextRow pc = (b, pc') \<Longrightarrow> rows_read pc'"
  by (rule NextRow_reads [where P = rows_read]) (auto intro: rr_receive_rows_read)

lemma ResultReader_Close_rows:
  assumes "rows_read pc" and "ResultReader_Close pc = (x, pc')"
  shows "rows_read pc'"
proof (cases "rr_closed (pc_resultReader pc) \<or> unlock_panic pc")
  case True
  then show ?thesis
  proof
    assume "rr_closed (pc_resultReader pc)"
    with assms show ?thesis by (simp add: ResultReader_Close_def)
  next
    assume u: "unlock_panic pc"
    have "unlock_panic pc'"
      by (rule ResultReader_Close_keeps [where P = unlock_panic, OF _ _ _ _ u assms(2)])
        (auto simp: unlock_panic_def dest: rr_receiveMessage_panics)
    then show ?thesis by (simp add: rows_read_def)
  qed
next
  case False
  let ?pc = "upd_rr (\<lambda>rr. rr\<lparr>rr_closed := True\<rparr>) pc"
  let ?P = "\<lambda>pc. rows_read pc \<and> (rr_multiResultReader (pc_resultReader pc) \<or> rr_pipeline (pc_resultReader pc))"
  obtain e pc1 where c: "Close_loop ?pc = (e, pc1)" by fastforce
  have step: "?P pc3" if "?P pc2" "\<not> rr_commandConcluded (pc_resultReader pc2)" "rr_receiveMessage pc2 = (r, pc3)"
    for pc2 r pc3
    using that rr_receive_rows_read [of pc2 r pc3] rr_receiveMessage_frame [OF that(3)] by (simp add: rr_frame_def)
  have p: "?P ?pc" using assms(1) False by (auto simp: rows_read_def mrr_session_def rr_settled_def)
  have "?P pc1" by (rule Close_loop_reads [where P = ?P, OF _ p c]) (erule (2) step)
  with assms(2) False c show ?thesis
    by (auto simp: ResultReader_Close_def split: option.splits if_splits)
qed

lemma ResultReader_Read_rows:
  assumes "rows_read pc" and "ResultReader_Read pc = (x, pc')"
  shows "rows_read pc'"
proof -
  obtain br pc1 where r: "Read_loop \<lparr>res_FieldDescriptions = None, res_Rows = [], res_CommandTag = no_tag, res_Err = None\<rparr> pc = (br, pc1)"
    by fastforce
  have "rows_read pc1" by (rule Read_loop_keeps [where P = rows_read, OF NextRow_rows assms(1) r])
  moreover obtain y pc2 where c: "ResultReader_Close pc1 = (y, pc2)" by fastforce
  ultimately have "rows_read pc2" by (rule ResultReader_Close_rows)
  with assms(2) r c show ?thesis by (auto simp: ResultReader_Read_def Let_def split: prod.splits)
qed

end
