(* ===== verification/Pgconn_Steps.thy ===== *)
theory Pgconn_Steps
  imports Pgconn_Multi
begin

text \<open>
  A new connection, and the pipeline, which keeps the invariant of its connection; then the life of a
  connection as a transition system whose steps are the calls a client may make.
\<close>

section \<open>A connection from its parts\<close>

text \<open>\<open>Hijack\<close> and \<open>Construct\<close>. A network connection is the reader and the writer at its two ends.\<close>

record HijackedConn =
  hc_r :: reader
  hc_w :: writer
  hc_PID :: u32
  hc_SecretKey :: bytes
  hc_ParameterStatuses :: "bytes \<rightharpoonup> bytes"
  hc_TxStatus :: byte
  hc_Frontend :: "chunkReader Frontend"
  hc_OnPgError :: "(PgError \<Rightarrow> bool) option"
  hc_OnNotice :: bool
  hc_OnNotification :: bool

definition Hijack :: "PgConn \<Rightarrow> (conn_err + HijackedConn) \<times> PgConn" where
  "Hijack pc =
     (case conn_lock pc of
        (Some err, pc) \<Rightarrow> (Inl err, pc)
      | (None, pc) \<Rightarrow>
          (let pc = pc\<lparr>pc_status := connStatusClosed\<rparr> in
           (Inr \<lparr>hc_r = cr_r (ep_cr (pc_frontend pc)), hc_w = ep_w (pc_frontend pc), hc_PID = pc_pid pc,
              hc_SecretKey = pc_secretKey pc, hc_ParameterStatuses = pc_parameterStatuses pc,
              hc_TxStatus = pc_txStatus pc, hc_Frontend = pc_frontend pc, hc_OnPgError = pc_OnPgError pc,
              hc_OnNotice = pc_OnNotice pc, hc_OnNotification = pc_OnNotification pc\<rparr>, pc)))"

text \<open>The message that the background reader keeps is not looked at before it is set.\<close>

definition Construct :: "HijackedConn \<Rightarrow> pools \<Rightarrow> PgConn result" where
  "Construct hc ps =
     bindE (NewFrontend (hc_r hc) (hc_w hc) ps) (\<lambda>f.
       Inr \<lparr>pc_frontend = f, pc_pid = hc_PID hc, pc_secretKey = hc_SecretKey hc,
          pc_parameterStatuses = hc_ParameterStatuses hc, pc_txStatus = hc_TxStatus hc, pc_status = connStatusIdle,
          pc_bufferingReceive = False, pc_bufferingReceiveMsg = Inl EOF, pc_peekedMsg = None,
          pc_resultReader = zero_ResultReader,
          pc_multiResultReader = new_MultiResultReader no_ctx,
          pc_pipeline = \<lparr>pl_ctx = no_ctx, pl_state = new_pipelineState, pl_err = None, pl_closed = False\<rparr>,
          pc_fieldDescriptions = replicate 16 zero_field, pc_OnPgError = hc_OnPgError hc,
          pc_OnNotice = hc_OnNotice hc, pc_OnNotification = hc_OnNotification hc, pc_watching = False,
          pc_cleanupDone = False, pc_notices = [], pc_notifications = [], pc_panics = []\<rparr>)"

lemma Construct_ok:
  assumes "wf_pools ps" and "proper_reader (hc_r hc)"
  obtains pc where "Construct hc ps = Inr pc" and "conn_ok pc" and "pc_status pc = connStatusIdle"
    and "\<not> rr_returned (pc_resultReader pc)"
proof -
  obtain cr where cr: "newChunkReader (hc_r hc) 0 ps = Inr cr" "wf_chunkReader cr"
    by (rule newChunkReader_ok [OF assms, where n = 0])
  then show ?thesis
    by (intro that) (auto simp: Construct_def NewFrontend_def conn_ok_def conn_sound_def rr_returned_def zero_ResultReader_def)
qed

section \<open>The pipeline\<close>

text \<open>
  While a pipeline is open its connection is busy, and the reader of results is closed or belongs to it.
  \<open>st\<close> is the status the connection has unless it is closed.
\<close>

definition pl_reading :: "connStatus \<Rightarrow> bool \<Rightarrow> PgConn \<Rightarrow> bool" where
  "pl_reading st b pc \<longleftrightarrow> conn_ok pc \<and> pc_peekedMsg pc = None \<and> \<not> rr_multiResultReader (pc_resultReader pc)
     \<and> rr_settled (pc_resultReader pc)
     \<and> (rr_closed (pc_resultReader pc) \<or> rr_pgConn (pc_resultReader pc) \<and> rr_pipeline (pc_resultReader pc))
     \<and> pc_status pc \<in> {st, connStatusClosed} \<and> pl_closed (pc_pipeline pc) = b"

definition pl_session :: "PgConn \<Rightarrow> bool" where
  "pl_session pc \<longleftrightarrow>
     (if pl_closed (pc_pipeline pc) then pl_reading connStatusIdle True pc else pl_reading connStatusBusy False pc)"

lemma pl_reading_rr:
  assumes "pl_reading st b pc" and "rr_receiveMessage pc = (r, pc')" and "rr_pgConn (pc_resultReader pc)"
  shows "pl_reading st b pc'"
proof -
  have ok: "conn_ok pc" and m: "\<not> rr_multiResultReader (pc_resultReader pc)"
    using assms(1) by (simp_all add: pl_reading_def)
  note s = rr_receive_single [OF ok m assms(2,3)] and f = rr_receiveMessage_frame [OF assms(2)]
    and pk = rr_receive_peeked [OF m assms(2)]
  have "rr_settled (pc_resultReader pc')"
    using f assms(1,3) rr_receive_concluded [OF _ m assms(2)]
    by (auto simp: pl_reading_def rr_settled_def rr_returned_def rr_frame_def)
  then show ?thesis
    using s f pk assms(1) by (cases "isl r") (auto simp: pl_reading_def rr_frame_def)
qed

text \<open>A reader that the pipeline has returned.\<close>

definition pl_rows :: "connStatus \<Rightarrow> bool \<Rightarrow> PgConn \<Rightarrow> bool" where
  "pl_rows st b pc \<longleftrightarrow> pl_reading st b pc \<and> rr_returned (pc_resultReader pc)"

lemma pl_rows_NextRow: "pl_rows st b pc \<Longrightarrow> NextRow pc = (x, pc') \<Longrightarrow> pl_rows st b pc'"
proof (rule NextRow_reads [where P = "pl_rows st b"])
  fix pc r pc'
  assume a: "pl_rows st b pc" "\<not> rr_commandConcluded (pc_resultReader pc)" "rr_receiveMessage pc = (r, pc')"
  then have at: "rr_pgConn (pc_resultReader pc)" by (simp add: pl_rows_def rr_returned_def)
  with rr_receiveMessage_frame [OF a(3)] have "rr_returned (pc_resultReader pc')" by (simp add: rr_frame_def rr_returned_def)
  with a(1) pl_reading_rr [OF _ a(3) at] show "pl_rows st b pc'" by (simp add: pl_rows_def)
qed (simp_all add: pl_rows_def pl_reading_def)

lemma pl_reading_Close:
  assumes "pl_reading st b pc" and "ResultReader_Close pc = (x, pc')"
  shows "pl_reading st b pc'"
proof (cases "rr_closed (pc_resultReader pc)")
  case True
  with assms show ?thesis by (simp add: ResultReader_Close_def)
next
  case False
  let ?pc = "upd_rr (\<lambda>rr. rr\<lparr>rr_closed := True\<rparr>) pc"
  let ?P = "\<lambda>pc. pl_reading st b pc \<and> rr_pgConn (pc_resultReader pc) \<and> rr_pipeline (pc_resultReader pc)"
  obtain e pc1 where c: "Close_loop ?pc = (e, pc1)" by fastforce
  have step: "?P pc3" if "?P pc2" "rr_receiveMessage pc2 = (r, pc3)" for pc2 r pc3
    using that pl_reading_rr [of st b pc2 r pc3] rr_receiveMessage_frame [OF that(2)] by (simp add: rr_frame_def)
  have "?P ?pc" using assms(1) False by (simp add: pl_reading_def)
  from Close_loop_keeps [where P = ?P, OF step this c] assms(2) False c show ?thesis
    by (auto simp: ResultReader_Close_def split: option.splits if_splits)
qed

lemma pl_reading_Read:
  assumes "pl_rows st b pc" and "ResultReader_Read pc = (x, pc')"
  shows "pl_reading st b pc'"
proof -
  obtain br pc1 where r: "Read_loop \<lparr>res_FieldDescriptions = None, res_Rows = [], res_CommandTag = no_tag, res_Err = None\<rparr> pc = (br, pc1)"
    by fastforce
  have "pl_rows st b pc1" by (rule Read_loop_keeps [where P = "pl_rows st b", OF pl_rows_NextRow assms(1) r])
  then have "pl_reading st b pc1" by (simp add: pl_rows_def)
  moreover obtain y pc2 where c: "ResultReader_Close pc1 = (y, pc2)" by fastforce
  ultimately have "pl_reading st b pc2" by (rule pl_reading_Close)
  with assms(2) r c show ?thesis by (auto simp: ResultReader_Read_def Let_def split: prod.splits)
qed

text \<open>The steps that read the answers.\<close>

definition pl_keeps :: "'a pl_step \<Rightarrow> bool" where
  "pl_keeps s \<longleftrightarrow> (\<forall>st b pc r pc'. pl_reading st b pc \<longrightarrow> s pc = (r, pc') \<longrightarrow> pl_reading st b pc')"

lemma pl_keepsD: "pl_keeps s \<Longrightarrow> pl_reading st b pc \<Longrightarrow> s pc = (r, pc') \<Longrightarrow> pl_reading st b pc'"
  unfolding pl_keeps_def by blast

lemma pl_keeps_and_then [intro]:
  assumes "pl_keeps s" and "\<And>x. pl_keeps (k x)"
  shows "pl_keeps (and_then s k)"
  unfolding pl_keeps_def
proof (intro allI impI)
  fix st b pc r pc'
  assume p: "pl_reading st b pc" and a: "and_then s k pc = (r, pc')"
  obtain r1 pc1 where s: "s pc = (r1, pc1)" by fastforce
  note p1 = pl_keepsD [OF assms(1) p s]
  from a s p1 pl_keepsD [OF assms(2) p1] show "pl_reading st b pc'" by (cases r1) (auto simp: and_then_def)
qed

lemma pl_reading_asyncClose [simp]: "pl_reading st b pc \<Longrightarrow> pl_reading st b (asyncClose pc)"
  by (simp add: pl_reading_def asyncClose_ok)

lemma pl_reading_simps [simp]:
  "pl_reading st b (upd_pl (\<lambda>p. p\<lparr>pl_err := e\<rparr>) pc) = pl_reading st b pc"
  "pl_reading st b (upd_pl (\<lambda>p. p\<lparr>pl_state := s\<rparr>) pc) = pl_reading st b pc"
  "pl_reading st b (upd_state g pc) = pl_reading st b pc"
  "pl_reading st b (store_fields fds pc) = pl_reading st b pc"
  "pl_reading st b (fe_send (endpoint_Send enc) pc) = pl_reading st b pc"
  by (simp_all add: pl_reading_def upd_state_def) (simp add: fe_send_def)

lemma pl_receiveMessage_reading: "pl_reading st b pc \<Longrightarrow> pl_receiveMessage pc = (r, pc') \<Longrightarrow> pl_reading st b pc'"
proof (induction pc rule: pl_receiveMessage.induct)
  case (1 pc)
  obtain r1 pc1 where r: "receiveMessage pc = (r1, pc1)" by fastforce
  have "conn_ok pc" using "1.prems"(1) by (simp add: pl_reading_def)
  note ok = receiveMessage_ok [OF this r]
  have "pc_peekedMsg pc1 = None" using receiveMessage_peeked [OF r] "1.prems"(1) by (auto simp: pl_reading_def)
  then have p: "pl_reading st b pc1"
    using "1.prems"(1) ok receiveMessage_keeps [OF r]
    by (cases "pc_status pc1 = connStatusClosed") (simp_all add: pl_reading_def)
  show ?case
    using r p "1.prems"(2) "1.IH" [OF r [symmetric]]
    by (cases r1) (auto simp: pl_receiveMessage.simps [of pc] split: if_splits)
qed

lemma pl_keeps_basic [simp, intro]:
  "pl_keeps pl_receiveMessage"
  "pl_keeps (\<lambda>pc. (r, pc))"
  "pl_keeps (pl_error m)"
  "pl_keeps (pl_error_close m)"
  "pl_keeps (handleUnexpectedMessage s)"
  "pl_keeps (concluded_reader t fds)"
  "pl_keeps (\<lambda>pc. (r, open_reader fds (store_fields fds pc)))"
  "pl_keeps (\<lambda>pc. (r, upd_state g pc))"
proof -
  show "pl_keeps pl_receiveMessage" unfolding pl_keeps_def using pl_receiveMessage_reading by blast
  show "pl_keeps (\<lambda>pc. (r, pc))" "pl_keeps (pl_error m)" "pl_keeps (handleUnexpectedMessage s)"
    "pl_keeps (\<lambda>pc. (r, upd_state g pc))"
    by (auto simp: pl_keeps_def pl_error_def handleUnexpectedMessage_def Let_def)
  show "pl_keeps (pl_error_close m)"
    by (auto simp: pl_keeps_def pl_error_close_def pl_error_def Let_def) (simp add: pl_reading_def upd_state_def)
  show "pl_keeps (concluded_reader t fds)" "pl_keeps (\<lambda>pc. (r, open_reader fds (store_fields fds pc)))"
    by (auto simp: pl_keeps_def concluded_reader_def open_reader_def pl_reading_def new_ResultReader_def
        zero_ResultReader_def rr_settled_def)
qed

lemma pl_keeps_store: "pl_keeps s \<Longrightarrow> pl_keeps (\<lambda>pc. s (store_fields fds pc))"
  unfolding pl_keeps_def by (metis pl_reading_simps(4))

lemma receive_steps_keep [simp, intro]:
  "pl_keeps (receiveParseComplete s)" "pl_keeps (receiveBindComplete s)" "pl_keeps (receiveDescribedResultReader s)"
  unfolding receiveParseComplete_def receiveBindComplete_def receiveDescribedResultReader_def
  by (rule pl_keeps_and_then, simp, auto split: BackendMessage.split)+

lemma statement_reader_keeps: "pl_keeps (statement_reader m fds)"
proof (cases m)
  case (BM_DataRow vs)
  then show ?thesis
    by (auto simp: statement_reader_def pl_keeps_def preloadRowValues_def open_reader_def pl_reading_def
        new_ResultReader_def rr_settled_def)
qed (simp_all add: statement_reader_def pl_keeps_store)

lemma statement_result_keeps: "pl_keeps (statement_result m)"
  unfolding statement_result_def
proof (rule pl_keeps_and_then)
  show "pl_keeps extract_statement"
    by (auto simp: pl_keeps_def extract_statement_def Let_def split: prod.splits)
qed (auto simp: statement_reader_keeps split: option.split sum.split)

lemma getResults_keep [simp, intro]:
  "pl_keeps getResultsPrepare" "pl_keeps getResultsQueryParams" "pl_keeps getResultsQueryPrepared"
  "pl_keeps getResultsQueryStatement" "pl_keeps getResultsDeallocate" "pl_keeps getResultsSync"
proof -
  show "pl_keeps getResultsPrepare"
    unfolding getResultsPrepare_def Let_def
    by (rule pl_keeps_and_then, simp, rule pl_keeps_and_then, simp)
      (auto split: BackendMessage.split)
  show "pl_keeps getResultsQueryParams" "pl_keeps getResultsQueryPrepared"
    unfolding getResultsQueryParams_def getResultsQueryPrepared_def by auto
  show "pl_keeps getResultsQueryStatement"
    unfolding getResultsQueryStatement_def by (intro pl_keeps_and_then pl_keeps_basic receive_steps_keep statement_result_keeps)
  show "pl_keeps getResultsDeallocate"
    unfolding getResultsDeallocate_def by (rule pl_keeps_and_then) (auto split: BackendMessage.split)
  have e: "pl_keeps (\<lambda>pc. pl_error_close m (upd_state g pc))" for m g
    using pl_keeps_basic(4) [of m] unfolding pl_keeps_def by (metis pl_reading_simps(3))
  show "pl_keeps getResultsSync"
    unfolding getResultsSync_def sync_result_def by (rule pl_keeps_and_then) (auto simp: e split: BackendMessage.split)
qed

lemma pl_getResults_keeps: "pl_keeps pl_getResults"
proof -
  have "pl_keeps (dispatch_request t)" for t by (cases t) (auto simp: dispatch_request_def)
  then have "pl_keeps next_request"
    unfolding pl_keeps_def next_request_def Let_def
    by (metis (no_types, lifting) case_prod_beta pl_reading_simps(2))
  moreover have "pl_keeps close_reader"
    by (auto simp: pl_keeps_def close_reader_def dest: pl_reading_Close split: if_splits prod.splits option.splits)
  ultimately show ?thesis unfolding pl_getResults_def by auto
qed

lemma Close_results_loop_reading: "pl_reading st b pc \<Longrightarrow> pl_reading st b (Close_results_loop pc)"
proof (induction pc rule: Close_results_loop.induct)
  case (1 pc)
  obtain r pc1 where r: "pl_getResults pc = (r, pc1)" by fastforce
  have p: "pl_reading st b pc1" by (rule pl_keepsD [OF pl_getResults_keeps "1.prems" r])
  show ?case
  proof (cases "ExpectedReadyForQuery (pl_state (pc_pipeline pc)) > 0")
    case False
    with "1.prems" show ?thesis by (simp add: Close_results_loop.simps [of pc])
  next
    case True
    show ?thesis
    proof (cases r)
      case (Inl err)
      with p True r "1.IH"(1) [OF True r [symmetric] Inl refl] show ?thesis
        by (simp add: Close_results_loop.simps [of pc] Let_def)
    next
      case (Inr x)
      have "pl_reading st b (upd_pl (\<lambda>p. if pl_err p = None then p\<lparr>pl_err := e\<rparr> else p) (asyncClose pc1))" for e
        using pl_reading_asyncClose [OF p] by (simp add: pl_reading_def)
      with p True r Inr "1.IH"(2) [OF True r [symmetric] Inr] show ?thesis
        by (simp add: Close_results_loop.simps [of pc])
    qed
  qed
qed

text \<open>The calls of a pipeline.\<close>

lemma StartPipeline_session:
  assumes "conn_ok pc" and "StartPipeline c pc = (ref, pc')"
  shows "if ref = PipelineAttached then pl_session pc' else pc' = pc"
proof -
  obtain e pc1 where l: "conn_lock pc = (e, pc1)" by fastforce
  show ?thesis
  proof (cases e)
    case (Some err)
    with l assms cmd_lock_refused(1) [OF assms(1)] show ?thesis by (auto simp: StartPipeline_def)
  next
    case None
    let ?pc = "pc1\<lparr>pc_resultReader := zero_ResultReader\<lparr>rr_closed := True\<rparr>, pc_pipeline := new_Pipeline c\<rparr>"
    obtain e2 pc2 where b: "ctx_begin c ?pc = (e2, pc2)" by fastforce
    note lk = conn_lock_ok [OF assms(1) l]
    have l1: "conn_ok ?pc" "pc_status ?pc = connStatusBusy" "\<not> pc_watching ?pc" "pc_peekedMsg ?pc = None"
      using lk None by auto
    note cb = ctx_begin_ok [OF l1(1-3) b]
    have p2: "pc_resultReader pc2 = pc_resultReader ?pc" "pc_pipeline pc2 = new_Pipeline c" "pc_peekedMsg pc2 = None"
      using l1(4) by (subst cb(5), simp)+
    have s: "pl_session pc2"
      using cb(1,2) p2
      by (simp add: pl_session_def pl_reading_def new_Pipeline_def zero_ResultReader_def rr_settled_def rr_returned_def)
    have "pl_session (conn_unlock (upd_pl (\<lambda>p. p\<lparr>pl_closed := True, pl_err := x\<rparr>) ?pc))" for x
      using conn_unlock_busy [of "upd_pl (\<lambda>p. p\<lparr>pl_closed := True, pl_err := x\<rparr>) ?pc"] l1
      by (simp add: pl_session_def pl_reading_def zero_ResultReader_def rr_settled_def rr_returned_def)
    with l None b assms(2) s cb(3) show ?thesis
      by (cases e2) (auto simp: StartPipeline_def)
  qed
qed

lemma pl_session_upd_state [simp]: "pl_session (upd_state g pc) = pl_session pc"
  by (simp add: pl_session_def) (simp add: upd_state_def)

lemma pl_session_send [simp]: "pl_session (fe_send (endpoint_Send enc) pc) = pl_session pc"
  by (simp add: pl_session_def)

lemma pipeline_send_session [simp]:
  "pl_session pc \<Longrightarrow> pl_session (SendPrepare name sql oids pc)"
  "pl_session pc \<Longrightarrow> pl_session (SendDeallocate name pc)"
  "pl_session pc \<Longrightarrow> pl_session (SendQueryParams sql pv oids pf rf pc)"
  "pl_session pc \<Longrightarrow> pl_session (SendQueryPrepared name pv pf rf pc)"
  "pl_session pc \<Longrightarrow> pl_session (SendQueryStatement sd pv pf rf pc)"
  "pl_session pc \<Longrightarrow> pl_session (SendFlushRequest pc)"
  "pl_session pc \<Longrightarrow> pl_session (SendPipelineSync pc)"
  by (simp_all add: SendPrepare_def SendDeallocate_def SendQueryParams_def SendQueryPrepared_def
      SendQueryStatement_def SendFlushRequest_def SendPipelineSync_def send_defs Let_def)

lemma Pipeline_Flush_session:
  assumes "pl_session pc" and "Pipeline_Flush pc = (e, pc')"
  shows "pl_session pc'"
proof (cases "pl_closed (pc_pipeline pc)")
  case True
  with assms show ?thesis by (simp add: Pipeline_Flush_def)
next
  case False
  obtain e1 pc1 where f: "conn_flush pc = (e1, pc1)" by fastforce
  have pk: "pc_peekedMsg pc1 = pc_peekedMsg pc" by (subst conn_flush_ok(2) [OF f]) simp
  have s: "pl_session pc1"
    using assms(1) False conn_flush_keeps [OF f] pk by (simp add: pl_session_def pl_reading_def)
  show ?thesis
  proof (cases e1)
    case None
    with False f assms(2) s show ?thesis by (auto simp: Pipeline_Flush_def)
  next
    case (Some err)
    define pc2 where "pc2 = ctx_Unwatch (asyncClose pc1)"
    have "pl_reading connStatusBusy False pc2"
      using s conn_flush_keeps(6) [OF f] False
      by (simp add: pc2_def pl_session_def pl_reading_def asyncClose_ok ctx_Unwatch_ok)
    moreover have "pc_status pc2 = connStatusClosed" by (simp add: pc2_def)
    ultimately have "pl_session (upd_pl (\<lambda>p. p\<lparr>pl_closed := True, pl_err := x\<rparr>) pc2)" for x
      by (simp add: pl_session_def pl_reading_def)
    with Some False f assms(2) \<open>pc_status pc2 = connStatusClosed\<close> show ?thesis
      by (auto simp: Pipeline_Flush_def Let_def pc2_def)
  qed
qed

lemma pl_session_closing:
  assumes "pl_reading connStatusBusy True pc"
  shows "pl_session (conn_unlock (ctx_Unwatch pc))"
  using assms conn_unlock_closing [of pc] by (simp add: pl_session_def pl_reading_def)

lemma Pipeline_Close_session:
  assumes "pl_session pc" and "Pipeline_Close pc = (e, pc')"
  shows "pl_session pc' \<and> pl_closed (pc_pipeline pc')"
proof (cases "pl_closed (pc_pipeline pc)")
  case True
  with assms show ?thesis by (simp add: Pipeline_Close_def)
next
  case False
  let ?pc = "upd_pl (\<lambda>p. p\<lparr>pl_closed := True\<rparr>) pc"
  have r: "pl_reading connStatusBusy True ?pc" using assms(1) False by (simp add: pl_session_def pl_reading_def)
  have c: "pl_closed (pc_pipeline x)" if "pl_reading s True x" for s x using that by (simp add: pl_reading_def)
  note loop = Close_results_loop_reading [OF r]
  show ?thesis
  proof (cases "PendingSync (pl_state (pc_pipeline ?pc))")
    case True
    let ?pc1 = "upd_pl (\<lambda>p. p\<lparr>pl_err := e\<rparr>) (asyncClose ?pc)"
    have r1: "pl_reading connStatusBusy True ?pc1"
      using pl_reading_asyncClose [OF r] by (simp only: pl_reading_simps)
    have "pc' = conn_unlock (ctx_Unwatch ?pc1)"
      using assms(2) False True by (auto simp: Pipeline_Close_def Let_def)
    with pl_session_closing [OF r1] c [OF r1] show ?thesis by simp
  next
    case no_sync: False
    with assms(2) False have "pc' = conn_unlock (ctx_Unwatch (Close_results_loop ?pc))"
      by (simp add: Pipeline_Close_def Let_def)
    with pl_session_closing [OF loop] c [OF loop] show ?thesis by simp
  qed
qed

lemma GetResults_session: "pl_session pc \<Longrightarrow> GetResults pc = (r, pc') \<Longrightarrow> pl_session pc'"
  using pl_keepsD [OF pl_getResults_keeps, of connStatusBusy False pc r pc']
  by (auto simp: GetResults_def pl_session_def pl_reading_def split: if_splits)

lemma pl_session_readers:
  "pl_session pc \<Longrightarrow> rr_returned (pc_resultReader pc) \<Longrightarrow> NextRow pc = (b, pc') \<Longrightarrow> pl_session pc'"
  "pl_session pc \<Longrightarrow> rr_returned (pc_resultReader pc) \<Longrightarrow> ResultReader_Read pc = (res, pc') \<Longrightarrow> pl_session pc'"
  "pl_session pc \<Longrightarrow> ResultReader_Close pc = (x, pc') \<Longrightarrow> pl_session pc'"
proof -
  have closed: "pl_reading st b x \<Longrightarrow> pl_closed (pc_pipeline x) = b" for st b x by (simp add: pl_reading_def)
  assume s: "pl_session pc"
  then obtain st cl where p: "pl_reading st cl pc" "cl \<longrightarrow> st = connStatusIdle" "\<not> cl \<longrightarrow> st = connStatusBusy"
    by (auto simp: pl_session_def split: if_splits)
  have session: "pl_session x" if "pl_reading st cl x" for x
    using that p(2,3) closed [OF that] by (cases cl) (simp_all add: pl_session_def)
  show "pl_session pc'" if "rr_returned (pc_resultReader pc)" "NextRow pc = (b, pc')"
    using pl_rows_NextRow [of st cl pc b pc'] p(1) that by (intro session) (simp add: pl_rows_def)
  show "pl_session pc'" if "rr_returned (pc_resultReader pc)" "ResultReader_Read pc = (res, pc')"
    using pl_reading_Read [of st cl pc res pc'] p(1) that by (intro session) (simp add: pl_rows_def)
  show "pl_session pc'" if "ResultReader_Close pc = (x, pc')" by (rule session [OF pl_reading_Close [OF p(1) that]])
qed


section \<open>The life of a connection\<close>

text \<open>
  Who has the connection: nobody, one reader of results, a reader of several results, or a pipeline; or a
  reader of results that was lost, since an extended query on the busy connection was refused and left its own,
  closed reader in the place of the one that had the connection.
\<close>

datatype activity = Free | Single | Multi | Piped | Orphaned

definition after_extended :: "activity \<Rightarrow> PgConn \<Rightarrow> activity" where
  "after_extended a pc =
     (if pc_status pc \<noteq> connStatusBusy then Single else if a = Single then Orphaned else a)"

text \<open>
  The calls. Any of them may come at any time, on whatever readers the client has kept, with two exceptions.
  The methods of a reader of several results and of a pipeline are those of the one obtained last; an earlier one
  is closed, and its methods do nothing. And the reader of one result must not be one from before the last
  \<open>StartPipeline\<close>, which has put another one in its place (see \<open>stale_reader_panics\<close>). A call that panics ends
  the run.
\<close>

inductive conn_step :: "activity \<Rightarrow> PgConn \<Rightarrow> activity \<Rightarrow> PgConn \<Rightarrow> bool" where
  exec: "PgConn_Exec c sql pc = (ref, pc') \<Longrightarrow> conn_step a pc (if ref = Attached then Multi else a) pc'"
| exec_batch: "batch_ok b \<Longrightarrow> PgConn_ExecBatch c b pc = (ref, pc') \<Longrightarrow>
     conn_step a pc (if ref = Attached then Multi else a) pc'"
| exec_params: "conn_step a pc (after_extended a pc) (PgConn_ExecParams c sql pv oids pf rf pc)"
| exec_prepared: "conn_step a pc (after_extended a pc) (PgConn_ExecPrepared c name pv pf rf pc)"
| exec_statement: "conn_step a pc (after_extended a pc) (PgConn_ExecStatement c sd pv pf rf pc)"
| prepare: "PgConn_Prepare c name sql oids pc = (rp, pc') \<Longrightarrow> conn_step a pc a pc'"
| deallocate: "PgConn_Deallocate c name pc = (rd, pc') \<Longrightarrow> conn_step a pc a pc'"
| receive_message: "PgConn_ReceiveMessage c pc = (rm, pc') \<Longrightarrow> conn_step a pc a pc'"
| check_conn: "PgConn_CheckConn c pc = (e, pc') \<Longrightarrow> conn_step a pc a pc'"
| wait_for_notification: "PgConn_WaitForNotification c pc = (rn, pc') \<Longrightarrow> conn_step a pc a pc'"
| copy_to: "PgConn_CopyTo c w sql pc = (rt, pc') \<Longrightarrow> conn_step a pc a pc'"
| copy_from: "PgConn_CopyFrom et c rdr sql sched pc = (rf', pc') \<Longrightarrow> conn_step a pc a pc'"
| start_pipeline: "StartPipeline c pc = (pref, pc') \<Longrightarrow> conn_step a pc (if pref = PipelineAttached then Piped else a) pc'"
| next_row: "rr_returned (pc_resultReader pc) \<Longrightarrow> NextRow pc = (found, pc') \<Longrightarrow> conn_step a pc a pc'"
| read_result: "rr_returned (pc_resultReader pc) \<Longrightarrow> ResultReader_Read pc = (res, pc') \<Longrightarrow> conn_step a pc a pc'"
| close_result: "rr_returned (pc_resultReader pc) \<Longrightarrow> ResultReader_Close pc = (tag, pc') \<Longrightarrow> conn_step a pc a pc'"
| next_result: "NextResult pc = (found, pc') \<Longrightarrow> conn_step Multi pc Multi pc'"
| close_results: "MultiResultReader_Close pc = (e, pc') \<Longrightarrow> conn_step Multi pc Multi pc'"
| send_prepare: "conn_step Piped pc Piped (SendPrepare name sql oids pc)"
| send_deallocate: "conn_step Piped pc Piped (SendDeallocate name pc)"
| send_query_params: "conn_step Piped pc Piped (SendQueryParams sql pv oids pf rf pc)"
| send_query_prepared: "conn_step Piped pc Piped (SendQueryPrepared name pv pf rf pc)"
| send_query_statement: "conn_step Piped pc Piped (SendQueryStatement sd pv pf rf pc)"
| send_flush_request: "conn_step Piped pc Piped (SendFlushRequest pc)"
| send_sync: "conn_step Piped pc Piped (SendPipelineSync pc)"
| flush: "Pipeline_Flush pc = (e, pc') \<Longrightarrow> conn_step Piped pc Piped pc'"
| sync: "Pipeline_Sync pc = (e, pc') \<Longrightarrow> conn_step Piped pc Piped pc'"
| get_results: "GetResults pc = (rg, pc') \<Longrightarrow> conn_step Piped pc Piped pc'"
| close_pipeline: "Pipeline_Close pc = (e, pc') \<Longrightarrow> conn_step Piped pc Piped pc'"
| close_conn: "conn_step a pc a (PgConn_Close c pc)"

inductive conn_reach :: "activity \<Rightarrow> PgConn \<Rightarrow> bool" where
  construct: "wf_pools ps \<Longrightarrow> proper_reader (hc_r hc) \<Longrightarrow> Construct hc ps = Inr pc \<Longrightarrow> conn_reach Free pc"
| step: "conn_reach a pc \<Longrightarrow> pc_panics pc = [] \<Longrightarrow> conn_step a pc a' pc' \<Longrightarrow> conn_reach a' pc'"

definition conn_session :: "activity \<Rightarrow> PgConn \<Rightarrow> bool" where
  "conn_session a pc \<longleftrightarrow> conn_ok pc \<and> pc_status pc \<in> {connStatusIdle, connStatusBusy, connStatusClosed} \<and>
     (case a of
        Free \<Rightarrow> pc_status pc \<noteq> connStatusBusy \<and> \<not> rr_returned (pc_resultReader pc)
      | Single \<Rightarrow> rr_session pc
      | Multi \<Rightarrow> mrr_session pc
      | Piped \<Rightarrow> pl_session pc
      | Orphaned \<Rightarrow> pc_status pc \<noteq> connStatusIdle
          \<and> rr_commandConcluded (pc_resultReader pc) \<and> rr_closed (pc_resultReader pc))"

lemma conn_session_simps [simp]:
  "conn_session Single pc = rr_session pc"
  "conn_session Multi pc = mrr_session pc"
  "conn_session Piped pc = pl_session pc"
  by (auto simp: conn_session_def rr_session_def mrr_session_def pl_session_def pl_reading_def split: if_splits)

lemma conn_session_ok: "conn_session a pc \<Longrightarrow> conn_ok pc"
  by (simp add: conn_session_def)

lemma conn_session_settled:
  assumes "conn_session a pc"
  shows "pc_status pc = connStatusIdle \<longrightarrow> rr_settled (pc_resultReader pc)"
    and "pc_status pc \<in> {connStatusIdle, connStatusBusy, connStatusClosed}"
  using assms by (cases a; auto simp: conn_session_def rr_session_def mrr_session_def pl_session_def pl_reading_def
      rr_settled_def split: if_splits)+

text \<open>A command that reads its own answer leaves the activity as it is: it found the connection idle or did nothing.\<close>

lemma cmd_result_session:
  assumes "conn_session a pc" and "cmd_result pc pc'"
  shows "conn_session a pc'"
proof (cases "pc' = pc")
  case True
  with assms(1) show ?thesis by simp
next
  case False
  with assms have r: "conn_ok pc'" "pc_status pc' \<in> {connStatusIdle, connStatusClosed}" "same_readers pc pc'"
    "pc_status pc = connStatusIdle" "pc_peekedMsg pc' = None"
    by (auto simp: cmd_result_def conn_session_def)
  have "conn_session a pc = conn_session a pc'" if "a \<in> {Free, Orphaned}"
    using that assms(1) r by (auto simp: conn_session_def same_readers_def)
  moreover have "rr_session pc'" if "a = Single"
    using that assms(1) r by (auto simp: same_readers_def rr_session_def split: if_splits)
  moreover have "mrr_session pc'" if "a = Multi"
    using that assms(1) r by (auto simp: same_readers_def mrr_session_def split: if_splits)
  moreover have "pl_session pc'" if "a = Piped"
    using that assms(1) r by (auto simp: same_readers_def pl_session_def pl_reading_def split: if_splits)
  ultimately show ?thesis using assms(1) by (cases a) simp_all
qed

lemma PgConn_Close_ok:
  assumes "conn_ok pc"
  shows "conn_ok (PgConn_Close c pc)" and "pc_status (PgConn_Close c pc) = connStatusClosed"
    and "same_readers pc (PgConn_Close c pc)" and "pc_peekedMsg (PgConn_Close c pc) = pc_peekedMsg pc"
proof -
  have "conn_ok (PgConn_Close c pc) \<and> pc_status (PgConn_Close c pc) = connStatusClosed
    \<and> same_readers pc (PgConn_Close c pc) \<and> pc_peekedMsg (PgConn_Close c pc) = pc_peekedMsg pc"
  proof (cases "pc_status pc = connStatusClosed")
    case True
    with assms show ?thesis by (simp add: PgConn_Close_def same_readers_def)
  next
    case False
    define pc1 where "pc1 = (if ctx_Background c then pc\<lparr>pc_status := connStatusClosed\<rparr>
      else ctx_Watch c (ctx_Unwatch (pc\<lparr>pc_status := connStatusClosed\<rparr>)))"
    obtain wt where pc1: "pc1 = pc\<lparr>pc_status := connStatusClosed, pc_watching := wt\<rparr>"
    proof
      show "pc1 = pc\<lparr>pc_status := connStatusClosed, pc_watching := pc_watching pc1\<rparr>"
        by (simp add: pc1_def ctx_Watch_def ctx_Unwatch_def)
    qed
    obtain e pc2 where f: "conn_flush (fe_send (Frontend_Send FM_Terminate) pc1) = (e, pc2)" by fastforce
    note k = conn_flush_ok [OF f]
    obtain fr where fr: "pc2 = pc1\<lparr>pc_frontend := fr\<rparr>" "ep_cr fr = ep_cr (pc_frontend pc)"
    proof
      show "pc2 = pc1\<lparr>pc_frontend := pc_frontend pc2\<rparr>" by (subst k(2)) (simp add: fe_send_def)
      show "ep_cr (pc_frontend pc2) = ep_cr (pc_frontend pc)" using k(3) by (simp add: fe_send_def Frontend_Send_def pc1)
    qed
    have nd: "\<not> pc_cleanupDone pc" using assms False by (simp add: conn_ok_def conn_sound_def)
    obtain wt2 where c2: "ctx_end c pc2 = pc2\<lparr>pc_watching := wt2\<rparr>"
    proof (cases "ctx_Background c")
      case True
      then have "ctx_end c pc2 = pc2\<lparr>pc_watching := pc_watching pc2\<rparr>" by (simp add: ctx_end_def)
      then show ?thesis by (rule that)
    next
      case False
      then have "ctx_end c pc2 = pc2\<lparr>pc_watching := False\<rparr>" by (simp add: ctx_end_def ctx_Unwatch_def)
      then show ?thesis by (rule that)
    qed
    have "PgConn_Close c pc = close_cleanupDone (ctx_end c pc2)"
      using False unfolding PgConn_Close_def Let_def f [unfolded pc1_def] by simp
    also have "\<dots> = pc\<lparr>pc_status := connStatusClosed, pc_watching := wt2, pc_frontend := fr, pc_cleanupDone := True\<rparr>"
      unfolding c2 by (simp add: fr(1) pc1 close_cleanupDone_def nd)
    finally show ?thesis using assms fr(2) by (simp add: same_readers_def conn_ok_def conn_sound_def)
  qed
  then show "conn_ok (PgConn_Close c pc)" "pc_status (PgConn_Close c pc) = connStatusClosed"
    "same_readers pc (PgConn_Close c pc)" "pc_peekedMsg (PgConn_Close c pc) = pc_peekedMsg pc" by simp_all
qed

lemma PgConn_Close_session:
  assumes "conn_session a pc"
  shows "conn_session a (PgConn_Close c pc)"
proof (cases "pc_status pc = connStatusClosed")
  case True
  with assms show ?thesis by (simp add: PgConn_Close_def)
next
  case False
  note k = PgConn_Close_ok [OF conn_session_ok [OF assms]]
  have "conn_session a (PgConn_Close c pc)" if "a \<in> {Free, Orphaned}"
    using that assms k by (auto simp: conn_session_def same_readers_def)
  moreover have "rr_session (PgConn_Close c pc)" if "a = Single"
    using that assms k by (auto simp: same_readers_def rr_session_def split: if_splits)
  moreover have "mrr_session (PgConn_Close c pc)" if "a = Multi"
    using that assms k by (auto simp: same_readers_def mrr_session_def split: if_splits)
  moreover have "pl_session (PgConn_Close c pc)" if "a = Piped"
    using that assms k by (auto simp: same_readers_def pl_session_def pl_reading_def split: if_splits)
  ultimately show ?thesis by (cases a) simp_all
qed

text \<open>An extended query on a busy connection is refused, but its reader replaces the one there was.\<close>

definition refused_reader :: "ctx \<Rightarrow> ResultReader" where
  "refused_reader c = (concludeCommand no_tag (Some (ConnLockErr ''conn busy'')) (new_ResultReader c))\<lparr>rr_closed := True\<rparr>"

lemma exec_extended_busy:
  assumes "pc_status pc = connStatusBusy"
  shows "PgConn_ExecParams c sql pv oids pf rf pc = pc\<lparr>pc_resultReader := refused_reader c\<rparr>"
    and "PgConn_ExecPrepared c name pv pf rf pc = pc\<lparr>pc_resultReader := refused_reader c\<rparr>"
    and "PgConn_ExecStatement c sd pv pf rf pc = pc\<lparr>pc_resultReader := refused_reader c\<rparr>"
  using assms by (simp_all add: PgConn_ExecParams_def PgConn_ExecPrepared_def PgConn_ExecStatement_def
      execExtendedPrefix_def conn_lock_def refused_reader_def Let_def)

lemma refused_reader_simps [simp]:
  "rr_commandConcluded (refused_reader c)" "rr_closed (refused_reader c)" "rr_pgConn (refused_reader c)"
  "\<not> rr_multiResultReader (refused_reader c)" "rr_settled (refused_reader c)"
  by (simp_all add: refused_reader_def new_ResultReader_def rr_settled_def)

lemma refused_session:
  assumes "conn_session a pc" and "pc_status pc = connStatusBusy"
  shows "conn_session (after_extended a pc) (pc\<lparr>pc_resultReader := refused_reader c\<rparr>)"
  using assms by (cases a) (auto simp: after_extended_def conn_session_def rr_session_def mrr_session_def pl_session_def
      pl_reading_def split: if_splits)

lemma extended_session:
  assumes "conn_session a pc"
  shows "conn_session (after_extended a pc) (PgConn_ExecParams c sql pv oids pf rf pc)"
    and "conn_session (after_extended a pc) (PgConn_ExecPrepared c name pv pf rf pc)"
    and "conn_session (after_extended a pc) (PgConn_ExecStatement c sd pv pf rf pc)"
proof -
  have idle: "pc_status pc \<in> {connStatusIdle, connStatusClosed}" if "pc_status pc \<noteq> connStatusBusy"
    using conn_session_settled(2) [OF assms] that by simp
  note free = exec_extended_session [OF conn_session_ok [OF assms] idle]
  show "conn_session (after_extended a pc) (PgConn_ExecParams c sql pv oids pf rf pc)"
    "conn_session (after_extended a pc) (PgConn_ExecPrepared c name pv pf rf pc)"
    "conn_session (after_extended a pc) (PgConn_ExecStatement c sd pv pf rf pc)"
    using free refused_session [OF assms]
    by (cases "pc_status pc = connStatusBusy"; simp add: after_extended_def exec_extended_busy)+
qed

text \<open>The rows of whatever reader there is.\<close>

lemma conn_session_Orphaned:
  "conn_session Orphaned pc \<Longrightarrow> rr_commandConcluded (pc_resultReader pc) \<and> rr_closed (pc_resultReader pc)"
  "conn_session Orphaned pc \<Longrightarrow> conn_session Orphaned (upd_rr (\<lambda>rr. rr\<lparr>rr_rowValues := v\<rparr>) pc)"
  "conn_session Orphaned pc \<Longrightarrow> conn_session Orphaned (upd_rr (\<lambda>rr. rr\<lparr>rr_preloaded := b\<rparr>) pc)"
  by (auto simp: conn_session_def)

lemma Orphaned_rows:
  "conn_session Orphaned pc \<Longrightarrow> NextRow pc = (b, pc') \<Longrightarrow> conn_session Orphaned pc'"
  "conn_session Orphaned pc \<Longrightarrow> ResultReader_Close pc = (t, pc') \<Longrightarrow> conn_session Orphaned pc'"
  "conn_session Orphaned pc \<Longrightarrow> ResultReader_Read pc = (x, pc') \<Longrightarrow> conn_session Orphaned pc'"
proof -
  have row: "conn_session Orphaned pc'" if "conn_session Orphaned pc" "NextRow pc = (b, pc')" for pc b pc'
    by (rule NextRow_reads [where P = "conn_session Orphaned", OF _ _ _ that])
      (use conn_session_Orphaned in auto)
  then show "conn_session Orphaned pc \<Longrightarrow> NextRow pc = (b, pc') \<Longrightarrow> conn_session Orphaned pc'" .
  have cl: "conn_session Orphaned pc'" if "conn_session Orphaned pc" "ResultReader_Close pc = (t, pc')" for pc t pc'
    using that conn_session_Orphaned(1) [OF that(1)] by (simp add: ResultReader_Close_def)
  then show "conn_session Orphaned pc \<Longrightarrow> ResultReader_Close pc = (t, pc') \<Longrightarrow> conn_session Orphaned pc'" .
  assume o: "conn_session Orphaned pc" and rd: "ResultReader_Read pc = (x, pc')"
  obtain br pc1 where r: "Read_loop \<lparr>res_FieldDescriptions = None, res_Rows = [], res_CommandTag = no_tag, res_Err = None\<rparr> pc = (br, pc1)"
    by fastforce
  have "conn_session Orphaned pc1" by (rule Read_loop_keeps [where P = "conn_session Orphaned", OF row o r])
  moreover obtain t pc2 where c: "ResultReader_Close pc1 = (t, pc2)" by fastforce
  ultimately have "conn_session Orphaned pc2" by (rule cl)
  with rd r c show "conn_session Orphaned pc'" by (auto simp: ResultReader_Read_def Let_def split: prod.splits)
qed

lemma row_session:
  assumes "conn_session a pc" and "rr_returned (pc_resultReader pc)"
  shows "NextRow pc = (b, pc') \<Longrightarrow> conn_session a pc' \<or> a = Multi \<and> unlock_panic pc'"
    and "ResultReader_Read pc = (res, pc') \<Longrightarrow> conn_session a pc' \<or> a = Multi \<and> unlock_panic pc'"
    and "ResultReader_Close pc = (t, pc') \<Longrightarrow> conn_session a pc' \<or> a = Multi \<and> unlock_panic pc'"
proof -
  have free: "a \<noteq> Free" using assms by (auto simp: conn_session_def)
  have multi: "rows_read pc" if "a = Multi" using that assms by (simp add: rows_read_def)
  show "conn_session a pc' \<or> a = Multi \<and> unlock_panic pc'" if "NextRow pc = (b, pc')"
    using assms free that multi NextRow_session [of pc b pc'] NextRow_rows [of pc b pc'] pl_session_readers(1) [of pc b pc']
      Orphaned_rows(1) [of pc b pc']
    by (cases a) (auto simp: rows_read_def)
  show "conn_session a pc' \<or> a = Multi \<and> unlock_panic pc'" if "ResultReader_Read pc = (res, pc')"
    using assms free that multi ResultReader_Read_session [of pc res pc'] ResultReader_Read_rows [of pc res pc']
      pl_session_readers(2) [of pc res pc'] Orphaned_rows(3) [of pc res pc']
    by (cases a) (auto simp: rows_read_def)
  show "conn_session a pc' \<or> a = Multi \<and> unlock_panic pc'" if "ResultReader_Close pc = (t, pc')"
    using assms free that multi ResultReader_Close_session [of pc t pc'] ResultReader_Close_rows [of pc t pc']
      pl_session_readers(3) [of pc t pc'] Orphaned_rows(2) [of pc t pc']
    by (cases a) (auto simp: rows_read_def)
qed

lemma conn_step_session:
  assumes "conn_step a pc a' pc'" and "conn_session a pc"
  shows "conn_session a' pc' \<or> a' = Multi \<and> unlock_panic pc'"
  using assms
proof (induction rule: conn_step.induct)
  case (exec c sql pc ref pc' a)
  with PgConn_Exec_session [OF conn_session_ok [OF exec(2)] exec(1) conn_session_settled [OF exec(2)]] show ?case by auto
next
  case (exec_batch b c pc ref pc' a)
  with PgConn_ExecBatch_session [OF conn_session_ok [OF exec_batch(3)] exec_batch(1,2) conn_session_settled [OF exec_batch(3)]]
  show ?case by auto
next
  case (start_pipeline c pc pref pc' a)
  with StartPipeline_session [OF conn_session_ok [OF start_pipeline(2)] start_pipeline(1)] show ?case by auto
next
  case (exec_params a pc c sql pv oids pf rf)
  then show ?case using extended_session [of a pc] by simp
next
  case (exec_prepared a pc c name pv pf rf)
  then show ?case using extended_session [of a pc] by simp
next
  case (exec_statement a pc c sd pv pf rf)
  then show ?case using extended_session [of a pc] by simp
next
  case (sync pc e pc')
  then show ?case using Pipeline_Flush_session [of "SendPipelineSync pc" e pc'] by (simp add: Pipeline_Sync_def)
next
  case (prepare c name sql oids pc rp pc' a)
  show ?case by (rule disjI1, rule cmd_result_session [OF prepare(2) PgConn_Prepare_ok [OF conn_session_ok [OF prepare(2)] prepare(1)]])
next
  case (deallocate c name pc rd pc' a)
  show ?case by (rule disjI1, rule cmd_result_session [OF deallocate(2) PgConn_Deallocate_ok [OF conn_session_ok [OF deallocate(2)] deallocate(1)]])
next
  case (receive_message c pc rm pc' a)
  show ?case by (rule disjI1, rule cmd_result_session [OF receive_message(2) PgConn_ReceiveMessage_ok [OF conn_session_ok [OF receive_message(2)] receive_message(1)]])
next
  case (check_conn c pc e pc' a)
  show ?case by (rule disjI1, rule cmd_result_session [OF check_conn(2) PgConn_CheckConn_ok [OF conn_session_ok [OF check_conn(2)] check_conn(1)]])
next
  case (wait_for_notification c pc rn pc' a)
  show ?case by (rule disjI1, rule cmd_result_session [OF wait_for_notification(2) PgConn_WaitForNotification_ok [OF conn_session_ok [OF wait_for_notification(2)] wait_for_notification(1)]])
next
  case (copy_to c w sql pc rt pc' a)
  show ?case by (rule disjI1, rule cmd_result_session [OF copy_to(2) PgConn_CopyTo_ok [OF conn_session_ok [OF copy_to(2)] copy_to(1)]])
next
  case (copy_from et c rdr sql sched pc rf' pc' a)
  show ?case by (rule disjI1, rule cmd_result_session [OF copy_from(2) PgConn_CopyFrom_ok [OF conn_session_ok [OF copy_from(2)] copy_from(1)]])
next
  case (next_row pc found pc' a)
  show ?case by (rule row_session(1) [OF next_row(3,1,2)])
next
  case (read_result pc res pc' a)
  show ?case by (rule row_session(2) [OF read_result(3,1,2)])
next
  case (close_result pc tag pc' a)
  show ?case by (rule row_session(3) [OF close_result(3,1,2)])
next
  case (next_result pc found pc')
  then show ?case using NextResult_session [of pc found pc'] by simp
next
  case (close_results pc e pc')
  then show ?case using MultiResultReader_Close_session [of pc e pc'] by simp
next
  case (flush pc e pc')
  then show ?case using Pipeline_Flush_session [of pc e pc'] by simp
next
  case (get_results pc rg pc')
  then show ?case using GetResults_session [of pc rg pc'] by simp
next
  case (close_pipeline pc e pc')
  then show ?case using Pipeline_Close_session [of pc e pc'] by simp
next
  case (close_conn a pc c)
  then show ?case using PgConn_Close_session [of a pc c] by simp
qed simp_all

lemma conn_reach_session: "conn_reach a pc \<Longrightarrow> conn_session a pc \<or> a = Multi \<and> unlock_panic pc"
proof (induction rule: conn_reach.induct)
  case (construct ps hc pc)
  obtain pc1 where "Construct hc ps = Inr pc1" "conn_ok pc1" "pc_status pc1 = connStatusIdle"
    "\<not> rr_returned (pc_resultReader pc1)"
    by (rule Construct_ok [OF construct(1,2)])
  with construct(3) show ?case by (simp add: conn_session_def)
next
  case (step a pc a' pc')
  then have "conn_session a pc" by (auto simp: unlock_panic_def)
  with step(3) show ?case by (rule conn_step_session)
qed

end
