(* ===== verification/Pgconn_Flow.thy ===== *)
theory Pgconn_Flow
  imports Pgconn_Steps
begin

text \<open>
  What the commands return when the server answers as the protocol says: notices, notifications and changes
  of parameters may come between any two messages of an answer.
\<close>

section \<open>Receiving from a server that answers\<close>

text \<open>A busy connection that will deliver \<open>ms\<close>, whose handler of errors lets it go on after those in \<open>ms\<close>.\<close>

definition conn_live :: "PgConn \<Rightarrow> BackendMessage list \<Rightarrow> bool" where
  "conn_live pc ms \<longleftrightarrow> conn_delivers pc ms \<and> pc_status pc = connStatusBusy
     \<and> (\<forall>e h. BM_ErrorResponse e \<in> set ms \<longrightarrow> pc_OnPgError pc = Some h \<longrightarrow> h (ErrorResponseToPgError e))"

lemma conn_live_cong:
  assumes "pc_frontend pc' = pc_frontend pc" and "pc_peekedMsg pc' = pc_peekedMsg pc"
    and "pc_bufferingReceive pc' = pc_bufferingReceive pc" and "pc_status pc' = pc_status pc"
    and "pc_OnPgError pc' = pc_OnPgError pc"
  shows "conn_live pc' ms = conn_live pc ms"
  using assms conn_delivers_cong [OF assms(1-3), of ms] by (simp add: conn_live_def)

lemma conn_live_simps [simp]:
  "conn_live (pc\<lparr>pc_resultReader := rr\<rparr>) ms = conn_live pc ms"
  "conn_live (pc\<lparr>pc_multiResultReader := mrr\<rparr>) ms = conn_live pc ms"
  "conn_live (pc\<lparr>pc_pipeline := pl\<rparr>) ms = conn_live pc ms"
  "conn_live (store_fields fds pc) ms = conn_live pc ms"
  by (rule conn_live_cong; simp)+

text \<open>What receiving leaves alone, the readers included.\<close>

definition still :: "PgConn \<Rightarrow> PgConn \<Rightarrow> bool" where
  "still pc pc' \<longleftrightarrow> pc_resultReader pc' = pc_resultReader pc \<and> pc_multiResultReader pc' = pc_multiResultReader pc
     \<and> pc_pipeline pc' = pc_pipeline pc \<and> pc_watching pc' = pc_watching pc \<and> ep_w (pc_frontend pc') = ep_w (pc_frontend pc)"

lemma still_refl [simp]: "still pc pc"
  by (simp add: still_def)

lemma still_trans: "still a b \<Longrightarrow> still b c \<Longrightarrow> still a c"
  by (simp add: still_def)

definition tx_after :: "BackendMessage \<Rightarrow> byte \<Rightarrow> byte" where
  "tx_after m tx = (case m of BM_ReadyForQuery x \<Rightarrow> rfq_TxStatus x | _ \<Rightarrow> tx)"

lemma receive_live:
  assumes "conn_live pc (m # ms)"
  obtains pc1 where "receiveMessage pc = (Inr m, pc1)" and "conn_live pc1 ms" and "still pc pc1"
    and "pc_peekedMsg pc1 = None" and "pc_txStatus pc1 = tx_after m (pc_txStatus pc)"
proof -
  have d: "conn_delivers pc (m # ms)" "pc_status pc \<noteq> connStatusClosed" using assms by (simp_all add: conn_live_def)
  obtain f where f: "receiveMessage pc = handle_message m (pc\<lparr>pc_frontend := f, pc_peekedMsg := None\<rparr>)"
    "conn_delivers (pc\<lparr>pc_frontend := f, pc_peekedMsg := None\<rparr>) ms"
    using receiveMessage_delivers [OF d] by blast
  let ?pc = "pc\<lparr>pc_frontend := f, pc_peekedMsg := None\<rparr>"
  have live: "conn_live ?pc ms" using f(2) assms by (auto simp: conn_live_def)
  obtain r pc1 where h: "handle_message m ?pc = (r, pc1)" by fastforce
  have ok: "\<not> (\<exists>h e. m = BM_ErrorResponse e \<and> pc_OnPgError pc = Some h \<and> \<not> h (ErrorResponseToPgError e))"
    using assms by (auto simp: conn_live_def)
  have r: "r = Inr m"
    using h ok by (cases m) (auto simp: handle_message_def Let_def split: option.splits if_splits)
  have same: "pc_frontend pc1 = f" "pc_peekedMsg pc1 = None" "pc_bufferingReceive pc1 = pc_bufferingReceive pc"
    "pc_status pc1 = pc_status pc" "pc_OnPgError pc1 = pc_OnPgError pc" "pc_txStatus pc1 = tx_after m (pc_txStatus pc)"
    using h ok by (cases m; auto simp: handle_message_def tx_after_def Let_def split: option.splits if_splits)+
  have live1: "conn_live pc1 ms" using conn_live_cong [of pc1 ?pc ms] same live by simp
  have rm: "receiveMessage pc = (Inr m, pc1)" using f(1) h r by simp
  have "still pc pc1" using receiveMessage_frame [OF rm] by (simp add: receive_frame_def still_def)
  with rm live1 same show ?thesis by (intro that)
qed

text \<open>The messages that matter to a reader of results; it passes over the others.\<close>

fun significant :: "BackendMessage \<Rightarrow> bool" where
  "significant (BM_RowDescription _) \<longleftrightarrow> True"
| "significant (BM_DataRow _) \<longleftrightarrow> True"
| "significant (BM_CommandComplete _) \<longleftrightarrow> True"
| "significant BM_EmptyQueryResponse \<longleftrightarrow> True"
| "significant (BM_ErrorResponse _) \<longleftrightarrow> True"
| "significant (BM_ReadyForQuery _) \<longleftrightarrow> True"
| "significant _ \<longleftrightarrow> False"

text \<open>The effect of a message on the reader.\<close>

definition rr_step :: "BackendMessage \<Rightarrow> ResultReader \<Rightarrow> ResultReader" where
  "rr_step m rr =
     (case m of
        BM_RowDescription d \<Rightarrow> rr\<lparr>rr_fieldDescriptions := convertRowDescription d\<rparr>
      | BM_CommandComplete t \<Rightarrow> concludeCommand (makeCommandTag (cc_CommandTag t)) None rr
      | BM_EmptyQueryResponse \<Rightarrow> concludeCommand no_tag None rr
      | BM_ErrorResponse e \<Rightarrow> concludeCommand no_tag (Some (PgErr (ErrorResponseToPgError e))) rr
      | _ \<Rightarrow> rr)"

lemma rr_handle_step: "pc_resultReader (rr_handle m pc) = rr_step m (pc_resultReader pc)"
  by (cases m) (simp_all add: rr_handle_def rr_step_def Let_def)

lemma rr_handle_live [simp]: "conn_live (rr_handle m pc) ms = conn_live pc ms"
  by (rule conn_live_cong; cases m; simp add: rr_handle_def Let_def)

lemma rr_step_quiet: "\<not> significant m \<Longrightarrow> rr_step m rr = rr"
  by (cases m) (simp_all add: rr_step_def)

definition others :: "PgConn \<Rightarrow> PgConn \<Rightarrow> bool" where
  "others pc pc' \<longleftrightarrow> pc_multiResultReader pc' = pc_multiResultReader pc \<and> pc_watching pc' = pc_watching pc
     \<and> ep_w (pc_frontend pc') = ep_w (pc_frontend pc)"

lemma others_refl [simp]: "others pc pc"
  by (simp add: others_def)

lemma others_trans: "others a b \<Longrightarrow> others b c \<Longrightarrow> others a c"
  by (simp add: others_def)

lemma rr_handle_others: "others pc (rr_handle m pc)"
  by (cases m) (simp_all add: rr_handle_def others_def Let_def store_fields_def)

lemma rr_handle_tx [simp]: "pc_txStatus (rr_handle m pc) = pc_txStatus pc"
  by (cases m) (simp_all add: rr_handle_def Let_def)

lemma mrr_live:
  assumes "conn_live pc (m # ms)" and "\<not> (\<exists>x. m = BM_ReadyForQuery x)" and "\<not> (\<exists>e. m = BM_ErrorResponse e)"
  obtains pc1 where "mrr_receiveMessage pc = (Inr m, pc1)" and "conn_live pc1 ms" and "still pc pc1"
    and "pc_peekedMsg pc1 = None" and "pc_txStatus pc1 = pc_txStatus pc"
proof -
  obtain pc1 where r: "receiveMessage pc = (Inr m, pc1)" "conn_live pc1 ms" "still pc pc1" "pc_peekedMsg pc1 = None"
    "pc_txStatus pc1 = tx_after m (pc_txStatus pc)" by (rule receive_live [OF assms(1)])
  have "(case m of BM_ReadyForQuery _ \<Rightarrow> x | BM_ErrorResponse e \<Rightarrow> y e | _ \<Rightarrow> pc1) = pc1" for x y
    using assms(2,3) by (cases m) simp_all
  then have "mrr_receiveMessage pc = (Inr m, pc1)" by (simp add: mrr_receiveMessage_def r(1))
  moreover have "tx_after m (pc_txStatus pc) = pc_txStatus pc" using assms(2) by (cases m) (simp_all add: tx_after_def)
  ultimately show ?thesis using r(2-5) by (intro that [of pc1]) simp_all
qed

text \<open>Alone, or for one of several results as long as neither an error nor the end comes.\<close>

lemma rr_live:
  assumes "conn_live pc (m # ms)"
    and "rr_multiResultReader (pc_resultReader pc) \<Longrightarrow> \<not> (\<exists>x. m = BM_ReadyForQuery x) \<and> \<not> (\<exists>e. m = BM_ErrorResponse e)"
    and "rr_pgConn (pc_resultReader pc)"
  obtains pc1 where "rr_receiveMessage pc = (Inr m, pc1)" and "conn_live pc1 ms"
    and "pc_resultReader pc1 = rr_step m (pc_resultReader pc)" and "others pc pc1"
    and "pc_peekedMsg pc1 = None" and "pc_txStatus pc1 = tx_after m (pc_txStatus pc)"
proof -
  obtain pc1 where r: "(if rr_multiResultReader (pc_resultReader pc) then mrr_receiveMessage pc else receiveMessage pc) = (Inr m, pc1)"
    "conn_live pc1 ms" "still pc pc1" "pc_peekedMsg pc1 = None" "pc_txStatus pc1 = tx_after m (pc_txStatus pc)"
  proof (cases "rr_multiResultReader (pc_resultReader pc)")
    case True
    note no = assms(2) [OF True]
    have "tx_after m (pc_txStatus pc) = pc_txStatus pc" using no by (cases m) (simp_all add: tx_after_def)
    moreover obtain pc1 where "mrr_receiveMessage pc = (Inr m, pc1)" "conn_live pc1 ms" "still pc pc1"
      "pc_peekedMsg pc1 = None" "pc_txStatus pc1 = pc_txStatus pc"
      by (rule mrr_live [OF assms(1)]) (use no in simp_all)
    ultimately show ?thesis using True by (intro that [of pc1]) simp_all
  next
    case False
    moreover obtain pc1 where "receiveMessage pc = (Inr m, pc1)" "conn_live pc1 ms" "still pc pc1"
      "pc_peekedMsg pc1 = None" "pc_txStatus pc1 = tx_after m (pc_txStatus pc)"
      by (rule receive_live [OF assms(1)])
    ultimately show ?thesis by (intro that [of pc1]) simp_all
  qed
  have o: "others pc pc1" using r(3) by (simp add: still_def others_def)
  have rr: "rr_receiveMessage pc = (Inr m, rr_handle m pc1)" using r(1) assms(3) by (simp add: rr_receiveMessage_def)
  have st: "pc_resultReader (rr_handle m pc1) = rr_step m (pc_resultReader pc)"
    using r(3) by (simp add: rr_handle_step still_def)
  from rr r(2,4,5) st others_trans [OF o rr_handle_others] show ?thesis by (intro that [of "rr_handle m pc1"]) simp_all
qed

text \<open>A loop of the reader passes over what does not matter to it.\<close>

lemma rr_skip:
  assumes "conn_live pc (ms @ rest)" and "filter significant ms = m # sig"
    and "\<And>pc1 x pc2. pc_resultReader pc1 = pc_resultReader pc \<Longrightarrow> \<not> significant x \<Longrightarrow>
      rr_receiveMessage pc1 = (Inr x, pc2) \<Longrightarrow> f pc1 = f pc2"
    and "rr_pgConn (pc_resultReader pc)"
  obtains pc1 ms1 where "f pc = f pc1" and "conn_live pc1 (m # ms1 @ rest)" and "filter significant ms1 = sig"
    and "pc_resultReader pc1 = pc_resultReader pc" and "others pc pc1" and "pc_txStatus pc1 = pc_txStatus pc"
    and "last (m # ms1) = last ms"
proof -
  have "\<exists>pc1 ms1. f pc = f pc1 \<and> conn_live pc1 (m # ms1 @ rest) \<and> filter significant ms1 = sig
    \<and> pc_resultReader pc1 = pc_resultReader pc \<and> others pc pc1 \<and> pc_txStatus pc1 = pc_txStatus pc \<and> last (m # ms1) = last ms"
    using assms
  proof (induction ms arbitrary: pc)
    case (Cons x ms)
    show ?case
    proof (cases "significant x")
      case True
      with Cons.prems show ?thesis by (intro exI [of _ pc] exI [of _ ms]) simp
    next
      case False
      obtain pc1 where r: "rr_receiveMessage pc = (Inr x, pc1)" "conn_live pc1 (ms @ rest)"
        "pc_resultReader pc1 = rr_step x (pc_resultReader pc)" "others pc pc1" "pc_txStatus pc1 = tx_after x (pc_txStatus pc)"
        by (rule rr_live [of pc x "ms @ rest"]) (use Cons.prems(1,4) False in auto)
      have rr1: "pc_resultReader pc1 = pc_resultReader pc" using r(3) False by (simp add: rr_step_quiet)
      have tx1: "pc_txStatus pc1 = pc_txStatus pc" using r(5) False by (cases x) (simp_all add: tx_after_def)
      have fl: "filter significant ms = m # sig" using Cons.prems(2) False by simp
      obtain pc2 ms2 where p2: "f pc1 = f pc2" "conn_live pc2 (m # ms2 @ rest)" "filter significant ms2 = sig"
        "pc_resultReader pc2 = pc_resultReader pc1" "others pc1 pc2" "pc_txStatus pc2 = pc_txStatus pc1" "last (m # ms2) = last ms"
        using Cons.IH [OF r(2) fl] Cons.prems(3,4) rr1 by auto
      have "f pc = f pc1" by (rule Cons.prems(3) [OF refl False r(1)])
      moreover have "ms \<noteq> []" using fl by auto
      ultimately show ?thesis
        using p2 rr1 tx1 others_trans [OF r(4) p2(5)] by (intro exI [of _ pc2] exI [of _ ms2]) simp
    qed
  qed simp
  then show ?thesis using that by blast
qed

text \<open>The messages that end a command.\<close>

fun concluding :: "BackendMessage \<Rightarrow> bool" where
  "concluding (BM_CommandComplete _) \<longleftrightarrow> True"
| "concluding BM_EmptyQueryResponse \<longleftrightarrow> True"
| "concluding (BM_ErrorResponse _) \<longleftrightarrow> True"
| "concluding _ \<longleftrightarrow> False"

lemma concluding_step: "concluding m \<Longrightarrow> rr_commandConcluded (rr_step m rr)"
  by (cases m) (simp_all add: rr_step_def)

lemma NextRow_row:
  assumes "conn_live pc (ms @ rest)" and "filter significant ms = BM_DataRow v # sig"
    and "\<not> rr_commandConcluded (pc_resultReader pc)"
    and "rr_pgConn (pc_resultReader pc)"
  obtains pc1 ms1 where "NextRow_loop pc = (True, pc1)" and "conn_live pc1 (ms1 @ rest)" and "filter significant ms1 = sig"
    and "pc_resultReader pc1 = (pc_resultReader pc)\<lparr>rr_rowValues := v\<rparr>" and "others pc pc1"
    and "pc_txStatus pc1 = pc_txStatus pc" and "sig \<noteq> [] \<longrightarrow> last ms1 = last ms"
proof -
  obtain pc0 ms0 where s: "NextRow_loop pc = NextRow_loop pc0" "conn_live pc0 (BM_DataRow v # ms0 @ rest)" "filter significant ms0 = sig"
    "pc_resultReader pc0 = pc_resultReader pc" "others pc pc0" "pc_txStatus pc0 = pc_txStatus pc" "last (BM_DataRow v # ms0) = last ms"
  proof (rule rr_skip [OF assms(1,2) _ assms(4)])
    fix pc1 x pc2
    assume "pc_resultReader pc1 = pc_resultReader pc" "\<not> significant x" "rr_receiveMessage pc1 = (Inr x, pc2)"
    with assms(3) show "NextRow_loop pc1 = NextRow_loop pc2" by (cases x) (simp_all add: NextRow_loop.simps [of pc1])
  qed
  obtain pc1 where r: "rr_receiveMessage pc0 = (Inr (BM_DataRow v), pc1)" "conn_live pc1 (ms0 @ rest)"
    "pc_resultReader pc1 = rr_step (BM_DataRow v) (pc_resultReader pc0)" "others pc0 pc1"
    "pc_txStatus pc1 = tx_after (BM_DataRow v) (pc_txStatus pc0)"
    by (rule rr_live [OF s(2)]) (use assms(4) s(4) in auto)
  let ?pc = "upd_rr (\<lambda>rr. rr\<lparr>rr_rowValues := v\<rparr>) pc1"
  have "NextRow_loop pc = (True, ?pc)"
    using s(1,4) r(1) assms(3) by (simp add: NextRow_loop.simps [of pc0])
  moreover have "others pc ?pc" using others_trans [OF s(5) r(4)] by (simp add: others_def)
  moreover have "last ms0 = last ms" if "sig \<noteq> []" using that s(3,7) by (cases ms0) auto
  ultimately show ?thesis
    using s r by (intro that [of ?pc ms0]) (simp_all add: rr_step_def tx_after_def)
qed

lemma NextRow_end:
  assumes "conn_live pc (ms @ rest)" and "filter significant ms = m # sig" and "concluding m"
    and "\<not> rr_commandConcluded (pc_resultReader pc)"
    and "rr_multiResultReader (pc_resultReader pc) \<Longrightarrow> \<not> (\<exists>e. m = BM_ErrorResponse e)"
    and "rr_pgConn (pc_resultReader pc)"
  obtains pc1 ms1 where "NextRow_loop pc = (False, pc1)" and "conn_live pc1 (ms1 @ rest)" and "filter significant ms1 = sig"
    and "pc_resultReader pc1 = rr_step m (pc_resultReader pc)" and "others pc pc1"
    and "pc_txStatus pc1 = pc_txStatus pc" and "sig \<noteq> [] \<longrightarrow> last ms1 = last ms"
proof -
  obtain pc0 ms0 where s: "NextRow_loop pc = NextRow_loop pc0" "conn_live pc0 (m # ms0 @ rest)" "filter significant ms0 = sig"
    "pc_resultReader pc0 = pc_resultReader pc" "others pc pc0" "pc_txStatus pc0 = pc_txStatus pc" "last (m # ms0) = last ms"
  proof (rule rr_skip [OF assms(1,2) _ assms(6)])
    fix pc1 x pc2
    assume "pc_resultReader pc1 = pc_resultReader pc" "\<not> significant x" "rr_receiveMessage pc1 = (Inr x, pc2)"
    with assms(4) show "NextRow_loop pc1 = NextRow_loop pc2" by (cases x) (simp_all add: NextRow_loop.simps [of pc1])
  qed
  obtain pc1 where r: "rr_receiveMessage pc0 = (Inr m, pc1)" "conn_live pc1 (ms0 @ rest)"
    "pc_resultReader pc1 = rr_step m (pc_resultReader pc0)" "others pc0 pc1" "pc_txStatus pc1 = tx_after m (pc_txStatus pc0)"
    by (rule rr_live [OF s(2)]) (use assms(3,5,6) s(4) in auto)
  have c: "rr_commandConcluded (pc_resultReader pc1)" using r(3) concluding_step [OF assms(3)] by simp
  have "DataRow_of m = None" "tx_after m x = x" for x using assms(3) by (cases m; simp add: tx_after_def)+
  then have "NextRow_loop pc = (False, pc1)"
    using s(1,4) r(1) assms(4) c by (simp add: NextRow_loop.simps [of pc0] NextRow_loop.simps [of pc1])
  moreover have "last ms0 = last ms" if "sig \<noteq> []" using that s(3,7) by (cases ms0) auto
  ultimately show ?thesis
    using s r others_trans [OF s(5) r(4)] \<open>\<And>x. tx_after m x = x\<close> by (intro that [of pc1 ms0]) simp_all
qed


section \<open>One result\<close>

text \<open>All rows of a result.\<close>

definition empty_result :: Result where
  "empty_result = \<lparr>res_FieldDescriptions = None, res_Rows = [], res_CommandTag = no_tag, res_Err = None\<rparr>"

definition with_rows :: "pgconn_FieldDescription list \<Rightarrow> bytes option list list \<Rightarrow> Result \<Rightarrow> Result" where
  "with_rows fds rows br =
     br\<lparr>res_FieldDescriptions := (if rows = [] then res_FieldDescriptions br else
          case res_FieldDescriptions br of None \<Rightarrow> Some fds | Some x \<Rightarrow> Some x),
        res_Rows := res_Rows br @ rows\<rparr>"

lemma Read_rows:
  assumes "conn_live pc (ms @ rest)" and "filter significant ms = map BM_DataRow rows @ m # sig" and "concluding m"
    and "\<not> rr_commandConcluded (pc_resultReader pc)" and "\<not> rr_preloaded (pc_resultReader pc)"
    and "rr_multiResultReader (pc_resultReader pc) \<Longrightarrow> \<not> (\<exists>e. m = BM_ErrorResponse e)"
    and "rr_pgConn (pc_resultReader pc)"
  obtains pc1 ms1 v where "Read_loop br pc = (with_rows (rr_fieldDescriptions (pc_resultReader pc)) rows br, pc1)"
    and "conn_live pc1 (ms1 @ rest)" and "filter significant ms1 = sig"
    and "pc_resultReader pc1 = rr_step m ((pc_resultReader pc)\<lparr>rr_rowValues := v\<rparr>)" and "others pc pc1"
    and "pc_txStatus pc1 = pc_txStatus pc" and "sig \<noteq> [] \<longrightarrow> last ms1 = last ms"
proof -
  have "\<exists>pc1 ms1 v. Read_loop br pc = (with_rows (rr_fieldDescriptions (pc_resultReader pc)) rows br, pc1)
    \<and> conn_live pc1 (ms1 @ rest) \<and> filter significant ms1 = sig
    \<and> pc_resultReader pc1 = rr_step m ((pc_resultReader pc)\<lparr>rr_rowValues := v\<rparr>) \<and> others pc pc1
    \<and> pc_txStatus pc1 = pc_txStatus pc \<and> (sig \<noteq> [] \<longrightarrow> last ms1 = last ms)"
    using assms
  proof (induction rows arbitrary: pc ms br)
    case Nil
    then have fl: "filter significant ms = m # sig" by simp
    obtain pc1 ms1 where "NextRow_loop pc = (False, pc1)" "conn_live pc1 (ms1 @ rest)" "filter significant ms1 = sig"
      "pc_resultReader pc1 = rr_step m (pc_resultReader pc)" "others pc pc1" "pc_txStatus pc1 = pc_txStatus pc"
      "sig \<noteq> [] \<longrightarrow> last ms1 = last ms"
      by (rule NextRow_end [OF Nil.prems(1) fl Nil.prems(3,4,6,7)])
    then show ?case using Nil.prems(5)
      by (intro exI [of _ pc1] exI [of _ ms1] exI [of _ "rr_rowValues (pc_resultReader pc)"])
        (simp add: Read_loop.simps [of br pc] NextRow_def with_rows_def)
  next
    case (Cons v rows)
    then have fl: "filter significant ms = BM_DataRow v # map BM_DataRow rows @ m # sig" by simp
    obtain pc1 ms1 where n: "NextRow_loop pc = (True, pc1)" "conn_live pc1 (ms1 @ rest)"
      "filter significant ms1 = map BM_DataRow rows @ m # sig"
      "pc_resultReader pc1 = (pc_resultReader pc)\<lparr>rr_rowValues := v\<rparr>" "others pc pc1" "pc_txStatus pc1 = pc_txStatus pc"
      "map BM_DataRow rows @ m # sig \<noteq> [] \<longrightarrow> last ms1 = last ms"
      by (rule NextRow_row [OF Cons.prems(1) fl Cons.prems(4,7)])
    obtain pc2 ms2 v2 where p2: "Read_loop (add_row pc1 br) pc1 =
        (with_rows (rr_fieldDescriptions (pc_resultReader pc1)) rows (add_row pc1 br), pc2)"
      "conn_live pc2 (ms2 @ rest)" "filter significant ms2 = sig"
      "pc_resultReader pc2 = rr_step m ((pc_resultReader pc1)\<lparr>rr_rowValues := v2\<rparr>)" "others pc1 pc2"
      "pc_txStatus pc2 = pc_txStatus pc1" "sig \<noteq> [] \<longrightarrow> last ms2 = last ms1"
      using Cons.IH [OF n(2,3) Cons.prems(3), of "add_row pc1 br"] Cons.prems(4,5,6,7) n(4) by auto
    have "Read_loop br pc = Read_loop (add_row pc1 br) pc1"
      using n(1) Cons.prems(5) by (simp add: Read_loop.simps [of br pc] NextRow_def)
    moreover have "with_rows (rr_fieldDescriptions (pc_resultReader pc1)) rows (add_row pc1 br) =
      with_rows (rr_fieldDescriptions (pc_resultReader pc)) (v # rows) br"
      by (auto simp: with_rows_def add_row_def n(4) split: option.split)
    ultimately show ?case
      using p2 n(4,6,7) others_trans [OF n(5) p2(5)]
      by (intro exI [of _ pc2] exI [of _ ms2] exI [of _ v2]) simp
  qed
  then show ?thesis using that by blast
qed

text \<open>The end of the answer to one query: an error may still come before \<open>ReadyForQuery\<close>.\<close>

definition late_msgs :: "ErrorResponse option \<Rightarrow> BackendMessage list" where
  "late_msgs late = (case late of None \<Rightarrow> [] | Some e \<Rightarrow> [BM_ErrorResponse e])"

definition idle_again :: "PgConn \<Rightarrow> BackendMessage list \<Rightarrow> bool" where
  "idle_again pc rest \<longleftrightarrow> pc_status pc = connStatusIdle \<and> \<not> pc_watching pc \<and> pc_peekedMsg pc = None \<and> conn_delivers pc rest"

lemma idle_unlock:
  assumes "conn_live pc rest" and "pc_peekedMsg pc = None"
  shows "idle_again (conn_unlock (ctx_Unwatch pc)) rest"
proof -
  have "conn_unlock (ctx_Unwatch pc) = pc\<lparr>pc_watching := False, pc_status := connStatusIdle\<rparr>"
    using assms(1) by (simp add: conn_unlock_def ctx_Unwatch_def conn_live_def)
  moreover have "conn_delivers (pc\<lparr>pc_watching := False, pc_status := connStatusIdle\<rparr>) rest"
    using assms(1) conn_delivers_cong [of "pc\<lparr>pc_watching := False, pc_status := connStatusIdle\<rparr>" pc rest]
    by (simp add: conn_live_def)
  ultimately show ?thesis using assms(2) by (simp add: idle_again_def)
qed

lemma Close_ready_ready:
  assumes "conn_live pc (ms @ rest)" and "filter significant ms = [BM_ReadyForQuery z]" and "last ms = BM_ReadyForQuery z"
    and "\<not> rr_multiResultReader (pc_resultReader pc)"
    and "rr_pgConn (pc_resultReader pc)"
  obtains pc1 where "Close_ready_loop pc = ((rr_commandTag (pc_resultReader pc), rr_err (pc_resultReader pc)), pc1)"
    and "idle_again pc1 rest" and "pc_txStatus pc1 = rfq_TxStatus z" and "pc_multiResultReader pc1 = pc_multiResultReader pc"
    and "ep_w (pc_frontend pc1) = ep_w (pc_frontend pc)"
proof -
  obtain pc0 ms0 where s: "Close_ready_loop pc = Close_ready_loop pc0" "conn_live pc0 (BM_ReadyForQuery z # ms0 @ rest)"
    "filter significant ms0 = []" "pc_resultReader pc0 = pc_resultReader pc" "others pc pc0" "pc_txStatus pc0 = pc_txStatus pc"
    "last (BM_ReadyForQuery z # ms0) = last ms"
  proof (rule rr_skip [OF assms(1,2) _ assms(5)])
    fix pc1 x pc2
    assume "pc_resultReader pc1 = pc_resultReader pc" "\<not> significant x" "rr_receiveMessage pc1 = (Inr x, pc2)"
    then show "Close_ready_loop pc1 = Close_ready_loop pc2" by (cases x) (simp_all add: Close_ready_loop.simps [of pc1])
  qed
  have ms0: "ms0 = []"
  proof (rule ccontr)
    assume "ms0 \<noteq> []"
    with s(7) assms(3) have "BM_ReadyForQuery z \<in> set ms0" by (metis last.simps last_in_set)
    with s(3) show False by (auto simp: filter_empty_conv)
  qed
  obtain pc1 where r: "rr_receiveMessage pc0 = (Inr (BM_ReadyForQuery z), pc1)" "conn_live pc1 rest"
    "pc_resultReader pc1 = rr_step (BM_ReadyForQuery z) (pc_resultReader pc0)" "others pc0 pc1" "pc_peekedMsg pc1 = None"
    "pc_txStatus pc1 = tx_after (BM_ReadyForQuery z) (pc_txStatus pc0)"
    by (rule rr_live [of pc0 "BM_ReadyForQuery z" rest]) (use assms(4,5) s(2,4) ms0 in auto)
  show ?thesis
  proof (rule that)
    show "Close_ready_loop pc = ((rr_commandTag (pc_resultReader pc), rr_err (pc_resultReader pc)), conn_unlock (ctx_Unwatch pc1))"
      using s(1,4) r(1,3) by (simp add: Close_ready_loop.simps [of pc0] rr_step_def)
    show "idle_again (conn_unlock (ctx_Unwatch pc1)) rest" by (rule idle_unlock [OF r(2,5)])
  qed (use r(4,6) s(5) in \<open>simp_all add: tx_after_def others_def\<close>)
qed


definition final_err :: "ErrorResponse option \<Rightarrow> conn_err option \<Rightarrow> conn_err option" where
  "final_err late err = (case late of None \<Rightarrow> err | Some e \<Rightarrow> Some (PgErr (ErrorResponseToPgError e)))"

lemma Close_ready:
  assumes "conn_live pc (ms @ rest)" and "filter significant ms = late_msgs late @ [BM_ReadyForQuery z]"
    and "last ms = BM_ReadyForQuery z" and "\<not> rr_multiResultReader (pc_resultReader pc)"
    and "rr_commandConcluded (pc_resultReader pc)"
    and "rr_pgConn (pc_resultReader pc)"
  obtains pc1 where "Close_ready_loop pc = ((rr_commandTag (pc_resultReader pc),
      final_err late (rr_err (pc_resultReader pc))), pc1)"
    and "idle_again pc1 rest" and "pc_txStatus pc1 = rfq_TxStatus z" and "pc_multiResultReader pc1 = pc_multiResultReader pc"
    and "ep_w (pc_frontend pc1) = ep_w (pc_frontend pc)"
proof (cases late)
  case None
  with assms(2) have fl: "filter significant ms = [BM_ReadyForQuery z]" by (simp add: late_msgs_def)
  obtain pc1 where "Close_ready_loop pc = ((rr_commandTag (pc_resultReader pc), rr_err (pc_resultReader pc)), pc1)"
    "idle_again pc1 rest" "pc_txStatus pc1 = rfq_TxStatus z" "pc_multiResultReader pc1 = pc_multiResultReader pc"
    "ep_w (pc_frontend pc1) = ep_w (pc_frontend pc)"
    by (rule Close_ready_ready [OF assms(1) fl assms(3,4,6)])
  with None that show ?thesis by (simp add: final_err_def)
next
  case (Some e)
  let ?e = "BM_ErrorResponse e"
  from assms(2) Some have fl: "filter significant ms = ?e # [BM_ReadyForQuery z]" by (simp add: late_msgs_def)
  obtain pc0 ms0 where s: "Close_ready_loop pc = Close_ready_loop pc0" "conn_live pc0 (?e # ms0 @ rest)"
    "filter significant ms0 = [BM_ReadyForQuery z]" "pc_resultReader pc0 = pc_resultReader pc" "others pc pc0"
    "pc_txStatus pc0 = pc_txStatus pc" "last (?e # ms0) = last ms"
  proof (rule rr_skip [OF assms(1) fl _ assms(6)])
    fix pc1 x pc2
    assume "pc_resultReader pc1 = pc_resultReader pc" "\<not> significant x" "rr_receiveMessage pc1 = (Inr x, pc2)"
    then show "Close_ready_loop pc1 = Close_ready_loop pc2" by (cases x) (simp_all add: Close_ready_loop.simps [of pc1])
  qed
  obtain pc1 where r: "rr_receiveMessage pc0 = (Inr ?e, pc1)" "conn_live pc1 (ms0 @ rest)"
    "pc_resultReader pc1 = rr_step ?e (pc_resultReader pc0)" "others pc0 pc1"
    by (rule rr_live [OF s(2)]) (use assms(4,6) s(4) in auto)
  let ?pc = "upd_rr (\<lambda>rr. rr\<lparr>rr_err := Some (PgErr (ErrorResponseToPgError e))\<rparr>) pc1"
  have tag: "rr_commandTag (pc_resultReader pc1) = rr_commandTag (pc_resultReader pc)"
    "\<not> rr_multiResultReader (pc_resultReader ?pc)" "rr_pgConn (pc_resultReader ?pc)"
    using r(3) s(4) assms(4,5,6) by (simp_all add: rr_step_def concludeCommand_def Let_def)
  have "last ms0 = BM_ReadyForQuery z" using s(3,7) assms(3) by (cases ms0) auto
  then obtain pc2 where p2: "Close_ready_loop ?pc = ((rr_commandTag (pc_resultReader ?pc), rr_err (pc_resultReader ?pc)), pc2)"
    "idle_again pc2 rest" "pc_txStatus pc2 = rfq_TxStatus z" "pc_multiResultReader pc2 = pc_multiResultReader ?pc"
    "ep_w (pc_frontend pc2) = ep_w (pc_frontend ?pc)"
    using Close_ready_ready [of ?pc ms0 rest z] r(2) s(3) tag(2,3) by auto
  have "Close_ready_loop pc = Close_ready_loop ?pc" using s(1) r(1) by (simp add: Close_ready_loop.simps [of pc0])
  with p2 tag(1) Some r(4) s(5) that show ?thesis by (simp add: others_def final_err_def)
qed

fun conclusion_tag :: "BackendMessage \<Rightarrow> CommandTag" where
  "conclusion_tag (BM_CommandComplete t) = makeCommandTag (cc_CommandTag t)"
| "conclusion_tag _ = no_tag"

fun conclusion_err :: "BackendMessage \<Rightarrow> conn_err option" where
  "conclusion_err (BM_ErrorResponse e) = Some (PgErr (ErrorResponseToPgError e))"
| "conclusion_err _ = None"

lemma concluding_effect:
  assumes "concluding m" and "\<not> rr_commandConcluded rr" and "rr_err rr = None"
  shows "rr_commandTag (rr_step m rr) = conclusion_tag m" and "rr_err (rr_step m rr) = conclusion_err m"
  using assms by (cases m; simp add: rr_step_def concludeCommand_def Let_def)+

lemma rr_step_keeps [simp]:
  "rr_pgConn (rr_step m rr) = rr_pgConn rr"
  "rr_multiResultReader (rr_step m rr) = rr_multiResultReader rr" "rr_pipeline (rr_step m rr) = rr_pipeline rr"
  "rr_closed (rr_step m rr) = rr_closed rr" "rr_preloaded (rr_step m rr) = rr_preloaded rr"
  by (cases m; simp add: rr_step_def)+

definition answer_result ::
  "pgconn_FieldDescription list \<Rightarrow> bytes option list list \<Rightarrow> BackendMessage \<Rightarrow> ErrorResponse option \<Rightarrow> Result" where
  "answer_result fds rows m late =
     \<lparr>res_FieldDescriptions = (if rows = [] then None else Some fds), res_Rows = rows,
      res_CommandTag = conclusion_tag m,
      res_Err = final_err late (conclusion_err m)\<rparr>"

text \<open>\<open>Close\<close> of a reader whose command has ended.\<close>

lemma Close_concluded:
  assumes "conn_live pc (ms @ rest)" and "filter significant ms = late_msgs late @ [BM_ReadyForQuery z]"
    and "last ms = BM_ReadyForQuery z" and "rr_commandConcluded (pc_resultReader pc)" and "\<not> rr_closed (pc_resultReader pc)"
    and "\<not> rr_multiResultReader (pc_resultReader pc)" and "\<not> rr_pipeline (pc_resultReader pc)"
    and "rr_pgConn (pc_resultReader pc)"
  obtains pc1 where "ResultReader_Close pc = ((rr_commandTag (pc_resultReader pc),
      final_err late (rr_err (pc_resultReader pc))), pc1)"
    and "idle_again pc1 rest" and "pc_txStatus pc1 = rfq_TxStatus z" and "ep_w (pc_frontend pc1) = ep_w (pc_frontend pc)"
proof -
  let ?pc = "upd_rr (\<lambda>rr. rr\<lparr>rr_closed := True\<rparr>) pc"
  obtain pc1 where "Close_ready_loop ?pc = ((rr_commandTag (pc_resultReader ?pc),
      final_err late (rr_err (pc_resultReader ?pc))), pc1)"
    "idle_again pc1 rest" "pc_txStatus pc1 = rfq_TxStatus z" "pc_multiResultReader pc1 = pc_multiResultReader ?pc"
    "ep_w (pc_frontend pc1) = ep_w (pc_frontend ?pc)"
    by (rule Close_ready [of ?pc ms rest late z]) (use assms in simp_all)
  with assms(4-7) that show ?thesis by (simp add: ResultReader_Close_def Close_loop.simps [of ?pc])
qed

lemma Read_single:
  assumes "conn_live pc (ms @ rest)"
    and "filter significant ms = map BM_DataRow rows @ m # late_msgs late @ [BM_ReadyForQuery z]" and "concluding m"
    and "last ms = BM_ReadyForQuery z" and "\<not> rr_commandConcluded (pc_resultReader pc)"
    and "\<not> rr_preloaded (pc_resultReader pc)" and "\<not> rr_multiResultReader (pc_resultReader pc)"
    and "\<not> rr_pipeline (pc_resultReader pc)" and "\<not> rr_closed (pc_resultReader pc)" and "rr_err (pc_resultReader pc) = None"
    and "rr_pgConn (pc_resultReader pc)"
  obtains pc1 where "Read_loop br pc = (with_rows (rr_fieldDescriptions (pc_resultReader pc)) rows br, pc1)"
    and "\<exists>pc2. ResultReader_Close pc1 = ((conclusion_tag m,
        final_err late (conclusion_err m)), pc2)
      \<and> idle_again pc2 rest \<and> pc_txStatus pc2 = rfq_TxStatus z \<and> ep_w (pc_frontend pc2) = ep_w (pc_frontend pc)"
proof -
  obtain pc1 ms1 v where r: "Read_loop br pc = (with_rows (rr_fieldDescriptions (pc_resultReader pc)) rows br, pc1)"
    "conn_live pc1 (ms1 @ rest)" "filter significant ms1 = late_msgs late @ [BM_ReadyForQuery z]"
    "pc_resultReader pc1 = rr_step m ((pc_resultReader pc)\<lparr>rr_rowValues := v\<rparr>)" "others pc pc1"
    "pc_txStatus pc1 = pc_txStatus pc" "late_msgs late @ [BM_ReadyForQuery z] \<noteq> [] \<longrightarrow> last ms1 = last ms"
    by (rule Read_rows [OF assms(1-3,5,6)]) (use assms(7,11) in simp_all)
  note e = concluding_effect [OF assms(3), of "(pc_resultReader pc)\<lparr>rr_rowValues := v\<rparr>"]
  obtain pc2 where "ResultReader_Close pc1 = ((rr_commandTag (pc_resultReader pc1),
      final_err late (rr_err (pc_resultReader pc1))), pc2)"
    "idle_again pc2 rest" "pc_txStatus pc2 = rfq_TxStatus z" "ep_w (pc_frontend pc2) = ep_w (pc_frontend pc1)"
    by (rule Close_concluded [OF r(2,3)]) (use r(4,7) assms(3,4,7-9,11) concluding_step in simp_all)
  with r(1,4,5) e assms(5,10) that show ?thesis by (simp add: others_def)
qed


section \<open>Queries of the extended protocol\<close>

text \<open>The messages of an extended query, as \<open>ExecParams\<close>, \<open>ExecPrepared\<close> and \<open>ExecStatement\<close> send them.\<close>

definition bind_msg :: "bytes \<Rightarrow> bytes option list \<Rightarrow> u16 list \<Rightarrow> u16 list \<Rightarrow> Bind" where
  "bind_msg name pv pf rf = \<lparr>bind_DestinationPortal = [], bind_PreparedStatement = name,
     bind_ParameterFormatCodes = pf, bind_Parameters = pv, bind_ResultFormatCodes = rf\<rparr>"

definition send_params ::
  "bytes \<Rightarrow> bytes option list \<Rightarrow> u32 list \<Rightarrow> u16 list \<Rightarrow> u16 list \<Rightarrow> chunkReader Frontend \<Rightarrow> chunkReader Frontend" where
  "send_params sql pv oids pf rf f =
     SendSync (SendExecute \<lparr>exec_Portal = [], exec_MaxRows = 0\<rparr>
       (SendDescribe \<lparr>desc_ObjectType = chr CHR ''P'', desc_Name = []\<rparr>
         (SendBind (bind_msg [] pv pf rf)
           (SendParse \<lparr>parse_Name = [], parse_Query = sql, parse_ParameterOIDs = oids\<rparr> f))))"

definition send_prepared ::
  "bytes \<Rightarrow> bytes option list \<Rightarrow> u16 list \<Rightarrow> u16 list \<Rightarrow> chunkReader Frontend \<Rightarrow> chunkReader Frontend" where
  "send_prepared name pv pf rf f =
     SendSync (SendExecute \<lparr>exec_Portal = [], exec_MaxRows = 0\<rparr>
       (SendDescribe \<lparr>desc_ObjectType = chr CHR ''P'', desc_Name = []\<rparr> (SendBind (bind_msg name pv pf rf) f)))"

definition send_statement ::
  "bytes \<Rightarrow> bytes option list \<Rightarrow> u16 list \<Rightarrow> u16 list \<Rightarrow> chunkReader Frontend \<Rightarrow> chunkReader Frontend" where
  "send_statement name pv pf rf f =
     SendSync (SendExecute \<lparr>exec_Portal = [], exec_MaxRows = 0\<rparr> (SendBind (bind_msg name pv pf rf) f))"

text \<open>An idle connection that can send \<open>g\<close> and will then deliver \<open>ms\<close>, with a context that is not done.\<close>

definition can_run ::
  "ctx \<Rightarrow> (chunkReader Frontend \<Rightarrow> chunkReader Frontend) \<Rightarrow> BackendMessage list \<Rightarrow> PgConn \<Rightarrow> bool" where
  "can_run c g ms pc \<longleftrightarrow> pc_status pc = connStatusIdle \<and> \<not> pc_watching pc \<and> pc_peekedMsg pc = None
     \<and> fst (Frontend_Flush (g (pc_frontend pc))) = None \<and> (ctx_Background c \<or> ctx_done c = None)
     \<and> conn_delivers pc ms
     \<and> (\<forall>e h. BM_ErrorResponse e \<in> set ms \<longrightarrow> pc_OnPgError pc = Some h \<longrightarrow> h (ErrorResponseToPgError e))"

definition started :: "ctx \<Rightarrow> (chunkReader Frontend \<Rightarrow> chunkReader Frontend) \<Rightarrow> PgConn \<Rightarrow> PgConn" where
  "started c g pc = pc\<lparr>pc_status := connStatusBusy, pc_watching := (\<not> ctx_Background c \<and> ctx_cancellable c),
     pc_frontend := snd (Frontend_Flush (g (pc_frontend pc)))\<rparr>"

definition sends :: "(chunkReader Frontend \<Rightarrow> chunkReader Frontend) \<Rightarrow> bool" where
  "sends g \<longleftrightarrow> (\<forall>f. \<exists>b e. g f = f\<lparr>ep_wbuf := b, ep_encodeError := e\<rparr>)"

lemma sends_id: "sends (\<lambda>f. f)"
  unfolding sends_def
proof
  show "\<exists>b e. f = f\<lparr>ep_wbuf := b, ep_encodeError := e\<rparr>" for f :: "chunkReader Frontend"
    by (intro exI [of _ "ep_wbuf f"] exI [of _ "ep_encodeError f"]) simp
qed

lemma sends_then:
  assumes "sends h"
  shows "sends (\<lambda>f. endpoint_Send enc (h f))"
  unfolding sends_def
proof
  fix f
  obtain b e where 1: "h f = f\<lparr>ep_wbuf := b, ep_encodeError := e\<rparr>" using assms unfolding sends_def by blast
  obtain b' e' where 2: "endpoint_Send enc (h f) = (h f)\<lparr>ep_wbuf := b', ep_encodeError := e'\<rparr>" by (metis endpoint_Send_reading)
  show "\<exists>b e. endpoint_Send enc (h f) = f\<lparr>ep_wbuf := b, ep_encodeError := e\<rparr>"
    using 2 unfolding 1 by (intro exI [of _ b'] exI [of _ e']) simp
qed

lemma frontend_expects_cong:
  assumes "ep_cr f' = ep_cr f" "ep_partialMsg f' = ep_partialMsg f" "ep_msgType f' = ep_msgType f"
    "ep_bodyLen f' = ep_bodyLen f" "ep_maxBodyLen f' = ep_maxBodyLen f"
  shows "frontend_expects s w f' ms = frontend_expects s w f ms"
  using stream_inv_cong [OF assms] assms(1) by (simp add: frontend_expects_def)

lemma started_live:
  assumes "can_run c g ms pc" and "sends g"
  shows "conn_live (started c g pc) ms"
proof -
  obtain b e where g: "g (pc_frontend pc) = (pc_frontend pc)\<lparr>ep_wbuf := b, ep_encodeError := e\<rparr>"
    using assms(2) unfolding sends_def by blast
  obtain x f where f: "Frontend_Flush (g (pc_frontend pc)) = (x, f)" by fastforce
  have f1: "ep_cr f = ep_cr (pc_frontend pc)" "ep_partialMsg f = ep_partialMsg (pc_frontend pc)"
    "ep_msgType f = ep_msgType (pc_frontend pc)" "ep_bodyLen f = ep_bodyLen (pc_frontend pc)"
    "ep_maxBodyLen f = ep_maxBodyLen (pc_frontend pc)"
    by (subst Flush_reading [OF f], simp add: g)+
  have "conn_delivers pc ms" and np: "pc_peekedMsg pc = None" using assms(1) by (simp_all add: can_run_def)
  then have "conn_delivers (started c g pc) ms"
    using frontend_expects_cong [OF f1, of cr_stream wf_chunkReader ms]
    by (simp add: conn_delivers_def started_def f f1(1))
  with assms(1) show ?thesis by (simp add: conn_live_def can_run_def started_def) blast
qed

lemma exec_started:
  assumes "can_run c g ms pc" and "length pv \<le> 65535"
  shows "execExtendedPrefix c pv pc =
      pc\<lparr>pc_resultReader := new_ResultReader c, pc_status := connStatusBusy, pc_watching := (\<not> ctx_Background c \<and> ctx_cancellable c)\<rparr>"
  using assms
  by (auto simp: execExtendedPrefix_def Let_def can_run_def conn_lock_def ctx_begin_def ctx_Watch_def)

lemma conn_flush_sent:
  "fst (Frontend_Flush (pc_frontend pc)) = None \<Longrightarrow>
     conn_flush pc = (None, pc\<lparr>pc_frontend := snd (Frontend_Flush (pc_frontend pc))\<rparr>)"
  by (cases "Frontend_Flush (pc_frontend pc)") (simp add: conn_flush_def)

lemma exec_reads:
  "can_run c (send_params sql pv oids pf rf) ms pc \<Longrightarrow> length pv \<le> 65535 \<Longrightarrow>
     PgConn_ExecParams c sql pv oids pf rf pc =
       readUntilRowDescription None [] (started c (send_params sql pv oids pf rf) (pc\<lparr>pc_resultReader := new_ResultReader c\<rparr>))"
  "can_run c (send_prepared name pv pf rf) ms pc \<Longrightarrow> length pv \<le> 65535 \<Longrightarrow>
     PgConn_ExecPrepared c name pv pf rf pc =
       readUntilRowDescription None [] (started c (send_prepared name pv pf rf) (pc\<lparr>pc_resultReader := new_ResultReader c\<rparr>))"
  "can_run c (send_statement (sd_Name sd) pv pf rf) ms pc \<Longrightarrow> length pv \<le> 65535 \<Longrightarrow>
     PgConn_ExecStatement c sd pv pf rf pc =
       readUntilRowDescription (Some sd) rf (started c (send_statement (sd_Name sd) pv pf rf) (pc\<lparr>pc_resultReader := new_ResultReader c\<rparr>))"
  by (frule (1) exec_started, simp add: PgConn_ExecParams_def PgConn_ExecPrepared_def PgConn_ExecStatement_def
      execExtendedSuffix_def started_def send_params_def send_prepared_def send_statement_def send_bind_def bind_msg_def
      fe_send_def conn_flush_sent can_run_def new_ResultReader_def Let_def)+


text \<open>The first message that matters to the loop before the rows.\<close>

lemma until_significant:
  assumes "conn_live pc (ms @ rest)" and "filter significant ms = m # sig" and "sig \<noteq> []"
    and "\<not> rr_commandConcluded (pc_resultReader pc)" and "\<not> rr_multiResultReader (pc_resultReader pc)"
    and "rr_pgConn (pc_resultReader pc)"
  obtains pc1 ms1 where
    "readUntilRowDescription sd rf pc =
       (case m of
          BM_RowDescription _ \<Rightarrow> pc1
        | BM_DataRow v \<Rightarrow> load_statement_fields sd rf (upd_rr (preloadRowValues v) pc1)
        | BM_CommandComplete _ \<Rightarrow> load_statement_fields sd rf pc1
        | _ \<Rightarrow> readUntilRowDescription sd rf pc1)"
    and "conn_live pc1 (ms1 @ rest)" and "filter significant ms1 = sig"
    and "pc_resultReader pc1 = rr_step m (pc_resultReader pc)" and "others pc pc1" and "last ms1 = last ms"
proof -
  obtain pc0 ms0 where s: "readUntilRowDescription sd rf pc = readUntilRowDescription sd rf pc0"
    "conn_live pc0 (m # ms0 @ rest)" "filter significant ms0 = sig"
    "pc_resultReader pc0 = pc_resultReader pc" "others pc pc0" "pc_txStatus pc0 = pc_txStatus pc" "last (m # ms0) = last ms"
  proof (rule rr_skip [OF assms(1,2) _ assms(6)])
    fix pc1 x pc2
    assume "pc_resultReader pc1 = pc_resultReader pc" "\<not> significant x" "rr_receiveMessage pc1 = (Inr x, pc2)"
    with assms(4) show "readUntilRowDescription sd rf pc1 = readUntilRowDescription sd rf pc2"
      by (cases x) (simp_all add: readUntilRowDescription.simps [of sd rf pc1])
  qed
  obtain pc1 where r: "rr_receiveMessage pc0 = (Inr m, pc1)" "conn_live pc1 (ms0 @ rest)"
    "pc_resultReader pc1 = rr_step m (pc_resultReader pc0)" "others pc0 pc1"
    by (rule rr_live [OF s(2)]) (use assms(5,6) s(4) in auto)
  have "last ms0 = last ms" using assms(3) s(3,7) by (cases ms0) auto
  with s r(2-4) others_trans [OF s(5) r(4)] show ?thesis
    by (intro that [of pc1 ms0]) (simp_all add: readUntilRowDescription.simps [of sd rf pc0] r(1) assms(4))
qed

text \<open>A command that ended before any row.\<close>

lemma until_concluded:
  assumes "conn_live pc (ms @ rest)" and "filter significant ms = m # late_msgs late @ [BM_ReadyForQuery z]"
    and "concluding m" and "last ms = BM_ReadyForQuery z" and "pc_resultReader pc = new_ResultReader c"
    and "case sd of None \<Rightarrow> True | Some s \<Rightarrow> \<exists>fds. combineFieldDescriptionsAndResultFormats (sd_Fields s) rf = Inr fds"
  obtains pc2 where "ResultReader_Read (readUntilRowDescription sd rf pc) = (answer_result fds [] m late, pc2)"
    and "idle_again pc2 rest" and "pc_txStatus pc2 = rfq_TxStatus z" and "ep_w (pc_frontend pc2) = ep_w (pc_frontend pc)"
proof -
  obtain pc1 ms1 where u: "readUntilRowDescription sd rf pc =
       (case m of BM_RowDescription _ \<Rightarrow> pc1
        | BM_DataRow v \<Rightarrow> load_statement_fields sd rf (upd_rr (preloadRowValues v) pc1)
        | BM_CommandComplete _ \<Rightarrow> load_statement_fields sd rf pc1
        | _ \<Rightarrow> readUntilRowDescription sd rf pc1)"
    "conn_live pc1 (ms1 @ rest)" "filter significant ms1 = late_msgs late @ [BM_ReadyForQuery z]"
    "pc_resultReader pc1 = rr_step m (pc_resultReader pc)" "others pc pc1" "last ms1 = last ms"
    by (rule until_significant [OF assms(1,2), of sd rf]) (simp_all add: assms(5) new_ResultReader_def)
  have conc: "rr_commandConcluded (pc_resultReader pc1)" using u(4) concluding_step [OF assms(3)] by simp
  let ?pc = "readUntilRowDescription sd rf pc"
  have pc: "?pc = pc1 \<or> (\<exists>fds. ?pc = upd_rr (\<lambda>rr. rr\<lparr>rr_fieldDescriptions := fds\<rparr>) (store_fields fds pc1))"
    using u(1) assms(3,6) conc
    by (cases m) (auto simp: readUntilRowDescription.simps [of sd rf pc1] load_statement_fields_def split: option.splits)
  have e: "rr_commandTag (pc_resultReader ?pc) = conclusion_tag m" "rr_err (pc_resultReader ?pc) = conclusion_err m"
    "rr_commandConcluded (pc_resultReader ?pc)" "\<not> rr_closed (pc_resultReader ?pc)"
    "\<not> rr_multiResultReader (pc_resultReader ?pc)" "\<not> rr_pipeline (pc_resultReader ?pc)" "\<not> rr_preloaded (pc_resultReader ?pc)"
    "rr_pgConn (pc_resultReader ?pc)"
    using pc u(4) conc assms(5) concluding_effect [OF assms(3), of "new_ResultReader c"]
    by (auto simp: new_ResultReader_def)
  have live: "conn_live ?pc (ms1 @ rest)" using pc u(2) by auto
  have w: "ep_w (pc_frontend ?pc) = ep_w (pc_frontend pc)" using pc u(5) by (auto simp: others_def)
  obtain pc2 where c: "ResultReader_Close ?pc = ((rr_commandTag (pc_resultReader ?pc), final_err late (rr_err (pc_resultReader ?pc))), pc2)"
    "idle_again pc2 rest" "pc_txStatus pc2 = rfq_TxStatus z" "ep_w (pc_frontend pc2) = ep_w (pc_frontend ?pc)"
    by (rule Close_concluded [OF live u(3)]) (use e assms(4) u(6) in simp_all)
  have "Read_loop br ?pc = (br, ?pc)" for br
    using e(3,7) by (simp add: Read_loop.simps [of br ?pc] NextRow_def NextRow_loop.simps [of ?pc])
  then show ?thesis using c e(1,2) w
    by (intro that [of pc2]) (simp_all add: ResultReader_Read_def answer_result_def)
qed

text \<open>The description of the columns, then the rows.\<close>

lemma until_described:
  assumes "conn_live pc (ms @ rest)"
    and "filter significant ms = BM_RowDescription d # map BM_DataRow rows @ m # late_msgs late @ [BM_ReadyForQuery z]"
    and "concluding m" and "last ms = BM_ReadyForQuery z" and "pc_resultReader pc = new_ResultReader c"
  obtains pc2 where "ResultReader_Read (readUntilRowDescription sd rf pc) = (answer_result (convertRowDescription d) rows m late, pc2)"
    and "idle_again pc2 rest" and "pc_txStatus pc2 = rfq_TxStatus z" and "ep_w (pc_frontend pc2) = ep_w (pc_frontend pc)"
proof -
  obtain pc1 ms1 where u: "readUntilRowDescription sd rf pc = pc1"
    "conn_live pc1 (ms1 @ rest)" "filter significant ms1 = map BM_DataRow rows @ m # late_msgs late @ [BM_ReadyForQuery z]"
    "pc_resultReader pc1 = rr_step (BM_RowDescription d) (pc_resultReader pc)" "others pc pc1" "last ms1 = last ms"
    by (rule until_significant [OF assms(1,2), of sd rf]) (simp_all add: assms(5) new_ResultReader_def)
  have rr: "pc_resultReader pc1 = (new_ResultReader c)\<lparr>rr_fieldDescriptions := convertRowDescription d\<rparr>"
    using u(4) assms(5) by (simp add: rr_step_def)
  obtain pc2 where p: "Read_loop empty_result pc1 = (with_rows (rr_fieldDescriptions (pc_resultReader pc1)) rows empty_result, pc2)"
    "\<exists>pc3. ResultReader_Close pc2 = ((conclusion_tag m, final_err late (conclusion_err m)), pc3)
      \<and> idle_again pc3 rest \<and> pc_txStatus pc3 = rfq_TxStatus z \<and> ep_w (pc_frontend pc3) = ep_w (pc_frontend pc1)"
    by (rule Read_single [OF u(2,3) assms(3)]) (use rr assms(4) u(6) in \<open>simp_all add: new_ResultReader_def\<close>)
  then obtain pc3 where "ResultReader_Close pc2 = ((conclusion_tag m, final_err late (conclusion_err m)), pc3)"
    "idle_again pc3 rest" "pc_txStatus pc3 = rfq_TxStatus z" "ep_w (pc_frontend pc3) = ep_w (pc_frontend pc1)" by blast
  then show ?thesis using p(1) u(1,5) rr
    by (intro that [of pc3]) (simp_all add: ResultReader_Read_def answer_result_def empty_result_def with_rows_def others_def)
qed


text \<open>A prepared statement is not described again: the first row is kept and the columns are the statement's.\<close>

lemma until_first_row:
  assumes "conn_live pc (ms @ rest)"
    and "filter significant ms = BM_DataRow v # map BM_DataRow rows @ m # late_msgs late @ [BM_ReadyForQuery z]"
    and "concluding m" and "last ms = BM_ReadyForQuery z" and "pc_resultReader pc = new_ResultReader c"
    and "combineFieldDescriptionsAndResultFormats (sd_Fields sd) rf = Inr fds"
  obtains pc2 where "ResultReader_Read (readUntilRowDescription (Some sd) rf pc) = (answer_result fds (v # rows) m late, pc2)"
    and "idle_again pc2 rest" and "pc_txStatus pc2 = rfq_TxStatus z" and "ep_w (pc_frontend pc2) = ep_w (pc_frontend pc)"
proof -
  obtain pc1 ms1 where u: "readUntilRowDescription (Some sd) rf pc = load_statement_fields (Some sd) rf (upd_rr (preloadRowValues v) pc1)"
    "conn_live pc1 (ms1 @ rest)" "filter significant ms1 = map BM_DataRow rows @ m # late_msgs late @ [BM_ReadyForQuery z]"
    "pc_resultReader pc1 = rr_step (BM_DataRow v) (pc_resultReader pc)" "others pc pc1" "last ms1 = last ms"
    by (rule until_significant [OF assms(1,2), of "Some sd" rf]) (simp_all add: assms(5) new_ResultReader_def)
  let ?pc = "readUntilRowDescription (Some sd) rf pc" and ?pc' = "upd_rr (\<lambda>rr. rr\<lparr>rr_preloaded := False\<rparr>) (readUntilRowDescription (Some sd) rf pc)"
  have rr: "pc_resultReader ?pc = (new_ResultReader c)\<lparr>rr_rowValues := v, rr_preloaded := True, rr_fieldDescriptions := fds\<rparr>"
    using u(1,4) assms(5,6) by (simp add: load_statement_fields_def preloadRowValues_def rr_step_def new_ResultReader_def)
  have live: "conn_live ?pc' (ms1 @ rest)" and w: "ep_w (pc_frontend ?pc) = ep_w (pc_frontend pc)"
    using u(1,2,5) assms(6) by (simp_all add: load_statement_fields_def others_def)
  have first: "Read_loop empty_result ?pc = Read_loop (add_row ?pc' empty_result) ?pc'"
    by (simp add: Read_loop.simps [of _ ?pc] NextRow_def rr)
  obtain pc2 where p: "Read_loop (add_row ?pc' empty_result) ?pc' =
      (with_rows (rr_fieldDescriptions (pc_resultReader ?pc')) rows (add_row ?pc' empty_result), pc2)"
    "\<exists>pc3. ResultReader_Close pc2 = ((conclusion_tag m, final_err late (conclusion_err m)), pc3)
      \<and> idle_again pc3 rest \<and> pc_txStatus pc3 = rfq_TxStatus z \<and> ep_w (pc_frontend pc3) = ep_w (pc_frontend ?pc')"
    by (rule Read_single [OF live u(3) assms(3)]) (use rr assms(4) u(6) in \<open>simp_all add: new_ResultReader_def\<close>)
  then obtain pc3 where c: "ResultReader_Close pc2 = ((conclusion_tag m, final_err late (conclusion_err m)), pc3)"
    "idle_again pc3 rest" "pc_txStatus pc3 = rfq_TxStatus z" "ep_w (pc_frontend pc3) = ep_w (pc_frontend ?pc')" by blast
  have "with_rows (rr_fieldDescriptions (pc_resultReader ?pc')) rows (add_row ?pc' empty_result) =
      \<lparr>res_FieldDescriptions = Some fds, res_Rows = v # rows, res_CommandTag = no_tag, res_Err = None\<rparr>"
    by (simp add: with_rows_def add_row_def empty_result_def rr)
  note rows = this
  have "ResultReader_Read ?pc = (answer_result fds (v # rows) m late, pc3)"
    unfolding ResultReader_Read_def empty_result_def [symmetric] Let_def first p(1) rows
    by (simp add: c(1) answer_result_def)
  then show ?thesis by (rule that [OF _ c(2,3)]) (use c(4) w in simp)
qed

text \<open>What a command of the extended protocol returns, for each of the three.\<close>

lemma sends_commands: "sends (send_params sql pv oids pf rf)" "sends (send_prepared name pv pf rf)" "sends (send_statement name pv pf rf)"
  unfolding send_params_def [abs_def] send_prepared_def [abs_def] send_statement_def [abs_def] SendSync_def [abs_def]
    SendExecute_def [abs_def] SendDescribe_def [abs_def] SendBind_def [abs_def] SendParse_def [abs_def]
  by ((rule sends_then)+, rule sends_id)+

lemma can_run_reader: "can_run c g ms (pc\<lparr>pc_resultReader := rr\<rparr>) = can_run c g ms pc"
  using conn_delivers_cong [of "pc\<lparr>pc_resultReader := rr\<rparr>" pc ms] by (simp add: can_run_def)

definition desc_msgs :: "RowDescription option \<Rightarrow> BackendMessage list" where
  "desc_msgs desc = (case desc of None \<Rightarrow> [] | Some d \<Rightarrow> [BM_RowDescription d])"

lemma described_results:
  assumes "can_run c g (ms @ rest) pc" and "sends g"
    and "filter significant ms = desc_msgs desc @ map BM_DataRow rows @ m # late_msgs late @ [BM_ReadyForQuery z]"
    and "desc = None \<longrightarrow> rows = []" and "concluding m" and "last ms = BM_ReadyForQuery z"
  shows "\<exists>pc'. ResultReader_Read (readUntilRowDescription None [] (started c g (pc\<lparr>pc_resultReader := new_ResultReader c\<rparr>))) =
      (answer_result (case desc of None \<Rightarrow> [] | Some d \<Rightarrow> convertRowDescription d) rows m late, pc')
    \<and> idle_again pc' rest \<and> pc_txStatus pc' = rfq_TxStatus z
    \<and> ep_w (pc_frontend pc') = ep_w (snd (Frontend_Flush (g (pc_frontend pc))))"
proof -
  let ?pc = "started c g (pc\<lparr>pc_resultReader := new_ResultReader c\<rparr>)"
  have live: "conn_live ?pc (ms @ rest)"
    by (rule started_live [OF _ assms(2)]) (simp add: can_run_reader assms(1))
  have rr: "pc_resultReader ?pc = new_ResultReader c" and w: "ep_w (pc_frontend ?pc) = ep_w (snd (Frontend_Flush (g (pc_frontend pc))))"
    by (simp_all add: started_def)
  show ?thesis
  proof (cases desc)
    case None
    with assms(3,4) have fl: "filter significant ms = m # late_msgs late @ [BM_ReadyForQuery z]" "rows = []" by (simp_all add: desc_msgs_def)
    obtain pc' where "ResultReader_Read (readUntilRowDescription None [] ?pc) = (answer_result [] [] m late, pc')"
      "idle_again pc' rest" "pc_txStatus pc' = rfq_TxStatus z" "ep_w (pc_frontend pc') = ep_w (pc_frontend ?pc)"
      by (rule until_concluded [OF live fl(1) assms(5,6) rr, where sd = None and rf = "[]"]) simp_all
    with None w fl(2) show ?thesis by (intro exI [of _ pc']) simp
  next
    case (Some d)
    with assms(3) have fl: "filter significant ms = BM_RowDescription d # map BM_DataRow rows @ m # late_msgs late @ [BM_ReadyForQuery z]"
      by (simp add: desc_msgs_def)
    obtain pc' where "ResultReader_Read (readUntilRowDescription None [] ?pc) = (answer_result (convertRowDescription d) rows m late, pc')"
      "idle_again pc' rest" "pc_txStatus pc' = rfq_TxStatus z" "ep_w (pc_frontend pc') = ep_w (pc_frontend ?pc)"
      by (rule until_described [OF live fl assms(5,6) rr])
    with Some w show ?thesis by (intro exI [of _ pc']) simp
  qed
qed

lemma statement_results:
  assumes "can_run c g (ms @ rest) pc" and "sends g"
    and "filter significant ms = map BM_DataRow rows @ m # late_msgs late @ [BM_ReadyForQuery z]"
    and "combineFieldDescriptionsAndResultFormats (sd_Fields sd) rf = Inr fds" and "concluding m" and "last ms = BM_ReadyForQuery z"
  shows "\<exists>pc'. ResultReader_Read (readUntilRowDescription (Some sd) rf (started c g (pc\<lparr>pc_resultReader := new_ResultReader c\<rparr>))) =
      (answer_result fds rows m late, pc')
    \<and> idle_again pc' rest \<and> pc_txStatus pc' = rfq_TxStatus z
    \<and> ep_w (pc_frontend pc') = ep_w (snd (Frontend_Flush (g (pc_frontend pc))))"
proof -
  let ?pc = "started c g (pc\<lparr>pc_resultReader := new_ResultReader c\<rparr>)"
  have live: "conn_live ?pc (ms @ rest)"
    by (rule started_live [OF _ assms(2)]) (simp add: can_run_reader assms(1))
  have rr: "pc_resultReader ?pc = new_ResultReader c" and w: "ep_w (pc_frontend ?pc) = ep_w (snd (Frontend_Flush (g (pc_frontend pc))))"
    by (simp_all add: started_def)
  show ?thesis
  proof (cases rows)
    case Nil
    with assms(3) have fl: "filter significant ms = m # late_msgs late @ [BM_ReadyForQuery z]" by simp
    obtain pc' where "ResultReader_Read (readUntilRowDescription (Some sd) rf ?pc) = (answer_result fds [] m late, pc')"
      "idle_again pc' rest" "pc_txStatus pc' = rfq_TxStatus z" "ep_w (pc_frontend pc') = ep_w (pc_frontend ?pc)"
      by (rule until_concluded [OF live fl assms(5,6) rr, where sd = "Some sd" and rf = rf and fds = fds]) (simp_all add: assms(4))
    with Nil w show ?thesis by (intro exI [of _ pc']) simp
  next
    case (Cons v rows')
    with assms(3) have fl: "filter significant ms = BM_DataRow v # map BM_DataRow rows' @ m # late_msgs late @ [BM_ReadyForQuery z]"
      by simp
    obtain pc' where "ResultReader_Read (readUntilRowDescription (Some sd) rf ?pc) = (answer_result fds (v # rows') m late, pc')"
      "idle_again pc' rest" "pc_txStatus pc' = rfq_TxStatus z" "ep_w (pc_frontend pc') = ep_w (pc_frontend ?pc)"
      by (rule until_first_row [OF live fl assms(5,6) rr assms(4)])
    with Cons w show ?thesis by (intro exI [of _ pc']) simp
  qed
qed

end
