(* ===== verification/Pgconn_Props.thy ===== *)
theory Pgconn_Props
  imports Pgconn_Steps Proto_Conversation
begin

text \<open>
  The properties that hold of a connection whatever the server sends and whatever the network does: the
  invariant over every sequence of calls, and that closing a reader gives the connection back; then two
  ways of using a connection that it does not withstand.
\<close>

definition owner_open :: "activity \<Rightarrow> PgConn \<Rightarrow> bool" where
  "owner_open a pc =
     (case a of
        Free \<Rightarrow> False
      | Single \<Rightarrow> \<not> rr_closed (pc_resultReader pc)
      | Multi \<Rightarrow> \<not> mrr_closed (pc_multiResultReader pc)
      | Piped \<Rightarrow> \<not> pl_closed (pc_pipeline pc)
      | Orphaned \<Rightarrow> False)"

lemma session_owner:
  assumes "conn_session a pc"
  shows "pc_status pc = connStatusBusy \<Longrightarrow> owner_open a pc \<or> a = Orphaned" and "pc_status pc = connStatusIdle \<Longrightarrow> \<not> owner_open a pc"
  using assms by (cases a; auto simp: conn_session_def owner_open_def rr_session_def mrr_session_def pl_session_def
      pl_reading_def split: if_splits)+

text \<open>The calls that close what has the connection.\<close>

definition close_owner :: "activity \<Rightarrow> PgConn \<Rightarrow> PgConn" where
  "close_owner a pc =
     (case a of
        Free \<Rightarrow> pc
      | Single \<Rightarrow> snd (ResultReader_Close pc)
      | Multi \<Rightarrow> snd (MultiResultReader_Close pc)
      | Piped \<Rightarrow> snd (Pipeline_Close pc)
      | Orphaned \<Rightarrow> snd (ResultReader_Close pc))"

lemma close_owner_session:
  assumes "conn_session a pc"
  shows "conn_session a (close_owner a pc) \<and> \<not> owner_open a (close_owner a pc)"
proof (cases a)
  case Single
  obtain r pc' where "ResultReader_Close pc = (r, pc')" by fastforce
  with Single assms ResultReader_Close_session [of pc r pc'] show ?thesis
    by (simp add: close_owner_def owner_open_def)
next
  case Multi
  obtain r pc' where "MultiResultReader_Close pc = (r, pc')" by fastforce
  with Multi assms MultiResultReader_Close_session [of pc r pc'] show ?thesis
    by (simp add: close_owner_def owner_open_def)
next
  case Piped
  obtain r pc' where "Pipeline_Close pc = (r, pc')" by fastforce
  with Piped assms Pipeline_Close_session [of pc r pc'] show ?thesis
    by (simp add: close_owner_def owner_open_def)
next
  case Orphaned
  obtain r pc' where "ResultReader_Close pc = (r, pc')" by fastforce
  with Orphaned assms Orphaned_rows(2) [of pc r pc'] show ?thesis
    by (simp add: close_owner_def owner_open_def)
qed (use assms in \<open>simp add: close_owner_def owner_open_def\<close>)

lemma close_owner_step:
  assumes "a \<noteq> Free" and "conn_session a pc"
  shows "conn_step a pc a (close_owner a pc)"
proof (cases a)
  case Single
  with assms(2) have "rr_returned (pc_resultReader pc)" by (simp add: rr_session_def rr_returned_def)
  then show ?thesis unfolding Single close_owner_def activity.case
    by (rule close_result [OF _ surjective_pairing])
next
  case Multi
  show ?thesis unfolding Multi close_owner_def activity.case by (rule close_results [OF surjective_pairing])
next
  case Piped
  show ?thesis unfolding Piped close_owner_def activity.case by (rule close_pipeline [OF surjective_pairing])
next
  case Orphaned
  with assms(2) conn_session_Orphaned(1) have "rr_returned (pc_resultReader pc)" by (simp add: rr_returned_def)
  then show ?thesis unfolding Orphaned close_owner_def activity.case
    by (rule close_result [OF _ surjective_pairing])
qed (use assms in simp)

text \<open>A connection to try the properties on: an idle server that writes go to.\<close>

definition demo_hc :: "(bytes \<times> goerr option) list \<Rightarrow> HijackedConn" where
  "demo_hc r = \<lparr>hc_r = r, hc_w = quiet_writer, hc_PID = 1, hc_SecretKey = [], hc_ParameterStatuses = Map.empty,
     hc_TxStatus = 73, hc_Frontend = tiny_frontend [], hc_OnPgError = None, hc_OnNotice = False, hc_OnNotification = False\<rparr>"

definition demo_ctx :: ctx where
  "demo_ctx = \<lparr>ctx_Background = False, ctx_cancellable = True, ctx_done = None, ctx_Err = None\<rparr>"

lemma demo_exec:
  assumes "Construct (demo_hc r) init_pools = Inr pc" and "proper_reader r"
  shows "\<exists>pc'. PgConn_Exec demo_ctx [59] pc = (Attached, pc') \<and> pc_status pc' = connStatusBusy \<and> pc_panics pc' = []
    \<and> conn_reach Multi pc'"
proof -
  have q: "Query_Encode \<lparr>query_String = [59]\<rparr> [] = Inr [81, 0, 0, 0, 6, 59, 0]"
    by (simp add: query.encode frame_def no_nul_def maxMessageBodyLen_def AppendUint32_def)
  obtain cr where cr: "newChunkReader r 0 init_pools = Inr cr"
    by (rule newChunkReader_ok [OF wf_init_pools assms(2), where n = 0])
  obtain ref pc' where e: "PgConn_Exec demo_ctx [59] pc = (ref, pc')" by fastforce
  have a: "ref = Attached \<and> pc_status pc' = connStatusBusy \<and> pc_panics pc' = []"
    using assms(1) cr q e
    by (auto simp: Construct_def NewFrontend_def demo_hc_def PgConn_Exec_def conn_lock_def ctx_begin_def demo_ctx_def
        ctx_Watch_def conn_flush_def fe_send_def SendQuery_def endpoint_Send_def Frontend_Flush_def idle_defs)
  have "conn_reach Free pc"
    by (rule construct [OF wf_init_pools _ assms(1)]) (simp add: demo_hc_def assms(2))
  moreover have "pc_panics pc = []" using assms(1) cr by (auto simp: Construct_def NewFrontend_def demo_hc_def)
  ultimately have "conn_reach (if ref = Attached then Multi else Free) pc'"
    using exec [OF e] by (rule conn_reach.step)
  with a e show ?thesis by simp
qed



text \<open>
  C4: closing gives the connection back. In every such state without a panic, in which the reader was not lost to
  an extended query on the busy connection, \<open>Close\<close> of the reader or the pipeline that has the connection
  returns, however much of it was read, and leaves the connection idle or closed: the next command is not refused
  because the connection is busy.
\<close>

theorem close_releases:
  assumes "conn_reach a pc" and "pc_panics pc = []" and "a \<noteq> Orphaned"
  shows "pc_status (close_owner a pc) \<in> {connStatusIdle, connStatusClosed}
    \<and> fst (conn_lock (close_owner a pc)) \<noteq> Some (ConnLockErr ''conn busy'') \<and> conn_reach a (close_owner a pc)"
proof -
  have s0: "conn_session a pc" using conn_reach_session [OF assms(1)] assms(2) by (auto simp: unlock_panic_def)
  note s = close_owner_session [OF s0]
  then have st: "pc_status (close_owner a pc) \<in> {connStatusIdle, connStatusClosed}"
    using session_owner(1) assms(3) by (auto simp: conn_session_def)
  have "conn_reach a (close_owner a pc)"
    using close_owner_step [OF _ s0] conn_reach.step [OF assms(1,2)] assms(1)
    by (cases "a = Free") (auto simp: close_owner_def)
  with st show ?thesis by (auto simp: conn_lock_def)
qed

theorem close_releases_witness:
  "\<exists>pc pc'. Construct (demo_hc [([90, 0, 0], None), ([0, 5, 73], Some EOF)]) init_pools = Inr pc
     \<and> PgConn_Exec demo_ctx [59] pc = (Attached, pc') \<and> pc_status pc' = connStatusBusy
     \<and> pc_status (snd (MultiResultReader_Close pc')) \<in> {connStatusIdle, connStatusClosed}"
proof -
  have r: "proper_reader [([90, 0, 0], None), ([0, 5, 73], Some EOF)]" by (simp add: proper_reader_def)
  obtain pc where pc: "Construct (demo_hc [([90, 0, 0], None), ([0, 5, 73], Some EOF)]) init_pools = Inr pc"
    by (rule Construct_ok [OF wf_init_pools, of "demo_hc [([90, 0, 0], None), ([0, 5, 73], Some EOF)]"])
      (use r in \<open>simp_all add: demo_hc_def\<close>)
  from demo_exec [OF pc r] obtain pc' where "PgConn_Exec demo_ctx [59] pc = (Attached, pc')"
    "pc_status pc' = connStatusBusy" "pc_panics pc' = []" "conn_reach Multi pc'" by blast
  with pc close_releases [of Multi pc'] show ?thesis by (auto simp: close_owner_def)
qed


section \<open>Behaviour worth knowing\<close>

text \<open>
  \<open>execExtendedPrefix\<close> replaces the reader before it takes the lock. On a busy connection it is then refused, but
  the reader that had the connection is lost: \<open>Close\<close> of the same pointer finds a closed reader, and the
  connection stays busy.
\<close>

lemma busy_extended_query_strands:
  assumes "pc_status pc = connStatusBusy"
  shows "rr_closed (pc_resultReader (PgConn_ExecParams c sql pv oids pf rf pc))
    \<and> snd (ResultReader_Close (PgConn_ExecParams c sql pv oids pf rf pc)) = PgConn_ExecParams c sql pv oids pf rf pc
    \<and> pc_status (PgConn_ExecParams c sql pv oids pf rf pc) = connStatusBusy"
  using assms by (simp add: exec_extended_busy [OF assms] ResultReader_Close_def)

text \<open>
  \<open>StartPipeline\<close> replaces the reader by one without a connection: a reader that was closed before and is asked
  for a row again, through the pointer the client has kept, now panics.
\<close>

lemma stale_reader_panics:
  assumes "StartPipeline c pc = (PipelineAttached, pc')" and "pc_panics pc' = []"
  shows "pc_panics (snd (NextRow pc')) = [''nil pointer dereference'']"
proof -
  have "pc_resultReader pc' = zero_ResultReader\<lparr>rr_closed := True\<rparr>"
    using assms(1) by (auto simp: StartPipeline_def conn_lock_def ctx_begin_def ctx_Watch_def
        split: connStatus.splits prod.splits option.splits if_splits)
  then show ?thesis
    using assms(2)
    by (simp add: NextRow_def NextRow_loop.simps [of pc'] rr_receiveMessage_def zero_ResultReader_def conn_panic_def)
qed

end
