(* ===== verification/Pgconn_Query.thy ===== *)
theory Pgconn_Query
  imports Pgconn_Flow Pgconn_Props
begin

text \<open>
  What queries return: the rows, the columns, the tag and the error that the server sent, whatever else comes
  between the messages of its answer.
\<close>

section \<open>A connection to a server that has sent its messages\<close>

lemma Construct_delivers:
  assumes "Construct hc ps = Inr pc" and "wf_pools ps" and "reliable_reader (hc_r hc)"
    and "\<forall>m\<in>set ms. wf_BackendMessage m" and "ep_wbuf b = []" and "w_out (ep_w b) = []"
    and "Backend_Flush (fold Backend_Send ms b) = (None, b')" and "reader_bytes (hc_r hc) = w_out (ep_w b')"
  shows "conn_delivers pc ms"
proof -
  obtain fs where fs: "w_out (ep_w b') = wires fs" "list_all2 (decodes_to TYPE(chunkReader Frontend)) fs ms"
    "\<forall>(t, b)\<in>set fs. length b + 4 \<le> maxMessageBodyLen"
    using assms(4-7) by (rule server_flush_frames)
  obtain f where f: "NewFrontend (hc_r hc) (hc_w hc) ps = Inr f"
    and pc: "pc_frontend pc = f" "pc_peekedMsg pc = None" "\<not> pc_bufferingReceive pc"
    using assms(1) by (cases "NewFrontend (hc_r hc) (hc_w hc) ps") (auto simp: Construct_def)
  have "reader_bytes (hc_r hc) = wires fs" using assms(8) fs(1) by simp
  from NewFrontend_expects [OF assms(2) reliable_proper [OF assms(3)] f this fs(2,3)] pc assms(3) show ?thesis
    by (simp add: conn_delivers_def)
qed

text \<open>A query whose answer has been sent, over a writer that takes everything.\<close>

lemma demo_runs:
  assumes "Construct (demo_hc r) init_pools = Inr pc" and "reliable_reader r"
    and "\<forall>m\<in>set ms. wf_BackendMessage m"
    and "Backend_Flush (fold Backend_Send ms idle_endpoint) = (None, b')" and "reader_bytes r = w_out (ep_w b')"
    and "ep_encodeError (g (pc_frontend pc)) = None" and "sends g"
  shows "can_run demo_ctx g ms pc"
proof -
  have "conn_delivers pc ms"
    by (rule Construct_delivers [OF assms(1) wf_init_pools _ assms(3) _ _ assms(4)])
      (simp_all add: demo_hc_def assms(2,5) idle_endpoint_def quiet_writer_def)
  moreover obtain f where f: "NewFrontend r quiet_writer init_pools = Inr f" "pc_frontend pc = f" "pc_status pc = connStatusIdle"
    "\<not> pc_watching pc" "pc_peekedMsg pc = None" "pc_OnPgError pc = None"
    using assms(1) by (cases "NewFrontend r quiet_writer init_pools") (auto simp: Construct_def demo_hc_def)
  moreover have "ep_w f = quiet_writer" using f(1) by (cases "newChunkReader r 0 init_pools") (auto simp: NewFrontend_def)
  moreover obtain b e where "g f = f\<lparr>ep_wbuf := b, ep_encodeError := e\<rparr>" using assms(7) unfolding sends_def by blast
  ultimately show ?thesis using assms(6)
    by (simp add: can_run_def demo_ctx_def Frontend_Flush_def endpoint_write_def writer_Write_def quiet_writer_def)
qed

lemma demo_answer:
  "Backend_Flush (fold Backend_Send [BM_BindComplete, BM_RowDescription \<lparr>rd_Fields = []\<rparr>, BM_DataRow [], BM_NoData,
       BM_CommandComplete \<lparr>cc_CommandTag = [83]\<rparr>, BM_ReadyForQuery \<lparr>rfq_TxStatus = 84\<rparr>] idle_endpoint) =
     (None, idle_endpoint\<lparr>ep_w := \<lparr>w_out = [50, 0, 0, 0, 4, 84, 0, 0, 0, 6, 0, 0, 68, 0, 0, 0, 6, 0, 0, 110, 0, 0, 0, 4,
       67, 0, 0, 0, 6, 83, 0, 90, 0, 0, 0, 5, 84], w_script = []\<rparr>\<rparr>)"
  by (simp add: idle_defs Backend_Flush_def Backend_Send_def BindComplete_Encode_def NoData_Encode_def
      ReadyForQuery_Encode_def rowDescription.encode dataRow.encode commandComplete.encode frame_def no_nul_def
      maxMessageBodyLen_def AppendUint32_def AppendUint16_def)

definition demo_reader :: reader where
  "demo_reader = [([50, 0, 0, 0, 4, 84, 0, 0, 0, 6, 0, 0, 68], None), ([0, 0, 0, 6, 0, 0, 110, 0, 0, 0, 4,
       67, 0, 0, 0, 6, 83, 0, 90, 0, 0, 0, 5, 84], None)]"

lemma demo_send: "ep_encodeError (send_prepared [115] [Some [49]] [] [] f) = ep_encodeError f"
  by (simp add: send_prepared_def bind_msg_def SendSync_def SendExecute_def SendDescribe_def SendBind_def endpoint_Send_def
      syncm.encode execute.encode describe.encode bind.encode frame_def no_nul_def maxMessageBodyLen_def wf_Bind_def
      wf_value_def Bind_body_def put_value_def)

lemma demo_send_statement: "ep_encodeError (send_statement [115] [Some [49]] [] [1] f) = ep_encodeError f"
  by (simp add: send_statement_def bind_msg_def SendSync_def SendExecute_def SendBind_def endpoint_Send_def
      syncm.encode execute.encode bind.encode frame_def no_nul_def maxMessageBodyLen_def wf_Bind_def
      wf_value_def Bind_body_def put_value_def)

section \<open>Properties\<close>

text \<open>
  C5: queries of the extended protocol. On an idle connection whose server answers an \<open>ExecParams\<close> or
  \<open>ExecPrepared\<close> with an optional description of the columns, rows, the end of the command or an error, perhaps a
  late error, and \<open>ReadyForQuery\<close>, with any notices, notifications, parameter changes and other messages in
  between, \<open>Read\<close> returns exactly these rows in order, the described columns, the tag and the error. The connection
  is idle again with the transaction status of the server, no byte after the answer has been consumed, and exactly
  the messages of the query have been written.
\<close>

theorem extended_query_results:
  assumes "cmd = PgConn_ExecParams c sql pv oids pf rf \<and> g = send_params sql pv oids pf rf
      \<or> cmd = PgConn_ExecPrepared c name pv pf rf \<and> g = send_prepared name pv pf rf"
    and "can_run c g (ms @ rest) pc" and "length pv \<le> 65535"
    and "filter significant ms = desc_msgs desc @ map BM_DataRow rows @ m # late_msgs late @ [BM_ReadyForQuery z]"
    and "desc = None \<longrightarrow> rows = []" and "concluding m" and "last ms = BM_ReadyForQuery z"
  shows "\<exists>pc'. ResultReader_Read (cmd pc) =
      (answer_result (case desc of None \<Rightarrow> [] | Some d \<Rightarrow> convertRowDescription d) rows m late, pc')
    \<and> idle_again pc' rest \<and> pc_txStatus pc' = rfq_TxStatus z
    \<and> ep_w (pc_frontend pc') = ep_w (snd (Frontend_Flush (g (pc_frontend pc))))"
proof -
  have "cmd pc = readUntilRowDescription None [] (started c g (pc\<lparr>pc_resultReader := new_ResultReader c\<rparr>))"
    using assms(1-3) exec_reads(1,2) by blast
  moreover have "sends g" using assms(1) sends_commands by blast
  ultimately show ?thesis using described_results [OF assms(2) _ assms(4-7)] by simp
qed

theorem extended_query_results_witness:
  "\<exists>pc pc'. Construct (demo_hc demo_reader) init_pools = Inr pc
     \<and> ResultReader_Read (PgConn_ExecPrepared demo_ctx [115] [Some [49]] [] [] pc) =
         (\<lparr>res_FieldDescriptions = Some [], res_Rows = [[]], res_CommandTag = makeCommandTag [83], res_Err = None\<rparr>, pc')
     \<and> pc_status pc' = connStatusIdle \<and> pc_txStatus pc' = 84"
proof -
  let ?ms = "[BM_BindComplete, BM_RowDescription \<lparr>rd_Fields = []\<rparr>, BM_DataRow [], BM_NoData,
       BM_CommandComplete \<lparr>cc_CommandTag = [83]\<rparr>, BM_ReadyForQuery \<lparr>rfq_TxStatus = 84\<rparr>]"
  have r: "reliable_reader demo_reader" by (simp add: demo_reader_def reliable_reader_def)
  obtain pc where pc: "Construct (demo_hc demo_reader) init_pools = Inr pc"
    by (rule Construct_ok [OF wf_init_pools, of "demo_hc demo_reader"]) (use reliable_proper [OF r] in \<open>simp_all add: demo_hc_def\<close>)
  have "ep_encodeError (pc_frontend pc) = None" using pc
    by (cases "newChunkReader demo_reader 0 init_pools") (auto simp: Construct_def NewFrontend_def demo_hc_def)
  then have run: "can_run demo_ctx (send_prepared [115] [Some [49]] [] []) (?ms @ []) pc"
    using demo_runs [OF pc r _ demo_answer _ _ sends_commands(2)]
    by (simp add: demo_send no_nul_def reader_bytes_def demo_reader_def)
  from extended_query_results [OF disjI2 [OF conjI [OF refl refl]] run, of "Some \<lparr>rd_Fields = []\<rparr>" "[[]]"
      "BM_CommandComplete \<lparr>cc_CommandTag = [83]\<rparr>" None "\<lparr>rfq_TxStatus = 84\<rparr>"] pc
  show ?thesis
    by (auto simp: desc_msgs_def late_msgs_def answer_result_def final_err_def convertRowDescription_def idle_again_def)
qed

text \<open>
  C8: queries of a described statement. \<open>ExecStatement\<close> does not ask for the columns again. When the server answers
  with rows, the end of the command or an error, perhaps a late error, and \<open>ReadyForQuery\<close>, with any other messages
  in between, \<open>Read\<close> returns all the rows, the one kept while the columns were loaded included, and the columns
  are those of the statement in the formats that were asked for.
\<close>

theorem statement_query_results:
  assumes "can_run c (send_statement (sd_Name sd) pv pf rf) (ms @ rest) pc" and "length pv \<le> 65535"
    and "combineFieldDescriptionsAndResultFormats (sd_Fields sd) rf = Inr fds"
    and "filter significant ms = map BM_DataRow rows @ m # late_msgs late @ [BM_ReadyForQuery z]"
    and "concluding m" and "last ms = BM_ReadyForQuery z"
  shows "\<exists>pc'. ResultReader_Read (PgConn_ExecStatement c sd pv pf rf pc) = (answer_result fds rows m late, pc')
    \<and> idle_again pc' rest \<and> pc_txStatus pc' = rfq_TxStatus z"
  using statement_results [OF assms(1) sends_commands(3) assms(4,3,5,6)] exec_reads(3) [OF assms(1,2)] by metis

definition demo_statement :: StatementDescription where
  "demo_statement = \<lparr>sd_Name = [115], sd_SQL = [], sd_ParamOIDs = [23],
     sd_Fields = [\<lparr>col_Name = [97], col_TableOID = 0, col_TableAttributeNumber = 0, col_DataTypeOID = 23, col_DataTypeSize = 4,
       col_TypeModifier = 0, col_Format = 0\<rparr>]\<rparr>"

definition demo_rows :: reader where
  "demo_rows = [([50, 0, 0, 0, 4, 68], None), ([0, 0, 0, 11, 0, 1, 0, 0, 0, 1, 53,
       67, 0, 0, 0, 6, 83, 0, 90, 0, 0, 0, 5, 73], None)]"

lemma demo_rows_sent:
  "Backend_Flush (fold Backend_Send [BM_BindComplete, BM_DataRow [Some [53]],
       BM_CommandComplete \<lparr>cc_CommandTag = [83]\<rparr>, BM_ReadyForQuery \<lparr>rfq_TxStatus = 73\<rparr>] idle_endpoint) =
     (None, idle_endpoint\<lparr>ep_w := \<lparr>w_out = reader_bytes demo_rows, w_script = []\<rparr>\<rparr>)"
  by (simp add: idle_defs Backend_Flush_def Backend_Send_def BindComplete_Encode_def demo_rows_def reader_bytes_def
      ReadyForQuery_Encode_def dataRow.encode commandComplete.encode frame_def no_nul_def
      maxMessageBodyLen_def AppendUint32_def AppendUint16_def wf_value_def put_value_def)

theorem statement_query_results_witness:
  "\<exists>pc pc'. Construct (demo_hc demo_rows) init_pools = Inr pc
     \<and> ResultReader_Read (PgConn_ExecStatement demo_ctx demo_statement [Some [49]] [] [1] pc) =
         (\<lparr>res_FieldDescriptions = Some (map (\<lambda>f. f\<lparr>col_Format := 1\<rparr>) (sd_Fields demo_statement)), res_Rows = [[Some [53]]],
           res_CommandTag = makeCommandTag [83], res_Err = None\<rparr>, pc')
     \<and> pc_status pc' = connStatusIdle"
proof -
  let ?ms = "[BM_BindComplete, BM_DataRow [Some [53]], BM_CommandComplete \<lparr>cc_CommandTag = [83]\<rparr>, BM_ReadyForQuery \<lparr>rfq_TxStatus = 73\<rparr>]"
  have r: "reliable_reader demo_rows" by (simp add: demo_rows_def reliable_reader_def)
  obtain pc where pc: "Construct (demo_hc demo_rows) init_pools = Inr pc"
    by (rule Construct_ok [OF wf_init_pools, of "demo_hc demo_rows"]) (use reliable_proper [OF r] in \<open>simp_all add: demo_hc_def\<close>)
  have "ep_encodeError (pc_frontend pc) = None" using pc
    by (cases "newChunkReader demo_rows 0 init_pools") (auto simp: Construct_def NewFrontend_def demo_hc_def)
  then have run: "can_run demo_ctx (send_statement (sd_Name demo_statement) [Some [49]] [] [1]) (?ms @ []) pc"
    using demo_runs [OF pc r _ demo_rows_sent _ _ sends_commands(3)]
    by (simp add: demo_send_statement demo_statement_def wf_value_def no_nul_def)
  from statement_query_results [OF run, of _ "[[Some [53]]]" "BM_CommandComplete \<lparr>cc_CommandTag = [83]\<rparr>" None "\<lparr>rfq_TxStatus = 73\<rparr>"] pc
  show ?thesis
    by (auto simp: late_msgs_def answer_result_def final_err_def idle_again_def combineFieldDescriptionsAndResultFormats_def)
qed

end
