(* ===== verification/Pgconn_Answers.thy ===== *)
theory Pgconn_Answers
  imports Pgconn_Query
begin

text \<open>
  The answers to several statements in one simple query, and to the other commands that wait for the server:
  \<open>Prepare\<close> and \<open>Deallocate\<close>.
\<close>

section \<open>Several results\<close>

text \<open>What the reader of several results does with one message.\<close>

lemma peek_live:
  assumes "conn_live pc (m # ms)"
  obtains pc1 where "peekMessage pc = (Inr m, pc1)" and "conn_live pc1 (m # ms)" and "still pc pc1"
    and "pc_txStatus pc1 = pc_txStatus pc"
proof -
  obtain f where f: "peekMessage pc = (Inr m, pc\<lparr>pc_frontend := f, pc_peekedMsg := Some m\<rparr>)"
    "conn_delivers (pc\<lparr>pc_frontend := f, pc_peekedMsg := Some m\<rparr>) (m # ms)"
    using peekMessage_delivers [of pc m ms] assms unfolding conn_live_def by blast
  have "conn_live (pc\<lparr>pc_frontend := f, pc_peekedMsg := Some m\<rparr>) (m # ms)"
    using f(2) assms by (simp add: conn_live_def) blast
  moreover have "still pc (pc\<lparr>pc_frontend := f, pc_peekedMsg := Some m\<rparr>)"
    using peekMessage_frame [OF f(1)] by (simp add: receive_frame_def still_def)
  ultimately show ?thesis using f(1) by (intro that [of "pc\<lparr>pc_frontend := f, pc_peekedMsg := Some m\<rparr>"]) simp_all
qed

definition mrr_open :: "PgConn \<Rightarrow> bool" where
  "mrr_open pc \<longleftrightarrow> \<not> mrr_closed (pc_multiResultReader pc) \<and> mrr_err (pc_multiResultReader pc) = None"

lemma NextResult_quiet:
  assumes "conn_live pc (m # ms)" and "mrr_open pc" and "\<not> (\<exists>v. m = BM_DataRow v)" and "\<not> (\<exists>x. m = BM_ReadyForQuery x)"
    and "\<not> (\<exists>e. m = BM_ErrorResponse e)"
  obtains pc1 where "NextResult pc = (case start_result m pc1 of Some pc3 \<Rightarrow> (True, pc3) | None \<Rightarrow> NextResult pc1)"
    and "conn_live pc1 ms" and "still pc pc1" and "pc_txStatus pc1 = pc_txStatus pc"
proof -
  obtain pc0 where p: "peekMessage pc = (Inr m, pc0)" "conn_live pc0 (m # ms)" "still pc pc0" "pc_txStatus pc0 = pc_txStatus pc"
    by (rule peek_live [OF assms(1)])
  obtain pc1 where r: "mrr_receiveMessage pc0 = (Inr m, pc1)" "conn_live pc1 ms" "still pc0 pc1" "pc_txStatus pc1 = pc_txStatus pc0"
    by (rule mrr_live [OF p(2) assms(4,5)])
  have "DataRow_of m = None" using assms(3) by (cases m) simp_all
  then show ?thesis using assms(2) p r(2,4) still_trans [OF p(3) r(3)]
    by (intro that [of pc1]) (simp_all add: NextResult.simps [of pc] mrr_open_def r(1))
qed

lemma start_result_quiet: "\<not> significant m \<Longrightarrow> start_result m pc = None"
  by (cases m) (simp_all add: start_result_def Let_def)

lemma NextResult_skip:
  assumes "conn_live pc (ms @ rest)" and "filter significant ms = m # sig" and "mrr_open pc"
  obtains pc1 ms1 where "NextResult pc = NextResult pc1" and "conn_live pc1 (m # ms1 @ rest)" and "filter significant ms1 = sig"
    and "still pc pc1" and "pc_txStatus pc1 = pc_txStatus pc" and "last (m # ms1) = last ms"
proof -
  have "\<exists>pc1 ms1. NextResult pc = NextResult pc1 \<and> conn_live pc1 (m # ms1 @ rest) \<and> filter significant ms1 = sig
    \<and> still pc pc1 \<and> pc_txStatus pc1 = pc_txStatus pc \<and> last (m # ms1) = last ms"
    using assms
  proof (induction ms arbitrary: pc)
    case (Cons x ms)
    show ?case
    proof (cases "significant x")
      case True
      with Cons.prems show ?thesis by (intro exI [of _ pc] exI [of _ ms]) simp
    next
      case False
      obtain pc1 where r: "NextResult pc = (case start_result x pc1 of Some pc3 \<Rightarrow> (True, pc3) | None \<Rightarrow> NextResult pc1)"
        "conn_live pc1 (ms @ rest)" "still pc pc1" "pc_txStatus pc1 = pc_txStatus pc"
        by (rule NextResult_quiet [of pc x "ms @ rest"]) (use Cons.prems(1,3) False in auto)
      have fl: "filter significant ms = m # sig" using Cons.prems(2) False by simp
      have "mrr_open pc1" using r(3) Cons.prems(3) by (simp add: still_def mrr_open_def)
      from Cons.IH [OF r(2) fl this] obtain pc2 ms2 where p2: "NextResult pc1 = NextResult pc2"
        "conn_live pc2 (m # ms2 @ rest)" "filter significant ms2 = sig" "still pc1 pc2"
        "pc_txStatus pc2 = pc_txStatus pc1" "last (m # ms2) = last ms" by blast
      have "NextResult pc = NextResult pc2" using r(1) p2(1) by (simp add: start_result_quiet [OF False])
      moreover have "ms \<noteq> []" using fl by auto
      ultimately show ?thesis
        using p2 r(4) still_trans [OF r(3) p2(4)] by (intro exI [of _ pc2] exI [of _ ms2]) simp
    qed
  qed simp
  then show ?thesis using that by blast
qed

text \<open>A message that starts a result.\<close>

lemma NextResult_starts:
  assumes "conn_live pc (ms @ rest)" and "filter significant ms = m # sig" and "mrr_open pc" and "sig \<noteq> []"
    and "(\<exists>d. m = BM_RowDescription d) \<or> concluding m" and "\<not> (\<exists>e. m = BM_ErrorResponse e)"
  obtains pc1 pc2 ms1 where "NextResult pc = (True, pc2)" and "start_result m pc1 = Some pc2" and "conn_live pc1 (ms1 @ rest)"
    and "filter significant ms1 = sig" and "still pc pc1" and "pc_txStatus pc1 = pc_txStatus pc" and "last ms1 = last ms"
proof -
  obtain pc0 ms0 where s: "NextResult pc = NextResult pc0" "conn_live pc0 (m # ms0 @ rest)" "filter significant ms0 = sig"
    "still pc pc0" "pc_txStatus pc0 = pc_txStatus pc" "last (m # ms0) = last ms"
    by (rule NextResult_skip [OF assms(1-3)])
  have "mrr_open pc0" using s(4) assms(3) by (simp add: still_def mrr_open_def)
  then obtain pc1 where r: "NextResult pc0 = (case start_result m pc1 of Some pc3 \<Rightarrow> (True, pc3) | None \<Rightarrow> NextResult pc1)"
    "conn_live pc1 (ms0 @ rest)" "still pc0 pc1" "pc_txStatus pc1 = pc_txStatus pc0"
    by (rule NextResult_quiet [OF s(2)]) (use assms(5,6) in auto)
  obtain pc2 where pc2: "start_result m pc1 = Some pc2"
    using assms(5,6) by (cases m) (simp_all add: start_result_def Let_def)
  have "last ms0 = last ms" using s(3,6) assms(4) by (cases ms0) auto
  with s r pc2 still_trans [OF s(4) r(3)] show ?thesis by (intro that [of pc2 pc1 ms0]) simp_all
qed

text \<open>The end: \<open>ReadyForQuery\<close>, or an error that ends the whole query.\<close>

lemma mrr_ready:
  assumes "conn_live pc (BM_ReadyForQuery z # rest)"
  obtains pc1 where "mrr_receiveMessage pc = (Inr (BM_ReadyForQuery z), pc1)" and "idle_again pc1 rest"
    and "pc_txStatus pc1 = rfq_TxStatus z" and "pc_multiResultReader pc1 = (pc_multiResultReader pc)\<lparr>mrr_closed := True\<rparr>"
    and "ep_w (pc_frontend pc1) = ep_w (pc_frontend pc)"
proof -
  obtain pc0 where r: "receiveMessage pc = (Inr (BM_ReadyForQuery z), pc0)" "conn_live pc0 rest" "still pc pc0" "pc_peekedMsg pc0 = None"
    "pc_txStatus pc0 = tx_after (BM_ReadyForQuery z) (pc_txStatus pc)" by (rule receive_live [OF assms])
  let ?pc = "upd_mrr (\<lambda>mrr. mrr\<lparr>mrr_closed := True\<rparr>) pc0"
  have "idle_again (conn_unlock (ctx_Unwatch ?pc)) rest" by (rule idle_unlock) (use r in simp_all)
  then show ?thesis using r
    by (intro that [of "conn_unlock (ctx_Unwatch ?pc)"]) (simp_all add: mrr_receiveMessage_def tx_after_def still_def)
qed

lemma mrr_error:
  assumes "conn_live pc (BM_ErrorResponse e # ms)"
  obtains pc1 where "mrr_receiveMessage pc = (Inr (BM_ErrorResponse e), pc1)" and "conn_live pc1 ms"
    and "pc_multiResultReader pc1 = (pc_multiResultReader pc)\<lparr>mrr_err := Some (PgErr (ErrorResponseToPgError e))\<rparr>"
    and "ep_w (pc_frontend pc1) = ep_w (pc_frontend pc)"
proof -
  obtain pc0 where r: "receiveMessage pc = (Inr (BM_ErrorResponse e), pc0)" "conn_live pc0 ms" "still pc pc0" "pc_peekedMsg pc0 = None"
    "pc_txStatus pc0 = tx_after (BM_ErrorResponse e) (pc_txStatus pc)" by (rule receive_live [OF assms])
  then show ?thesis
    by (intro that [of "upd_mrr (\<lambda>mrr. mrr\<lparr>mrr_err := Some (PgErr (ErrorResponseToPgError e))\<rparr>) pc0"])
      (simp_all add: mrr_receiveMessage_def still_def)
qed

lemma mrr_Close_ready:
  assumes "conn_live pc (ms @ rest)" and "filter significant ms = [BM_ReadyForQuery z]" and "last ms = BM_ReadyForQuery z"
    and "\<not> mrr_closed (pc_multiResultReader pc)"
  shows "\<exists>pc1. MultiResultReader_Close pc = (mrr_err (pc_multiResultReader pc), pc1)
    \<and> idle_again pc1 rest \<and> pc_txStatus pc1 = rfq_TxStatus z \<and> ep_w (pc_frontend pc1) = ep_w (pc_frontend pc)"
  using assms
proof (induction ms arbitrary: pc)
  case (Cons x ms)
  show ?case
  proof (cases "significant x")
    case True
    with Cons.prems(2,3) have x: "x = BM_ReadyForQuery z" "ms = []"
      by (auto simp: filter_empty_conv split: if_splits) (metis last_in_set significant.simps(6))
    obtain pc1 where r: "mrr_receiveMessage pc = (Inr (BM_ReadyForQuery z), pc1)" "idle_again pc1 rest"
      "pc_txStatus pc1 = rfq_TxStatus z" "pc_multiResultReader pc1 = (pc_multiResultReader pc)\<lparr>mrr_closed := True\<rparr>"
      "ep_w (pc_frontend pc1) = ep_w (pc_frontend pc)"
      by (rule mrr_ready [of pc z rest]) (use Cons.prems(1) x in simp)
    then show ?thesis using Cons.prems(4)
      by (intro exI [of _ pc1]) (simp add: MultiResultReader_Close.simps [of pc] MultiResultReader_Close.simps [of pc1])
  next
    case False
    obtain pc1 where r: "mrr_receiveMessage pc = (Inr x, pc1)" "conn_live pc1 (ms @ rest)" "still pc pc1"
      "pc_txStatus pc1 = pc_txStatus pc"
      by (rule mrr_live [of pc x "ms @ rest"]) (use Cons.prems(1) False in auto)
    have m: "filter significant ms = [BM_ReadyForQuery z]" "last ms = BM_ReadyForQuery z"
      using Cons.prems(2,3) False by (auto split: if_splits)
    have "\<not> mrr_closed (pc_multiResultReader pc1)" using r(3) Cons.prems(4) by (simp add: still_def)
    from Cons.IH [OF r(2) m this] r(1,3) Cons.prems(4) show ?thesis
      by (auto simp: MultiResultReader_Close.simps [of pc] still_def)
  qed
qed simp

text \<open>After the last result.\<close>

lemma ReadAll_end:
  assumes "conn_live pc (ms @ rest)" and "filter significant ms = late_msgs late @ [BM_ReadyForQuery z]"
    and "last ms = BM_ReadyForQuery z" and "mrr_open pc"
  obtains pc1 pc2 where "NextResult pc = (False, pc1)" and "MultiResultReader_Close pc1 = (final_err late None, pc2)"
    and "idle_again pc2 rest" and "pc_txStatus pc2 = rfq_TxStatus z" and "ep_w (pc_frontend pc2) = ep_w (pc_frontend pc)"
proof (cases late)
  case None
  obtain pc0 ms0 where s: "NextResult pc = NextResult pc0" "conn_live pc0 (BM_ReadyForQuery z # ms0 @ rest)"
    "filter significant ms0 = []" "still pc pc0" "last (BM_ReadyForQuery z # ms0) = last ms"
    by (rule NextResult_skip [OF assms(1) _ assms(4), of "BM_ReadyForQuery z" "[]"]) (use assms(2) None in \<open>simp add: late_msgs_def\<close>)
  have ms0: "ms0 = []"
  proof (rule ccontr)
    assume "ms0 \<noteq> []"
    with s(5) assms(3) have "BM_ReadyForQuery z \<in> set ms0" by (metis last.simps last_in_set)
    with s(3) show False by (auto simp: filter_empty_conv)
  qed
  obtain pc1 where p: "peekMessage pc0 = (Inr (BM_ReadyForQuery z), pc1)" "conn_live pc1 (BM_ReadyForQuery z # rest)" "still pc0 pc1"
    by (rule peek_live [OF s(2) [unfolded ms0 append_Nil]])
  obtain pc2 where r: "mrr_receiveMessage pc1 = (Inr (BM_ReadyForQuery z), pc2)" "idle_again pc2 rest"
      "pc_txStatus pc2 = rfq_TxStatus z" "pc_multiResultReader pc2 = (pc_multiResultReader pc1)\<lparr>mrr_closed := True\<rparr>"
      "ep_w (pc_frontend pc2) = ep_w (pc_frontend pc1)"
    by (rule mrr_ready [OF p(2)])
  have "NextResult pc = (False, pc2)" using s(1,4) p(1,3) r(1,4) assms(4)
    by (simp add: NextResult.simps [of pc0] NextResult.simps [of pc2] mrr_open_def still_def start_result_def)
  moreover have "MultiResultReader_Close pc2 = (final_err late None, pc2)" using None r(4) p(3) s(4) assms(4)
    by (simp add: MultiResultReader_Close.simps [of pc2] final_err_def mrr_open_def still_def)
  ultimately show ?thesis using r p(3) s(4) by (intro that [of pc2 pc2]) (simp_all add: still_def)
next
  case (Some e)
  obtain pc0 ms0 where s: "NextResult pc = NextResult pc0" "conn_live pc0 (BM_ErrorResponse e # ms0 @ rest)"
    "filter significant ms0 = [BM_ReadyForQuery z]" "still pc pc0" "last (BM_ErrorResponse e # ms0) = last ms"
    by (rule NextResult_skip [OF assms(1) _ assms(4), of "BM_ErrorResponse e" "[BM_ReadyForQuery z]"])
      (use assms(2) Some in \<open>simp add: late_msgs_def\<close>)
  obtain pc1 where p: "peekMessage pc0 = (Inr (BM_ErrorResponse e), pc1)" "conn_live pc1 (BM_ErrorResponse e # ms0 @ rest)" "still pc0 pc1"
    by (rule peek_live [OF s(2)])
  obtain pc2 where r: "mrr_receiveMessage pc1 = (Inr (BM_ErrorResponse e), pc2)" "conn_live pc2 (ms0 @ rest)"
    "pc_multiResultReader pc2 = (pc_multiResultReader pc1)\<lparr>mrr_err := Some (PgErr (ErrorResponseToPgError e))\<rparr>"
    "ep_w (pc_frontend pc2) = ep_w (pc_frontend pc1)"
    by (rule mrr_error [OF p(2)])
  have "NextResult pc = (False, pc2)" using s(1,4) p(1,3) r(1,3) assms(4)
    by (simp add: NextResult.simps [of pc0] NextResult.simps [of pc2] mrr_open_def still_def start_result_def)
  moreover have l: "last ms0 = BM_ReadyForQuery z" using s(3,5) assms(3) by (cases ms0) auto
  moreover have "\<not> mrr_closed (pc_multiResultReader pc2)" using r(3) p(3) s(4) assms(4) by (simp add: mrr_open_def still_def)
  ultimately show ?thesis using mrr_Close_ready [OF r(2) s(3)] r(3,4) p(3) s(4) Some
    by (auto intro!: that simp: final_err_def still_def)
qed

text \<open>
  The answer to one statement: a description of its columns and rows, if it has a result, and the message that
  ends it. The result that is read from it.
\<close>

type_synonym answer = "RowDescription option \<times> bytes option list list \<times> BackendMessage"

fun answer_msgs :: "answer \<Rightarrow> BackendMessage list" where
  "answer_msgs (desc, rows, m) = desc_msgs desc @ map BM_DataRow rows @ [m]"

fun wf_answer :: "answer \<Rightarrow> bool" where
  "wf_answer (desc, rows, m) \<longleftrightarrow> (desc = None \<longrightarrow> rows = []) \<and> concluding m \<and> conclusion_err m = None"

fun answered :: "answer \<Rightarrow> Result" where
  "answered (desc, rows, m) = answer_result (case desc of None \<Rightarrow> [] | Some d \<Rightarrow> convertRowDescription d) rows m None"

lemma wf_answer_no_error: "wf_answer (desc, rows, m) \<Longrightarrow> \<not> (\<exists>e. m = BM_ErrorResponse e)"
  by auto

text \<open>One result is read, and the reader of the results is ready for the next.\<close>

lemma one_result:
  assumes "conn_live pc (ms @ rest)" and "filter significant ms = answer_msgs a @ sig" and "sig \<noteq> []" and "mrr_open pc" and "wf_answer a"
  obtains pc1 pc2 ms2 where "NextResult pc = (True, pc1)" and "ResultReader_Read pc1 = (answered a, pc2)"
    and "conn_live pc2 (ms2 @ rest)" and "filter significant ms2 = sig" and "mrr_open pc2"
    and "last ms2 = last ms" and "ep_w (pc_frontend pc2) = ep_w (pc_frontend pc)"
proof -
  obtain desc rows m where a: "a = (desc, rows, m)" by (cases a)
  note no = wf_answer_no_error [OF assms(5) [unfolded a]]
  show ?thesis
  proof (cases desc)
    case None
    with assms(2,5) a have fl: "filter significant ms = m # sig" and m: "rows = []" "concluding m" by (simp_all add: desc_msgs_def)
    obtain pc1 pc2 ms1 where n: "NextResult pc = (True, pc2)" "start_result m pc1 = Some pc2" "conn_live pc1 (ms1 @ rest)"
      "filter significant ms1 = sig" "still pc pc1" "last ms1 = last ms"
      by (rule NextResult_starts [OF assms(1) fl assms(4,3)]) (use m no in auto)
    have pc2: "pc2 = upd_mrr (\<lambda>mrr. mrr\<lparr>mrr_rr := True\<rparr>) (pc1\<lparr>pc_resultReader :=
      zero_ResultReader\<lparr>rr_commandConcluded := True, rr_closed := True, rr_commandTag := conclusion_tag m\<rparr>\<rparr>)"
      using n(2) m(2) no by (cases m) (auto simp: start_result_def Let_def zero_ResultReader_def)
    have rr: "\<not> rr_preloaded (pc_resultReader pc2)" "rr_commandConcluded (pc_resultReader pc2)" "rr_closed (pc_resultReader pc2)"
      "rr_commandTag (pc_resultReader pc2) = conclusion_tag m" "rr_err (pc_resultReader pc2) = None"
      by (simp_all add: pc2 zero_ResultReader_def)
    have "Read_loop br pc2 = (br, pc2)" for br
      using rr by (simp add: Read_loop.simps [of br pc2] NextRow_def NextRow_loop.simps [of pc2])
    then have "ResultReader_Read pc2 = (answered a, pc2)"
      using a None m(1) assms(5) rr by (simp add: ResultReader_Read_def ResultReader_Close_def answer_result_def final_err_def)
    with n(1) show ?thesis
      by (rule that [of pc2 pc2 ms1]) (use n(3-6) assms(4) pc2 in \<open>simp_all add: mrr_open_def still_def\<close>)
  next
    case (Some d)
    with assms(2,5) a have fl: "filter significant ms = BM_RowDescription d # map BM_DataRow rows @ m # sig" and m: "concluding m"
      by (simp_all add: desc_msgs_def)
    obtain pc1 pc2 ms1 where n: "NextResult pc = (True, pc2)" "start_result (BM_RowDescription d) pc1 = Some pc2" "conn_live pc1 (ms1 @ rest)"
      "filter significant ms1 = map BM_DataRow rows @ m # sig" "still pc pc1" "last ms1 = last ms"
      by (rule NextResult_starts [OF assms(1) fl assms(4)]) auto
    let ?c = "mrr_ctx (pc_multiResultReader pc1)"
    let ?rr = "(new_ResultReader ?c)\<lparr>rr_multiResultReader := True, rr_fieldDescriptions := convertRowDescription d\<rparr>"
    have pc2: "pc2 = upd_mrr (\<lambda>mrr. mrr\<lparr>mrr_rr := True\<rparr>) ((store_fields (convertRowDescription d) pc1)\<lparr>pc_resultReader := ?rr\<rparr>)"
      using n(2) by (simp add: start_result_def Let_def)
    have rr: "pc_resultReader pc2 = ?rr" by (simp add: pc2)
    have live: "conn_live pc2 (ms1 @ rest)" using n(3) by (simp add: pc2)
    obtain pc3 ms3 v where r: "Read_loop empty_result pc2 = (with_rows (rr_fieldDescriptions (pc_resultReader pc2)) rows empty_result, pc3)"
      "conn_live pc3 (ms3 @ rest)" "filter significant ms3 = sig"
      "pc_resultReader pc3 = rr_step m ((pc_resultReader pc2)\<lparr>rr_rowValues := v\<rparr>)" "others pc2 pc3"
      "sig \<noteq> [] \<longrightarrow> last ms3 = last ms1"
      by (rule Read_rows [OF live n(4) m]) (use no in \<open>simp_all add: rr new_ResultReader_def\<close>)
    have e: "rr_commandTag (pc_resultReader pc3) = conclusion_tag m" "rr_err (pc_resultReader pc3) = None"
      "rr_commandConcluded (pc_resultReader pc3)" "\<not> rr_closed (pc_resultReader pc3)" "rr_multiResultReader (pc_resultReader pc3)"
      using r(4) concluding_effect [OF m, of "?rr\<lparr>rr_rowValues := v\<rparr>"] concluding_step [OF m] assms(5) a
      by (simp_all add: rr new_ResultReader_def)
    let ?pc = "upd_rr (\<lambda>rr. rr\<lparr>rr_closed := True\<rparr>) pc3"
    have "ResultReader_Close pc3 = ((conclusion_tag m, None), ?pc)"
      using e by (simp add: ResultReader_Close_def Close_loop.simps [of ?pc])
    then have "ResultReader_Read pc2 = (answered a, ?pc)"
      unfolding ResultReader_Read_def empty_result_def [symmetric] Let_def r(1)
      using assms(5) a Some by (simp add: rr with_rows_def empty_result_def answer_result_def final_err_def new_ResultReader_def)
    with n(1) show ?thesis
      by (rule that [of pc2 ?pc ms3])
        (use r(2,3,5,6) n(5,6) assms(3,4) in \<open>simp_all add: mrr_open_def still_def others_def pc2 store_fields_def\<close>)
  qed
qed

lemma ReadAll_answers:
  assumes "conn_live pc (ms @ rest)" and "filter significant ms = concat (map answer_msgs as) @ late_msgs late @ [BM_ReadyForQuery z]"
    and "last ms = BM_ReadyForQuery z" and "mrr_open pc" and "list_all wf_answer as"
  shows "\<exists>pc1 pc2. ReadAll_loop rs pc = (rs @ map answered as, pc1) \<and> MultiResultReader_Close pc1 = (final_err late None, pc2)
    \<and> idle_again pc2 rest \<and> pc_txStatus pc2 = rfq_TxStatus z \<and> ep_w (pc_frontend pc2) = ep_w (pc_frontend pc)"
  using assms
proof (induction as arbitrary: pc ms rs)
  case Nil
  then have fl: "filter significant ms = late_msgs late @ [BM_ReadyForQuery z]" by simp
  obtain pc1 pc2 where "NextResult pc = (False, pc1)" "MultiResultReader_Close pc1 = (final_err late None, pc2)"
    "idle_again pc2 rest" "pc_txStatus pc2 = rfq_TxStatus z" "ep_w (pc_frontend pc2) = ep_w (pc_frontend pc)"
    by (rule ReadAll_end [OF Nil.prems(1) fl Nil.prems(3,4)])
  then show ?case by (intro exI [of _ pc1] exI [of _ pc2]) (simp add: ReadAll_loop.simps [of rs pc])
next
  case (Cons a as)
  let ?sig = "concat (map answer_msgs as) @ late_msgs late @ [BM_ReadyForQuery z]"
  have fl: "filter significant ms = answer_msgs a @ ?sig" and wf: "wf_answer a" "list_all wf_answer as"
    using Cons.prems(2,5) by simp_all
  obtain pc1 pc2 ms2 where n: "NextResult pc = (True, pc1)" "ResultReader_Read pc1 = (answered a, pc2)"
    "conn_live pc2 (ms2 @ rest)" "filter significant ms2 = ?sig" "mrr_open pc2" "last ms2 = last ms"
    "ep_w (pc_frontend pc2) = ep_w (pc_frontend pc)"
    by (rule one_result [OF Cons.prems(1) fl _ Cons.prems(4) wf(1)]) simp
  have "ReadAll_loop rs pc = ReadAll_loop (rs @ [answered a]) pc2"
    using n(1,2) by (simp add: ReadAll_loop.simps [of rs pc])
  with Cons.IH [OF n(3,4) _ n(5) wf(2), of "rs @ [answered a]"] n(6,7) Cons.prems(3) show ?case by simp
qed

lemma Exec_started:
  assumes "can_run c (SendQuery \<lparr>query_String = sql\<rparr>) ms pc"
  shows "PgConn_Exec c sql pc = (Attached, (started c (SendQuery \<lparr>query_String = sql\<rparr>) pc)\<lparr>pc_multiResultReader := new_MultiResultReader c\<rparr>)"
proof -
  let ?pc = "pc\<lparr>pc_status := connStatusBusy, pc_multiResultReader := new_MultiResultReader c,
    pc_watching := (\<not> ctx_Background c \<and> ctx_cancellable c)\<rparr>"
  have "conn_lock pc = (None, pc\<lparr>pc_status := connStatusBusy\<rparr>)" using assms by (simp add: can_run_def conn_lock_def)
  moreover have "ctx_begin c (pc\<lparr>pc_status := connStatusBusy, pc_multiResultReader := new_MultiResultReader c\<rparr>) = (None, ?pc)"
    using assms by (auto simp: can_run_def ctx_begin_def ctx_Watch_def)
  moreover have "conn_flush (fe_send (SendQuery \<lparr>query_String = sql\<rparr>) ?pc) =
      (None, ?pc\<lparr>pc_frontend := snd (Frontend_Flush (SendQuery \<lparr>query_String = sql\<rparr> (pc_frontend pc)))\<rparr>)"
    using assms by (simp add: can_run_def fe_send_def conn_flush_sent)
  ultimately have "PgConn_Exec c sql pc = (Attached, ?pc\<lparr>pc_frontend := snd (Frontend_Flush (SendQuery \<lparr>query_String = sql\<rparr> (pc_frontend pc)))\<rparr>)"
    by (simp add: PgConn_Exec_def)
  then show ?thesis by (simp add: started_def)
qed

lemma sends_query: "sends (SendQuery q)"
  unfolding SendQuery_def [abs_def] by (rule sends_then [OF sends_id])

section \<open>Commands that wait for the end of the answer\<close>

text \<open>Such a command locks the connection, sends, reads in a loop, and unlocks.\<close>

lemma run_started:
  assumes "can_run c g ms pc"
  shows "run_command c g body pc = finish_command c (body (started c g pc))"
proof -
  let ?pc = "pc\<lparr>pc_status := connStatusBusy, pc_watching := (\<not> ctx_Background c \<and> ctx_cancellable c)\<rparr>"
  have "conn_lock pc = (None, pc\<lparr>pc_status := connStatusBusy\<rparr>)" using assms by (simp add: can_run_def conn_lock_def)
  moreover have "ctx_begin c (pc\<lparr>pc_status := connStatusBusy\<rparr>) = (None, ?pc)"
    using assms by (auto simp: can_run_def ctx_begin_def ctx_Watch_def)
  moreover have "conn_flush (fe_send g ?pc) = (None, started c g pc)"
    using assms by (simp add: can_run_def fe_send_def conn_flush_sent started_def)
  ultimately show ?thesis by (simp add: run_command_def)
qed

lemma finish_idle:
  assumes "conn_live pc rest" and "pc_peekedMsg pc = None" and "ctx_Background c \<longrightarrow> \<not> pc_watching pc"
  shows "idle_again (conn_unlock (ctx_end c pc)) rest" and "pc_txStatus (conn_unlock (ctx_end c pc)) = pc_txStatus pc"
proof -
  have "ctx_end c pc = ctx_Unwatch pc" using assms(3) by (simp add: ctx_end_def ctx_Unwatch_def)
  with idle_unlock [OF assms(1,2)] show "idle_again (conn_unlock (ctx_end c pc)) rest" by simp
  show "pc_txStatus (conn_unlock (ctx_end c pc)) = pc_txStatus pc" by (simp add: ctx_end_def)
qed

text \<open>What \<open>Prepare\<close> collects from the messages before \<open>ReadyForQuery\<close>.\<close>

definition prepare_step ::
  "BackendMessage \<Rightarrow> StatementDescription \<times> bool \<times> PgError option \<Rightarrow> StatementDescription \<times> bool \<times> PgError option" where
  "prepare_step m s =
     (case s of (psd, parsed, err) \<Rightarrow>
        (case m of
           BM_ParseComplete \<Rightarrow> (psd, True, err)
         | BM_ParameterDescription d \<Rightarrow> (psd\<lparr>sd_ParamOIDs := pd_ParameterOIDs d\<rparr>, parsed, err)
         | BM_RowDescription d \<Rightarrow> (psd\<lparr>sd_Fields := convertRowDescription d\<rparr>, parsed, err)
         | BM_ErrorResponse e \<Rightarrow> (psd, parsed, Some (ErrorResponseToPgError e))
         | _ \<Rightarrow> s))"

fun prepare_msg :: "BackendMessage \<Rightarrow> bool" where
  "prepare_msg BM_ParseComplete \<longleftrightarrow> True"
| "prepare_msg (BM_ParameterDescription _) \<longleftrightarrow> True"
| "prepare_msg (BM_RowDescription _) \<longleftrightarrow> True"
| "prepare_msg (BM_ErrorResponse _) \<longleftrightarrow> True"
| "prepare_msg _ \<longleftrightarrow> False"

fun is_ready :: "BackendMessage \<Rightarrow> bool" where
  "is_ready (BM_ReadyForQuery _) \<longleftrightarrow> True"
| "is_ready _ \<longleftrightarrow> False"

lemma prepare_fold: "fold prepare_step ms s = fold prepare_step (filter prepare_msg ms) s"
proof (induction ms arbitrary: s)
  case (Cons m ms)
  have "prepare_step m s = s" if "\<not> prepare_msg m" using that by (cases m) (simp_all add: prepare_step_def split: prod.split)
  with Cons show ?case by simp
qed simp

fun prepare_outcome :: "StatementDescription \<times> bool \<times> PgError option \<Rightarrow> conn_err + StatementDescription" where
  "prepare_outcome (psd, parsed, None) = Inr psd"
| "prepare_outcome (psd, parsed, Some e) = Inl (PrepareErr e parsed)"

lemma Prepare_loop_step:
  assumes "receiveMessage pc = (Inr m, pc1)" and "\<not> is_ready m" and "prepare_step m (psd, parsed, err) = (psd', parsed', err')"
  shows "Prepare_loop c psd parsed err pc = Prepare_loop c psd' parsed' err' pc1"
  unfolding Prepare_loop.simps [of c psd parsed err pc] using assms by (cases m) (auto simp: prepare_step_def)

lemma Prepare_loop_answer:
  assumes "conn_live pc (ms @ BM_ReadyForQuery z # rest)" and "list_all (\<lambda>m. \<not> is_ready m) ms"
  shows "\<exists>pc1. Prepare_loop c psd parsed err pc = (prepare_outcome (fold prepare_step ms (psd, parsed, err)), pc1)
    \<and> conn_live pc1 rest \<and> pc_peekedMsg pc1 = None \<and> still pc pc1 \<and> pc_txStatus pc1 = rfq_TxStatus z"
  using assms
proof (induction ms arbitrary: pc psd parsed err)
  case Nil
  obtain pc1 where r: "receiveMessage pc = (Inr (BM_ReadyForQuery z), pc1)" "conn_live pc1 rest" "still pc pc1" "pc_peekedMsg pc1 = None"
    "pc_txStatus pc1 = tx_after (BM_ReadyForQuery z) (pc_txStatus pc)"
    by (rule receive_live [of pc "BM_ReadyForQuery z" rest]) (use Nil.prems(1) in simp)
  then show ?case
    by (cases err) (auto simp: Prepare_loop.simps [of c psd parsed _ pc] tx_after_def)
next
  case (Cons m ms)
  obtain pc1 where r: "receiveMessage pc = (Inr m, pc1)" "conn_live pc1 (ms @ BM_ReadyForQuery z # rest)" "still pc pc1"
    by (rule receive_live [of pc m "ms @ BM_ReadyForQuery z # rest"]) (use Cons.prems(1) in simp)
  obtain psd' parsed' err' where s: "prepare_step m (psd, parsed, err) = (psd', parsed', err')" by (cases "prepare_step m (psd, parsed, err)")
  have nr: "\<not> is_ready m" "list_all (\<lambda>m. \<not> is_ready m) ms" using Cons.prems(2) by simp_all
  from Cons.IH [OF r(2) nr(2), of psd' parsed' err'] obtain pc2 where
    "Prepare_loop c psd' parsed' err' pc1 = (prepare_outcome (fold prepare_step ms (psd', parsed', err')), pc2)"
    "conn_live pc2 rest" "pc_peekedMsg pc2 = None" "still pc1 pc2" "pc_txStatus pc2 = rfq_TxStatus z" by blast
  with Prepare_loop_step [OF r(1) nr(1) s] s still_trans [OF r(3)] show ?case by (intro exI [of _ pc2]) simp
qed

lemma sends_prepare:
  "sends (\<lambda>f. SendSync (SendDescribe d (SendParse p f)))" "sends (\<lambda>f. SendSync (SendClose d f))"
  unfolding SendSync_def [abs_def] SendDescribe_def [abs_def] SendParse_def [abs_def] SendClose_def [abs_def]
  by ((rule sends_then)+, rule sends_id)+

definition send_prepare :: "bytes \<Rightarrow> bytes \<Rightarrow> u32 list \<Rightarrow> chunkReader Frontend \<Rightarrow> chunkReader Frontend" where
  "send_prepare name sql oids f = SendSync (SendDescribe \<lparr>desc_ObjectType = chr CHR ''S'', desc_Name = name\<rparr>
     (SendParse \<lparr>parse_Name = name, parse_Query = sql, parse_ParameterOIDs = oids\<rparr> f))"

definition send_deallocate :: "bytes \<Rightarrow> chunkReader Frontend \<Rightarrow> chunkReader Frontend" where
  "send_deallocate name f = SendSync (SendClose \<lparr>desc_ObjectType = chr CHR ''S'', desc_Name = name\<rparr> f)"

lemma sends_commands_more: "sends (send_prepare name sql oids)" "sends (send_deallocate name)"
  unfolding send_prepare_def [abs_def] send_deallocate_def [abs_def] by (rule sends_prepare)+

lemma Prepare_answer:
  assumes "can_run c (send_prepare name sql oids) (ms @ BM_ReadyForQuery z # rest) pc" and "list_all (\<lambda>m. \<not> is_ready m) ms"
  shows "\<exists>pc'. PgConn_Prepare c name sql oids pc =
      (prepare_outcome (fold prepare_step (filter prepare_msg ms)
         (\<lparr>sd_Name = name, sd_SQL = sql, sd_ParamOIDs = [], sd_Fields = []\<rparr>, False, None)), pc')
    \<and> idle_again pc' rest \<and> pc_txStatus pc' = rfq_TxStatus z"
proof -
  let ?pc = "started c (send_prepare name sql oids) pc" and ?psd = "\<lparr>sd_Name = name, sd_SQL = sql, sd_ParamOIDs = [], sd_Fields = []\<rparr>"
  have live: "conn_live ?pc (ms @ BM_ReadyForQuery z # rest)" by (rule started_live [OF assms(1) sends_commands_more(1)])
  from Prepare_loop_answer [OF live assms(2)] obtain pc1 where
    l: "Prepare_loop c ?psd False None ?pc = (prepare_outcome (fold prepare_step ms (?psd, False, None)), pc1)"
    "conn_live pc1 rest" "pc_peekedMsg pc1 = None" "still ?pc pc1" "pc_txStatus pc1 = rfq_TxStatus z" by blast
  have "\<not> pc_watching pc1" if "ctx_Background c" using l(4) that by (simp add: still_def started_def)
  note f = finish_idle [OF l(2,3), of c] this
  have "PgConn_Prepare c name sql oids pc = finish_command c (Prepare_loop c ?psd False None ?pc)"
    using run_started [OF assms(1)] by (simp add: PgConn_Prepare_def send_prepare_def [abs_def])
  with l(1,5) f prepare_fold [of ms] show ?thesis by (simp add: finish_command_def)
qed

text \<open>\<open>Deallocate\<close> returns at an error, before the \<open>ReadyForQuery\<close> that follows it.\<close>

lemma deallocate_error_not_synced:
  assumes "can_run c (send_deallocate name) (BM_ErrorResponse e # BM_ReadyForQuery z # rest) pc"
  shows "\<exists>pc'. PgConn_Deallocate c name pc = (Inl (PgErr (ErrorResponseToPgError e)), pc') \<and> idle_again pc' (BM_ReadyForQuery z # rest)"
proof -
  let ?pc = "started c (send_deallocate name) pc"
  have live: "conn_live ?pc (BM_ErrorResponse e # BM_ReadyForQuery z # rest)" by (rule started_live [OF assms sends_commands_more(2)])
  obtain pc1 where r: "receiveMessage ?pc = (Inr (BM_ErrorResponse e), pc1)" "conn_live pc1 (BM_ReadyForQuery z # rest)" "still ?pc pc1" "pc_peekedMsg pc1 = None"
    by (rule receive_live [OF live])
  have "\<not> pc_watching pc1" if "ctx_Background c" using r(3) that by (simp add: still_def started_def)
  note f = finish_idle(1) [OF r(2,4), of c] this
  have "PgConn_Deallocate c name pc = finish_command c (Deallocate_loop c ?pc)"
    using run_started [OF assms] by (simp add: PgConn_Deallocate_def send_deallocate_def [abs_def])
  with r(1) f show ?thesis by (simp add: finish_command_def Deallocate_loop.simps [of c ?pc])
qed

text \<open>The next simple query then takes that message for the end of its own answer, which stays unread.\<close>

lemma query_after_unsynced_deallocate:
  assumes "can_run c (SendQuery \<lparr>query_String = sql\<rparr>) (BM_ReadyForQuery z # rest) pc"
  shows "\<exists>pc'. ref_ReadAll (PgConn_Exec c sql pc) = (([], None), pc') \<and> idle_again pc' rest"
proof -
  let ?pc = "(started c (SendQuery \<lparr>query_String = sql\<rparr>) pc)\<lparr>pc_multiResultReader := new_MultiResultReader c\<rparr>"
  have "conn_live ?pc ([BM_ReadyForQuery z] @ rest)" using started_live [OF assms sends_query] by simp
  moreover have "mrr_open ?pc" by (simp add: mrr_open_def new_MultiResultReader_def)
  ultimately show ?thesis
    using ReadAll_answers [of ?pc "[BM_ReadyForQuery z]" rest "[]" None z "[]"] Exec_started [OF assms]
    by (auto simp: late_msgs_def ref_ReadAll_def ReadAll_def final_err_def)
qed

text \<open>
  A reader of one of several results goes on after \<open>ReadyForQuery\<close>; a second one unlocks the connection again.
\<close>

lemma second_ready_panics:
  assumes "conn_live pc (BM_ReadyForQuery x # BM_ReadyForQuery y # rest)"
    and "rr_multiResultReader (pc_resultReader pc)" and "\<not> rr_commandConcluded (pc_resultReader pc)" and "pc_panics pc = []"
  shows "\<exists>pc1 pc2. NextRow_loop pc = NextRow_loop pc2 \<and> rr_receiveMessage pc = (Inr (BM_ReadyForQuery x), pc1)
    \<and> rr_receiveMessage pc1 = (Inr (BM_ReadyForQuery y), pc2) \<and> unlock_panic pc2"
proof -
  obtain pc0 where r: "receiveMessage pc = (Inr (BM_ReadyForQuery x), pc0)" "conn_live pc0 (BM_ReadyForQuery y # rest)" "still pc pc0"
    "pc_peekedMsg pc0 = None" by (rule receive_live [OF assms(1)])
  define pc1 where "pc1 = conn_unlock (ctx_Unwatch (upd_mrr (\<lambda>mrr. mrr\<lparr>mrr_closed := True\<rparr>) pc0))"
  have i: "idle_again pc1 (BM_ReadyForQuery y # rest)"
    unfolding pc1_def by (rule idle_unlock) (use r in simp_all)
  obtain f0 where "receiveMessage pc = handle_message (BM_ReadyForQuery x) (pc\<lparr>pc_frontend := f0, pc_peekedMsg := None\<rparr>)"
    using receiveMessage_delivers [of pc "BM_ReadyForQuery x"] assms(1) unfolding conn_live_def by fastforce
  with r(1) have "pc0 = pc\<lparr>pc_frontend := f0, pc_peekedMsg := None, pc_txStatus := rfq_TxStatus x\<rparr>"
    by (simp add: handle_message_def)
  with assms(4) r(2) have quiet: "pc_panics pc1 = []" by (simp add: pc1_def conn_unlock_def ctx_Unwatch_def conn_live_def)
  have r1: "rr_receiveMessage pc = (Inr (BM_ReadyForQuery x), pc1)"
    using assms(2) r(1) by (simp add: rr_receiveMessage_def mrr_receiveMessage_def pc1_def rr_handle_def)
  have d: "conn_delivers pc1 (BM_ReadyForQuery y # rest)" "pc_status pc1 \<noteq> connStatusClosed" using i by (simp_all add: idle_again_def)
  have rr1: "pc_resultReader pc1 = pc_resultReader pc" using r(3) by (simp add: pc1_def still_def)
  obtain f where f: "receiveMessage pc1 = handle_message (BM_ReadyForQuery y) (pc1\<lparr>pc_frontend := f, pc_peekedMsg := None\<rparr>)"
    using receiveMessage_delivers [OF d] by blast
  define pc2 where "pc2 = conn_unlock (ctx_Unwatch (upd_mrr (\<lambda>mrr. mrr\<lparr>mrr_closed := True\<rparr>)
    (pc1\<lparr>pc_frontend := f, pc_peekedMsg := None, pc_txStatus := rfq_TxStatus y\<rparr>)))"
  have r2: "rr_receiveMessage pc1 = (Inr (BM_ReadyForQuery y), pc2)"
    using assms(2) f rr1 by (simp add: rr_receiveMessage_def mrr_receiveMessage_def pc2_def rr_handle_def handle_message_def)
  have "unlock_panic pc2"
    using i quiet by (simp add: pc2_def unlock_panic_def idle_again_def conn_unlock_def ctx_Unwatch_def conn_panic_def)
  moreover have "NextRow_loop pc = NextRow_loop pc2"
    using assms(3) r1 r2 rr1 by (simp add: NextRow_loop.simps [of pc] NextRow_loop.simps [of pc1])
  ultimately show ?thesis using r1 r2 by blast
qed

section \<open>Properties\<close>

text \<open>
  C6: a simple query of several statements. When the server answers each statement with its rows and the end of
  its command, perhaps fails one, and then sends \<open>ReadyForQuery\<close>, with any notices, notifications and other messages
  in between, \<open>ReadAll\<close> returns one result for each answered statement, in order, each with its own columns, rows
  and tag, and the error of the failed one. The connection is idle again, and nothing after the answer has been
  consumed.
\<close>

theorem simple_query_results:
  assumes "can_run c (SendQuery \<lparr>query_String = sql\<rparr>) (ms @ rest) pc"
    and "filter significant ms = concat (map answer_msgs as) @ late_msgs late @ [BM_ReadyForQuery z]"
    and "list_all wf_answer as" and "last ms = BM_ReadyForQuery z"
  shows "\<exists>pc'. ref_ReadAll (PgConn_Exec c sql pc) = ((map answered as, final_err late None), pc')
    \<and> idle_again pc' rest \<and> pc_txStatus pc' = rfq_TxStatus z
    \<and> ep_w (pc_frontend pc') = ep_w (snd (Frontend_Flush (SendQuery \<lparr>query_String = sql\<rparr> (pc_frontend pc))))"
proof -
  let ?pc = "(started c (SendQuery \<lparr>query_String = sql\<rparr>) pc)\<lparr>pc_multiResultReader := new_MultiResultReader c\<rparr>"
  have live: "conn_live ?pc (ms @ rest)" using started_live [OF assms(1) sends_query] by simp
  have "mrr_open ?pc" by (simp add: mrr_open_def new_MultiResultReader_def)
  from ReadAll_answers [OF live assms(2,4) this assms(3), of "[]"] obtain pc1 pc2 where
    "ReadAll_loop [] ?pc = (map answered as, pc1)" "MultiResultReader_Close pc1 = (final_err late None, pc2)"
    "idle_again pc2 rest" "pc_txStatus pc2 = rfq_TxStatus z" "ep_w (pc_frontend pc2) = ep_w (pc_frontend ?pc)" by auto
  with Exec_started [OF assms(1)] show ?thesis
    by (intro exI [of _ pc2]) (simp add: ref_ReadAll_def ReadAll_def started_def)
qed

definition demo_results :: reader where
  "demo_results = [([84, 0, 0, 0, 6, 0, 0, 68, 0, 0, 0, 6, 0, 0, 67, 0, 0, 0, 6, 83, 0], None),
     ([67, 0, 0, 0, 6, 66, 0, 90, 0, 0, 0, 5, 73], None)]"

lemma demo_results_sent:
  "Backend_Flush (fold Backend_Send [BM_RowDescription \<lparr>rd_Fields = []\<rparr>, BM_DataRow [], BM_CommandComplete \<lparr>cc_CommandTag = [83]\<rparr>,
       BM_CommandComplete \<lparr>cc_CommandTag = [66]\<rparr>, BM_ReadyForQuery \<lparr>rfq_TxStatus = 73\<rparr>] idle_endpoint) =
     (None, idle_endpoint\<lparr>ep_w := \<lparr>w_out = reader_bytes demo_results, w_script = []\<rparr>\<rparr>)"
  by (simp add: idle_defs Backend_Flush_def Backend_Send_def demo_results_def reader_bytes_def
      ReadyForQuery_Encode_def rowDescription.encode dataRow.encode commandComplete.encode frame_def no_nul_def
      maxMessageBodyLen_def AppendUint32_def AppendUint16_def)

theorem simple_query_results_witness:
  "\<exists>pc pc'. Construct (demo_hc demo_results) init_pools = Inr pc
     \<and> ref_ReadAll (PgConn_Exec demo_ctx [59] pc) =
         (([\<lparr>res_FieldDescriptions = Some [], res_Rows = [[]], res_CommandTag = makeCommandTag [83], res_Err = None\<rparr>,
            \<lparr>res_FieldDescriptions = None, res_Rows = [], res_CommandTag = makeCommandTag [66], res_Err = None\<rparr>], None), pc')
     \<and> pc_status pc' = connStatusIdle"
proof -
  let ?ms = "[BM_RowDescription \<lparr>rd_Fields = []\<rparr>, BM_DataRow [], BM_CommandComplete \<lparr>cc_CommandTag = [83]\<rparr>,
       BM_CommandComplete \<lparr>cc_CommandTag = [66]\<rparr>, BM_ReadyForQuery \<lparr>rfq_TxStatus = 73\<rparr>]"
  have r: "reliable_reader demo_results" by (simp add: demo_results_def reliable_reader_def)
  obtain pc where pc: "Construct (demo_hc demo_results) init_pools = Inr pc"
    by (rule Construct_ok [OF wf_init_pools, of "demo_hc demo_results"]) (use reliable_proper [OF r] in \<open>simp_all add: demo_hc_def\<close>)
  have "ep_encodeError (pc_frontend pc) = None" using pc
    by (cases "newChunkReader demo_results 0 init_pools") (auto simp: Construct_def NewFrontend_def demo_hc_def)
  then have run: "can_run demo_ctx (SendQuery \<lparr>query_String = [59]\<rparr>) (?ms @ []) pc"
    using demo_runs [OF pc r _ demo_results_sent _ _ sends_query, of "\<lparr>query_String = [59]\<rparr>"]
    by (simp add: SendQuery_def endpoint_Send_def query.encode frame_def no_nul_def maxMessageBodyLen_def)
  from simple_query_results [OF run, of "[(Some \<lparr>rd_Fields = []\<rparr>, [[]], BM_CommandComplete \<lparr>cc_CommandTag = [83]\<rparr>),
      (None, [], BM_CommandComplete \<lparr>cc_CommandTag = [66]\<rparr>)]" None "\<lparr>rfq_TxStatus = 73\<rparr>"] pc
  show ?thesis
    by (auto simp: desc_msgs_def late_msgs_def answer_result_def final_err_def convertRowDescription_def idle_again_def)
qed

text \<open>
  C7: preparing a statement. \<open>Prepare\<close> reads up to \<open>ReadyForQuery\<close> whatever comes before it, and leaves the connection
  idle. It returns the parameters and the columns that the server described, or the error of the server with
  whether the statement had been parsed before it.
\<close>

theorem prepare_results:
  assumes "can_run c (send_prepare name sql oids) (ms @ BM_ReadyForQuery z # rest) pc" and "list_all (\<lambda>m. \<not> is_ready m) ms"
  shows "\<exists>r pc'. PgConn_Prepare c name sql oids pc = (r, pc') \<and> idle_again pc' rest \<and> pc_txStatus pc' = rfq_TxStatus z
    \<and> (filter prepare_msg ms = BM_ParseComplete # BM_ParameterDescription p # desc_msgs desc \<longrightarrow>
         r = Inr \<lparr>sd_Name = name, sd_SQL = sql, sd_ParamOIDs = pd_ParameterOIDs p,
           sd_Fields = (case desc of None \<Rightarrow> [] | Some d \<Rightarrow> convertRowDescription d)\<rparr>)
    \<and> (filter prepare_msg ms = (if parsed then [BM_ParseComplete] else []) @ [BM_ErrorResponse e] \<longrightarrow>
         r = Inl (PrepareErr (ErrorResponseToPgError e) parsed))"
  using Prepare_answer [OF assms]
  by (cases desc; cases parsed) (auto simp: prepare_step_def desc_msgs_def)

definition demo_described :: reader where
  "demo_described = [([49, 0, 0, 0, 4, 116, 0, 0, 0, 10, 0, 1, 0, 0], None), ([0, 23, 110, 0, 0, 0, 4, 90, 0, 0, 0, 5, 73], None)]"

lemma demo_described_sent:
  "Backend_Flush (fold Backend_Send [BM_ParseComplete, BM_ParameterDescription \<lparr>pd_ParameterOIDs = [23]\<rparr>, BM_NoData,
       BM_ReadyForQuery \<lparr>rfq_TxStatus = 73\<rparr>] idle_endpoint) =
     (None, idle_endpoint\<lparr>ep_w := \<lparr>w_out = reader_bytes demo_described, w_script = []\<rparr>\<rparr>)"
  by (simp add: idle_defs Backend_Flush_def Backend_Send_def demo_described_def reader_bytes_def ParseComplete_Encode_def NoData_Encode_def
      ReadyForQuery_Encode_def parameterDescription.encode frame_def maxMessageBodyLen_def AppendUint32_def AppendUint16_def)

theorem prepare_results_witness:
  "\<exists>pc pc'. Construct (demo_hc demo_described) init_pools = Inr pc
     \<and> PgConn_Prepare demo_ctx [115] [59] [] pc = (Inr \<lparr>sd_Name = [115], sd_SQL = [59], sd_ParamOIDs = [23], sd_Fields = []\<rparr>, pc')
     \<and> pc_status pc' = connStatusIdle"
proof -
  let ?ms = "[BM_ParseComplete, BM_ParameterDescription \<lparr>pd_ParameterOIDs = [23]\<rparr>, BM_NoData]"
  have r: "reliable_reader demo_described" by (simp add: demo_described_def reliable_reader_def)
  obtain pc where pc: "Construct (demo_hc demo_described) init_pools = Inr pc"
    by (rule Construct_ok [OF wf_init_pools, of "demo_hc demo_described"]) (use reliable_proper [OF r] in \<open>simp_all add: demo_hc_def\<close>)
  have "ep_encodeError (pc_frontend pc) = None" using pc
    by (cases "newChunkReader demo_described 0 init_pools") (auto simp: Construct_def NewFrontend_def demo_hc_def)
  then have run: "can_run demo_ctx (send_prepare [115] [59] []) (?ms @ BM_ReadyForQuery \<lparr>rfq_TxStatus = 73\<rparr> # []) pc"
    using demo_runs [OF pc r _ demo_described_sent _ _ sends_commands_more(1), of "[115]" "[59]" "[]"]
    by (simp add: send_prepare_def SendSync_def SendDescribe_def SendParse_def endpoint_Send_def syncm.encode describe.encode parse.encode
        frame_def no_nul_def maxMessageBodyLen_def)
  from prepare_results [OF run, of "\<lparr>pd_ParameterOIDs = [23]\<rparr>" None] pc show ?thesis
    by (auto simp: desc_msgs_def idle_again_def)
qed

end
