(* ===== verification/Spec2Isabelle.thy ===== *)
theory Spec2Isabelle
  imports Proto_Conversation Lru_Cache Sanitize_Props Pg_Int_Props Pgconn_Answers
begin

text \<open>
  A verification of pgx, the PostgreSQL driver for Go.

  \<^bold>\<open>The program.\<close> A connection (\<open>pgconn\<close>) talks to the server in the PostgreSQL wire protocol.
  \<open>pgproto3\<close> holds the messages of that protocol and its two ends: \<open>Frontend\<close> (the client) and
  \<open>Backend\<close> (the server, used by proxies and tests). Both ends read through a chunk reader, which takes
  its buffers from \<open>internal/iobufpool\<close>, and both encode with \<open>internal/pgio\<close>. Above them, \<open>conn.go\<close>
  caches prepared statements (\<open>internal/stmtcache\<close>) and, in the simple protocol, writes arguments into the
  SQL text (\<open>internal/sanitize\<close>).

  \<^bold>\<open>Conventions.\<close> Bytes are 8-bit words and machine integers words of their width, read with \<open>sint\<close> or
  \<open>unat\<close>. An operation that can fail returns \<open>goerr + 'a\<close>; \<open>GoPanic\<close> is not an error of the program but
  a run-time panic (an index out of range, a nil pointer), so that its absence is a theorem (\<open>safe\<close>). State
  is a record that the operation returns updated. Names are those of the source, with the receiver's type in
  front where a method name alone would be ambiguous.

  \<^bold>\<open>Theories.\<close>
  \<^item> \<open>Pgx_Prelude\<close>: types, results, slices and counted loops, and the lemmas the components share.
  \<^item> \<open>Pgio\<close> (\<open>internal/pgio/write.go\<close>): big-endian integers.
  \<^item> \<open>Go_Strconv\<close>, \<open>Go_Utf8\<close>: the parts of \<open>strconv\<close> and \<open>unicode/utf8\<close> that the sources use.
  \<^item> \<open>Proto_Frame\<close> (\<open>pgproto3.go\<close>): the frame of a message; the locale \<open>message_codec\<close> says what an
    encoder and a decoder of a message owe each other.
  \<^item> \<open>Proto_Backend_Msgs\<close>, \<open>Proto_Result_Msgs\<close>, \<open>Proto_Error_Msg\<close>, \<open>Proto_Frontend_Msgs\<close>: every message of
    \<open>pgproto3\<close>, each with an interpretation of \<open>message_codec\<close>: decoding an encoded message gives it back,
    and decoding arbitrary bytes does not panic.
  \<^item> \<open>Iobufpool\<close> and \<open>Chunk_Reader\<close>: buffers and the reader. The locale \<open>byte_source\<close> is the contract of
    \<open>chunkReader.Next\<close>.
  \<^item> \<open>Proto_Endpoint\<close>: what \<open>Frontend\<close> and \<open>Backend\<close> share: the write buffer, \<open>Flush\<close>, reading a header
    and a body. The locale \<open>message_stream\<close> lifts the contract of one \<open>Receive\<close> to sequences of calls.
  \<^item> \<open>Proto_Frontend\<close>, \<open>Proto_Backend\<close>: the two ends. \<open>Proto_Conversation\<close>: what they guarantee together.
  \<^item> \<open>Stmt_Cache\<close>, \<open>Lru_Cache\<close>: the specification of a statement cache, and the linked list over an
    explicit store of nodes that implements it.
  \<^item> \<open>Sanitize\<close>: the lexer for placeholders and the rendering of arguments. \<open>Sanitize_Lex\<close>: an automaton on
    the remaining input that yields the same parts. \<open>Sanitize_Props\<close>: what is guaranteed about the output.
  \<^item> \<open>Pg_Int\<close> (\<open>pgtype/int.go\<close>): the integer types, their encode plans and scan plans. \<open>Pg_Int_Props\<close>: all the plans
    described by the number that they move, and what follows for every combination of them.
  \<^item> \<open>Pgconn\<close> (\<open>pgconn/pgconn.go\<close>): the connection, its lock, and how it receives messages. \<open>Pgconn_Results\<close>: the
    readers of results. \<open>Pgconn_Commands\<close>: the commands, from \<open>Exec\<close> to \<open>CopyFrom\<close>. \<open>Pgconn_Pipeline\<close>: pipelines.
    A panic is recorded in the ghost field \<open>pc_panics\<close>. What goroutines do is given by what the reader delivers.
    Every loop over messages ends because each of its rounds takes from what the reader has left (\<open>conn_left\<close>).
  \<^item> \<open>Pgconn_Inv\<close>, \<open>Pgconn_Steps\<close>: what each call keeps of the invariant of a connection, and the step relation
    \<open>conn_step\<close> over all of them. \<open>Pgconn_Props\<close>: what holds in every state that is reached.
  \<^item> \<open>Pgconn_Flow\<close>, \<open>Pgconn_Query\<close>, \<open>Pgconn_Answers\<close>: what a query or \<open>Prepare\<close> returns when the server answers as the protocol says, with other
    messages between those of its answer.

  \<^bold>\<open>Not modelled.\<close> Connecting and authenticating need the network, files and cryptography. The background reader,
  the context watcher and the pool consist of goroutines and timers; only their effect on a connection is here. The
  other codecs of \<open>pgtype\<close> and the scanning into Go values are chosen by reflection on Go types. The query interface of
  \<open>conn.go\<close>, \<open>rows.go\<close>, \<open>tx.go\<close> and the adapter to \<open>database/sql\<close> call these parts. Log output and the JSON
  representation of messages are left out.
\<close>

end
